(* ===== verification/Prelude.thy ===== *)
theory Prelude
  imports
    Main
    "HOL-Library.Sublist"
    "HOL-Library.AList"
    "HOL-Library.Char_ord"
    "HOL-Library.List_Lexorder"
    "HOL-Library.Product_Lexorder"
    "HOL-Library.Code_Target_Nat"
begin

text \<open>
  Shared vocabulary of the development: Go's \<open>error\<close> values and results, operations with a
  mutable state, operations that may not end, and the predicates that operations preserve.  A Go
  string is a byte sequence, so it is a HOL \<^typ>\<open>string\<close> whose characters are bytes.
\<close>

section \<open>Errors and results\<close>

text \<open>
  An error is the format string of the \<open>errors.New\<close> or \<open>fmt.Errorf\<close> call with its
  arguments (\<open>Errorf\<close>), the same call wrapping another error with \<open>%w\<close>
  (\<open>Wrapf\<close>), one of the sentinels the code tests with \<open>errors.Is\<close> or
  \<open>errors.As\<close>, or an error of the operating system or of a remote service.
\<close>

datatype error =
    Errorf string "string list"
  | Wrapf string "string list" error
  | StopError error
  | JoinErrors "error list"
  | ErrMissingSymlinkSource
  | ErrNotExist
  | ErrExist
  | ExitError int
  | DialError string
  | ContextDone
  | ResponseError int string
  | SysError string

type_synonym 'a result = "error + 'a"

text \<open>\<open>errors.Is\<close> and \<open>errors.As\<close> walk the chain of wrapped errors; this is the
  chain from the outermost error inwards (a join contributes all of its branches).\<close>

fun error_chain :: "error \<Rightarrow> error list" where
  "error_chain (Wrapf f as e) = Wrapf f as e # error_chain e"
| "error_chain (StopError e) = StopError e # error_chain e"
| "error_chain (JoinErrors es) = JoinErrors es # concat (map error_chain es)"
| "error_chain e = [e]"

definition errors_Is :: "error \<Rightarrow> error \<Rightarrow> bool" where
  "errors_Is e target \<longleftrightarrow> List.member (error_chain e) target"

definition bind_res :: "'a result \<Rightarrow> ('a \<Rightarrow> 'b result) \<Rightarrow> 'b result" where
  "bind_res m f = (case m of Inl e \<Rightarrow> Inl e | Inr x \<Rightarrow> f x)"

text \<open>Operations with a mutable state return the state on the error path too: Go keeps
  whatever was written before the error was returned.\<close>

type_synonym ('s, 'a) eff = "'s \<Rightarrow> 'a result \<times> 's"

definition ret :: "'a \<Rightarrow> ('s, 'a) eff" where
  "ret x s = (Inr x, s)"

definition raise :: "error \<Rightarrow> ('s, 'a) eff" where
  "raise e s = (Inl e, s)"

definition bind_eff :: "('s, 'a) eff \<Rightarrow> ('a \<Rightarrow> ('s, 'b) eff) \<Rightarrow> ('s, 'b) eff" where
  "bind_eff m f s = (case m s of (Inl e, s') \<Rightarrow> (Inl e, s') | (Inr x, s') \<Rightarrow> f x s')"

text \<open>A read-only query of the state, and an error wrapped on its way out.\<close>

definition query_eff :: "('s \<Rightarrow> 'a result) \<Rightarrow> ('s, 'a) eff" where
  "query_eff q s = (q s, s)"

definition wrap_res :: "string \<Rightarrow> string list \<Rightarrow> 'a result \<Rightarrow> 'a result" where
  "wrap_res fmt as r = (case r of Inl e \<Rightarrow> Inl (Wrapf fmt as e) | Inr x \<Rightarrow> Inr x)"

definition wrap_eff :: "string \<Rightarrow> string list \<Rightarrow> ('s, 'a) eff \<Rightarrow> ('s, 'a) eff" where
  "wrap_eff fmt as m s = (case m s of (r, s') \<Rightarrow> (wrap_res fmt as r, s'))"

text \<open>A \<open>for\<close> loop whose body may fail: the first error ends it.\<close>

fun for_eff :: "'a list \<Rightarrow> ('a \<Rightarrow> ('s, unit) eff) \<Rightarrow> ('s, unit) eff" where
  "for_eff [] body s = (Inr (), s)"
| "for_eff (x # xs) body s =
     (case body x s of (Inl e, s') \<Rightarrow> (Inl e, s') | (Inr _, s') \<Rightarrow> for_eff xs body s')"

fun for_res :: "'a list \<Rightarrow> ('a \<Rightarrow> 'b result) \<Rightarrow> 'b list result" where
  "for_res [] body = Inr []"
| "for_res (x # xs) body =
     (case body x of Inl e \<Rightarrow> Inl e
      | Inr y \<Rightarrow> (case for_res xs body of Inl e \<Rightarrow> Inl e | Inr ys \<Rightarrow> Inr (y # ys)))"

text \<open>The same with a value for each element.\<close>

fun collect_eff :: "'a list \<Rightarrow> ('a \<Rightarrow> ('s, 'b) eff) \<Rightarrow> ('s, 'b list) eff" where
  "collect_eff [] body = ret []"
| "collect_eff (x # xs) body = bind_eff (body x) (\<lambda>y. bind_eff (collect_eff xs body) (\<lambda>ys. ret (y # ys)))"

named_theorems eff_simps \<open>rules that run an effectful operation\<close>

lemma bind_res_simps [simp]:
  "bind_res (Inl e) f = Inl e"
  "bind_res (Inr x) f = f x"
  by (simp_all add: bind_res_def)

lemma bind_res_Inr [simp]:
  "bind_res m f = Inr y \<longleftrightarrow> (\<exists>x. m = Inr x \<and> f x = Inr y)"
  by (cases m) auto

lemma bind_res_Inl:
  "bind_res m f = Inl e \<longleftrightarrow> m = Inl e \<or> (\<exists>x. m = Inr x \<and> f x = Inl e)"
  by (cases m) auto

lemma wrap_res_simps [simp]:
  "wrap_res fmt as (Inl e) = Inl (Wrapf fmt as e)"
  "wrap_res fmt as (Inr x) = Inr x"
  by (simp_all add: wrap_res_def)

lemma wrap_res_Inr [simp]: "wrap_res fmt as r = Inr x \<longleftrightarrow> r = Inr x"
  by (cases r) auto

lemma map_result_Inr: "map_sum id f r = Inr y \<longleftrightarrow> (\<exists>x. r = Inr x \<and> y = f x)"
  by (cases r) auto

lemma bind_res_return: "bind_res m Inr = m"
  by (cases m) auto

lemma for_res_set:
  "for_res xs f = Inr ys \<Longrightarrow> y \<in> set ys \<Longrightarrow> \<exists>x \<in> set xs. f x = Inr y"
  by (induction xs arbitrary: ys) (auto split: sum.splits)

lemma ret_run [simp, eff_simps]: "ret x s = (Inr x, s)"
  by (simp add: ret_def)

lemma raise_run [simp, eff_simps]: "raise e s = (Inl e, s)"
  by (simp add: raise_def)

lemma query_eff_run [simp, eff_simps]: "query_eff q s = (q s, s)"
  by (simp add: query_eff_def)

lemma bind_eff_Inr:
  "bind_eff m f s = (Inr y, s'') \<longleftrightarrow> (\<exists>x s'. m s = (Inr x, s') \<and> f x s' = (Inr y, s''))"
  by (auto simp: bind_eff_def split: prod.splits sum.splits)

lemma bind_eff_Inl:
  "bind_eff m f s = (Inl e, s'') \<longleftrightarrow>
     m s = (Inl e, s'') \<or> (\<exists>x s'. m s = (Inr x, s') \<and> f x s' = (Inl e, s''))"
  by (auto simp: bind_eff_def split: prod.splits sum.splits)

lemma for_eff_cong:
  "(\<And>x. x \<in> set xs \<Longrightarrow> body x = body' x) \<Longrightarrow> for_eff xs body s = for_eff xs body' s"
  by (induction xs arbitrary: s) (auto split: prod.split sum.split)

lemma wrap_eff_Inr [simp]:
  "wrap_eff fmt as m s = (Inr y, s') \<longleftrightarrow> m s = (Inr y, s')"
  by (auto simp: wrap_eff_def split: prod.splits)

text \<open>An invariant of the state that every iteration keeps holds after the loop,
  whether it ended normally or with an error.\<close>

lemma for_eff_invariant:
  assumes "P s" and "\<And>x t r t'. x \<in> set xs \<Longrightarrow> P t \<Longrightarrow> body x t = (r, t') \<Longrightarrow> P t'"
    and "for_eff xs body s = (r, s')"
  shows "P s'"
  using assms
proof (induction xs arbitrary: s)
  case Nil
  then show ?case by simp
next
  case (Cons x xs)
  obtain r1 s1 where b: "body x s = (r1, s1)" by fastforce
  have P1: "P s1" by (rule Cons.prems(2) [OF _ Cons.prems(1) b]) simp
  show ?case
  proof (cases r1)
    case (Inl e)
    with Cons.prems(3) b P1 show ?thesis by simp
  next
    case (Inr u)
    with Cons.prems(3) b have "for_eff xs body s1 = (r, s')" by simp
    then show ?thesis using Cons.IH [OF P1] Cons.prems(2) by (meson list.set_intros(2))
  qed
qed

text \<open>After a loop that ended normally every element's postcondition holds, when later
  iterations keep the postconditions of earlier ones.\<close>

lemma for_eff_keeps:
  assumes "\<And>y t t'. y \<in> set ys \<Longrightarrow> Q t \<Longrightarrow> body y t = (Inr (), t') \<Longrightarrow> Q t'"
    and "Q s" and "for_eff ys body s = (Inr (), s')"
  shows "Q s'"
  using assms
proof (induction ys arbitrary: s)
  case Nil
  then show ?case by simp
next
  case (Cons y ys)
  from Cons.prems(3) obtain s1 where "body y s = (Inr (), s1)"
    and rest: "for_eff ys body s1 = (Inr (), s')"
    by (auto split: prod.splits sum.splits)
  with Cons.prems(1) [of y s s1] Cons.prems(2) have "Q s1" by simp
  then show ?case using Cons.IH rest Cons.prems(1) by (meson list.set_intros(2))
qed

lemma for_eff_all:
  assumes "for_eff xs body s = (Inr (), s')"
    and "\<And>x t t'. x \<in> set xs \<Longrightarrow> body x t = (Inr (), t') \<Longrightarrow> Q x t'"
    and "\<And>x y t t'. x \<in> set xs \<Longrightarrow> y \<in> set xs \<Longrightarrow> Q x t \<Longrightarrow> body y t = (Inr (), t') \<Longrightarrow> Q x t'"
  shows "\<forall>x \<in> set xs. Q x s'"
  using assms
proof (induction xs arbitrary: s)
  case Nil
  then show ?case by simp
next
  case (Cons x xs)
  from Cons.prems(1) obtain s1 where b: "body x s = (Inr (), s1)"
    and rest: "for_eff xs body s1 = (Inr (), s')"
    by (auto split: prod.splits sum.splits)
  have tail: "\<forall>y \<in> set xs. Q y s'"
  proof (rule Cons.IH [OF rest])
    show "Q y t'" if "y \<in> set xs" "body y t = (Inr (), t')" for y t t'
      using Cons.prems(2) [of y t t'] that by simp
    show "Q y t'" if "y \<in> set xs" "z \<in> set xs" "Q y t" "body z t = (Inr (), t')" for y z t t'
      using Cons.prems(3) [of y z t t'] that by simp
  qed
  have "Q x s1" using Cons.prems(2) [OF _ b] by simp
  moreover have "Q x t'" if "y \<in> set xs" "Q x t" "body y t = (Inr (), t')" for y t t'
    using Cons.prems(3) [of x y t t'] that by simp
  ultimately have "Q x s'"
    using for_eff_keeps [of xs "Q x" body s1 s'] rest by blast
  with tail show ?case by simp
qed

section \<open>Operations that may not end\<close>

text \<open>A run is an effect whose value is \<open>None\<close> when it does not return; an ordinary effect is
  a run that always does.\<close>

type_synonym ('s, 'a) run = "'s \<Rightarrow> ('a result \<times> 's) option"

definition once :: "('s, 'a) eff \<Rightarrow> ('s, 'a) run" where
  "once m s = Some (m s)"

definition bind_run :: "('s, 'a) run \<Rightarrow> ('a \<Rightarrow> ('s, 'b) run) \<Rightarrow> ('s, 'b) run" where
  "bind_run m f s =
     (case m s of None \<Rightarrow> None | Some (Inl e, s') \<Rightarrow> Some (Inl e, s') | Some (Inr x, s') \<Rightarrow> f x s')"

definition wrap_run :: "string \<Rightarrow> string list \<Rightarrow> ('s, 'a) run \<Rightarrow> ('s, 'a) run" where
  "wrap_run fmt as m s = map_option (\<lambda>(r, s'). (wrap_res fmt as r, s')) (m s)"

text \<open>A deferred call whose result is dropped.\<close>

definition defer_run :: "('s, unit) eff \<Rightarrow> ('s, 'a) run \<Rightarrow> ('s, 'a) run" where
  "defer_run cleanup m s = map_option (\<lambda>(r, s'). (r, snd (cleanup s'))) (m s)"

fun for_run :: "'a list \<Rightarrow> ('a \<Rightarrow> ('s, unit) run) \<Rightarrow> ('s, unit) run" where
  "for_run [] body s = Some (Inr (), s)"
| "for_run (x # xs) body s = bind_run (body x) (\<lambda>_. for_run xs body) s"

lemma once_run [simp, eff_simps]: "once m s = Some (m s)"
  by (simp add: once_def)

lemma bind_run_Some:
  "bind_run m f s = Some (Inr y, s'') \<longleftrightarrow> (\<exists>x s'. m s = Some (Inr x, s') \<and> f x s' = Some (Inr y, s''))"
  by (auto simp: bind_run_def split: option.splits prod.splits sum.splits)

lemma bind_run_cong:
  "m s = m' s \<Longrightarrow> (\<And>x s'. m s = Some (Inr x, s') \<Longrightarrow> f x s' = f' x s') \<Longrightarrow> bind_run m f s = bind_run m' f' s"
  by (auto simp: bind_run_def split: option.split prod.split sum.split)

lemma for_run_cong:
  "(\<And>x. x \<in> set xs \<Longrightarrow> body x = body' x) \<Longrightarrow> for_run xs body s = for_run xs body' s"
  by (induction xs arbitrary: s) (auto intro!: bind_run_cong)

text \<open>\<open>errors.Join\<close>: the errors among the results, if there are any.\<close>

definition errors_Join :: "unit result list \<Rightarrow> unit result" where
  "errors_Join rs =
     (case concat (map (\<lambda>r. case r of Inl e \<Rightarrow> [e] | Inr _ \<Rightarrow> []) rs) of
        [] \<Rightarrow> Inr () | es \<Rightarrow> Inl (JoinErrors es))"

section \<open>Preserved predicates\<close>

text \<open>An operation preserves a predicate of the state when it holds afterwards, with whatever
  result; the collection closes the combinators under it.\<close>

definition preserves :: "('s \<Rightarrow> bool) \<Rightarrow> ('s, 'a) eff \<Rightarrow> bool" where
  "preserves P m \<longleftrightarrow> (\<forall>s. P s \<longrightarrow> P (snd (m s)))"

named_theorems preserving \<open>operations that preserve a predicate of their state\<close>

lemma preservesI: "(\<And>s r s'. P s \<Longrightarrow> m s = (r, s') \<Longrightarrow> P s') \<Longrightarrow> preserves P m"
  unfolding preserves_def by (metis prod.collapse)

lemma preservesD: "preserves P m \<Longrightarrow> m s = (r, s') \<Longrightarrow> P s \<Longrightarrow> P s'"
  unfolding preserves_def by (metis snd_conv)

lemma preserves_snd: "preserves P m \<Longrightarrow> P s \<Longrightarrow> P (snd (m s))"
  unfolding preserves_def by blast

lemma preserves_bind [preserving]:
  "preserves P m \<Longrightarrow> (\<And>x. preserves P (f x)) \<Longrightarrow> preserves P (bind_eff m f)"
  unfolding preserves_def bind_eff_def by (fastforce split: prod.splits sum.splits)

lemma preserves_wrap [preserving]: "preserves P m \<Longrightarrow> preserves P (wrap_eff fmt as m)"
  unfolding preserves_def wrap_eff_def by (auto split: prod.splits)

lemma preserves_ret [preserving]: "preserves P (ret x)" "preserves P (\<lambda>s. (Inr y, s))"
    "preserves P (query_eff q)" "preserves P (raise e)"
  unfolding preserves_def by simp_all

lemma preserves_for [preserving]:
  assumes "\<And>x. x \<in> set xs \<Longrightarrow> preserves P (body x)"
  shows "preserves P (for_eff xs body)"
proof (rule preservesI)
  fix s r s'
  assume s: "P s" and run: "for_eff xs body s = (r, s')"
  have "P t'" if "x \<in> set xs" "P t" "body x t = (q, t')" for x t q t'
    using preservesD [OF assms [OF that(1)] that(3,2)] .
  then show "P s'" using for_eff_invariant [where P = P, OF s _ run] by blast
qed

lemma preserves_if [preserving]:
  "preserves P m \<Longrightarrow> preserves P m' \<Longrightarrow> preserves P (if c then m else m')"
  by simp

end
