(* ===== verification/Strings.thy ===== *)
theory Strings
  imports Prelude
begin

text \<open>
  The functions of Go's \<open>strings\<close> and \<open>strconv\<close> packages that the entrypoints use, over
  byte strings, with the laws the components share.  White space is Go's
  \<open>unicode.IsSpace\<close>: a code point beyond ASCII is recognised by its UTF-8 encoding.  Case
  folding covers ASCII and the three code points whose folding is an ASCII letter (dotted
  capital I, long s, Kelvin sign); other letters keep their case here, which no comparison
  of the program can observe because it compares with ASCII words only.
\<close>

section \<open>Prefixes, suffixes and separators\<close>

definition HasPrefix :: "string \<Rightarrow> string \<Rightarrow> bool" where
  "HasPrefix s p = prefix p s"

definition HasSuffix :: "string \<Rightarrow> string \<Rightarrow> bool" where
  "HasSuffix s p = suffix p s"

definition CutPrefix :: "string \<Rightarrow> string \<Rightarrow> string option" where
  "CutPrefix s p = (if prefix p s then Some (drop (length p) s) else None)"

definition CutSuffix :: "string \<Rightarrow> string \<Rightarrow> string option" where
  "CutSuffix s p = (if suffix p s then Some (take (length s - length p) s) else None)"

definition TrimPrefix :: "string \<Rightarrow> string \<Rightarrow> string" where
  "TrimPrefix s p = (if prefix p s then drop (length p) s else s)"

definition TrimSuffix :: "string \<Rightarrow> string \<Rightarrow> string" where
  "TrimSuffix s p = (if suffix p s then take (length s - length p) s else s)"

definition Trim :: "string \<Rightarrow> char list \<Rightarrow> string" where
  "Trim s cs = rev (dropWhile (\<lambda>c. c \<in> set cs) (rev (dropWhile (\<lambda>c. c \<in> set cs) s)))"

definition TrimRight :: "string \<Rightarrow> char list \<Rightarrow> string" where
  "TrimRight s cs = rev (dropWhile (\<lambda>c. c \<in> set cs) (rev s))"

definition Contains :: "string \<Rightarrow> string \<Rightarrow> bool" where
  "Contains s sub = sublist sub s"

definition ContainsAny :: "string \<Rightarrow> char list \<Rightarrow> bool" where
  "ContainsAny s cs = list_ex (\<lambda>c. List.member cs c) s"

text \<open>\<open>strings.Cut\<close> at the first occurrence of a one-byte separator: the text before it, the
  text after it, and whether it was found.\<close>

definition Cut :: "string \<Rightarrow> char \<Rightarrow> string \<times> string \<times> bool" where
  "Cut s c = (let start = takeWhile (\<lambda>x. x \<noteq> c) s in
     if length start < length s then (start, drop (Suc (length start)) s, True)
     else (s, [], False))"

fun Split :: "string \<Rightarrow> char \<Rightarrow> string list" where
  "Split [] c = [[]]"
| "Split (x # xs) c =
     (if x = c then [] # Split xs c
      else (case Split xs c of [] \<Rightarrow> [[x]] | y # ys \<Rightarrow> (x # y) # ys))"

fun Join :: "string list \<Rightarrow> string \<Rightarrow> string" where
  "Join [] sep = []"
| "Join [x] sep = x"
| "Join (x # y # ys) sep = x @ sep @ Join (y # ys) sep"

text \<open>Every call of \<open>strings.ReplaceAll\<close> has a non-empty pattern; the empty one is not
  modelled (it leaves the text unchanged here).\<close>

function ReplaceAll :: "string \<Rightarrow> string \<Rightarrow> string \<Rightarrow> string" where
  "ReplaceAll [] old new = []"
| "ReplaceAll (c # cs) old new =
     (if old = [] then c # cs
      else if prefix old (c # cs) then new @ ReplaceAll (drop (length old) (c # cs)) old new
      else c # ReplaceAll cs old new)"
  by pat_completeness auto
termination
  by (relation "measure (\<lambda>(s, _, _). length s)") auto

lemma CutPrefix_Some [simp]: "CutPrefix s p = Some r \<longleftrightarrow> s = p @ r"
  by (auto simp: CutPrefix_def prefix_def)

lemma CutPrefix_append [simp]: "CutPrefix (p @ r) p = Some r"
  by simp

lemma CutSuffix_Some [simp]: "CutSuffix s p = Some r \<longleftrightarrow> s = r @ p"
  by (auto simp: CutSuffix_def suffix_def)

lemma TrimPrefix_append [simp]: "TrimPrefix (p @ r) p = r"
  by (simp add: TrimPrefix_def)

lemma TrimSuffix_append [simp]: "TrimSuffix (r @ p) p = r"
  by (simp add: TrimSuffix_def suffix_def)

lemma Cut_found: "Cut s c = (a, b, True) \<longleftrightarrow> s = a @ c # b \<and> c \<notin> set a"
proof
  assume *: "Cut s c = (a, b, True)"
  let ?t = "takeWhile (\<lambda>x. x \<noteq> c) s"
  from * have len: "length ?t < length s" and a: "a = ?t" and b: "b = drop (Suc (length ?t)) s"
    by (auto simp: Cut_def Let_def split: if_splits)
  have "s ! length ?t = c" using len nth_length_takeWhile by blast
  then have "s = ?t @ c # drop (Suc (length ?t)) s"
    using len by (metis append_take_drop_id Cons_nth_drop_Suc takeWhile_eq_take)
  moreover have "c \<notin> set ?t" by (auto dest: set_takeWhileD)
  ultimately show "s = a @ c # b \<and> c \<notin> set a" using a b by simp
next
  assume *: "s = a @ c # b \<and> c \<notin> set a"
  then have "takeWhile (\<lambda>x. x \<noteq> c) s = a" by (auto simp: takeWhile_append)
  with * show "Cut s c = (a, b, True)" by (simp add: Cut_def)
qed

lemma Cut_not_found: "Cut s c = (a, b, False) \<longleftrightarrow> c \<notin> set s \<and> a = s \<and> b = []"
proof -
  have "takeWhile (\<lambda>x. x \<noteq> c) s = s \<longleftrightarrow> c \<notin> set s"
    by (metis (mono_tags, lifting) takeWhile_eq_all_conv)
  moreover have "length (takeWhile (\<lambda>x. x \<noteq> c) s) < length s \<longleftrightarrow> takeWhile (\<lambda>x. x \<noteq> c) s \<noteq> s"
    by (metis length_takeWhile_le nat_less_le takeWhile_eq_take take_all_iff)
  ultimately show ?thesis by (auto simp: Cut_def Let_def)
qed

lemma Cut_append [simp]: "c \<notin> set a \<Longrightarrow> Cut (a @ c # b) c = (a, b, True)"
  by (simp add: Cut_found)

lemma Split_nonempty [simp]: "Split s c \<noteq> []"
  by (induction s) (auto split: list.splits)

lemma Join_Split: "Join (Split s c) [c] = s"
proof (induction s)
  case Nil
  then show ?case by simp
next
  case (Cons x xs)
  obtain y ys where "Split xs c = y # ys" by (meson Split_nonempty neq_Nil_conv)
  with Cons show ?case by (cases ys) auto
qed

lemma Split_no_sep: "y \<in> set (Split s c) \<Longrightarrow> c \<notin> set y"
  by (induction s arbitrary: y) (auto split: if_splits list.splits)

lemma Split_single: "c \<notin> set s \<Longrightarrow> Split s c = [s]"
  by (induction s) auto

lemma Split_append_sep: "c \<notin> set a \<Longrightarrow> Split (a @ c # b) c = a # Split b c"
  by (induction a) auto

lemma Split_Join: "xs \<noteq> [] \<Longrightarrow> \<forall>x \<in> set xs. c \<notin> set x \<Longrightarrow> Split (Join xs [c]) c = xs"
proof (induction xs rule: induct_list012)
  case (3 x y zs)
  then show ?case by (simp add: Split_append_sep)
qed (auto simp: Split_single)

lemma Join_append:
  "xs \<noteq> [] \<Longrightarrow> ys \<noteq> [] \<Longrightarrow> Join (xs @ ys) sep = Join xs sep @ sep @ Join ys sep"
proof (induction xs rule: induct_list012)
  case (2 x)
  then show ?case by (cases ys) auto
qed auto

lemma Join_Cons: "ys \<noteq> [] \<Longrightarrow> Join (y # ys) sep = y @ sep @ Join ys sep"
  by (cases ys) auto

lemma ReplaceAll_char: "ReplaceAll s [c] new = concat (map (\<lambda>x. if x = c then new else [x]) s)"
  by (induction s) auto

lemma ReplaceAll_absent: "old \<noteq> [] \<Longrightarrow> \<not> sublist old s \<Longrightarrow> ReplaceAll s old new = s"
proof (induction s)
  case Nil
  then show ?case by simp
next
  case (Cons c cs)
  then have "\<not> prefix old (c # cs)" and "\<not> sublist old cs"
    by (auto simp: sublist_Cons_right)
  with Cons show ?case by simp
qed

section \<open>White space\<close>

definition space_runes :: "string list" where
  "space_runes =
     [[CHR 0x20], [CHR 0x09], [CHR 0x0A], [CHR 0x0B], [CHR 0x0C], [CHR 0x0D],
      [CHR 0xC2, CHR 0x85], [CHR 0xC2, CHR 0xA0], [CHR 0xE1, CHR 0x9A, CHR 0x80]] @
     map (\<lambda>c. [CHR 0xE2, CHR 0x80, c])
       [CHR 0x80, CHR 0x81, CHR 0x82, CHR 0x83, CHR 0x84, CHR 0x85, CHR 0x86, CHR 0x87,
        CHR 0x88, CHR 0x89, CHR 0x8A, CHR 0xA8, CHR 0xA9, CHR 0xAF] @
     [[CHR 0xE2, CHR 0x81, CHR 0x9F], [CHR 0xE3, CHR 0x80, CHR 0x80]]"

text \<open>Strip any number of the given runes from the left of a string.\<close>

function strip_left :: "string list \<Rightarrow> string \<Rightarrow> string" where
  "strip_left rs s =
     (case find (\<lambda>r. r \<noteq> [] \<and> prefix r s) rs of
        None \<Rightarrow> s
      | Some r \<Rightarrow> strip_left rs (drop (length r) s))"
  by pat_completeness auto
termination
proof (relation "measure (\<lambda>(_, s). length s)", goal_cases)
  case 1
  then show ?case by simp
next
  case (2 rs s r)
  then have "r \<noteq> []" and "prefix r s" by (auto simp: find_Some_iff)
  then have "0 < length r" and "length r \<le> length s" by (auto simp: prefix_length_le)
  then have "length s - length r < length s" by linarith
  then show ?case by simp
qed

declare strip_left.simps [simp del]

definition TrimSpace :: "string \<Rightarrow> string" where
  "TrimSpace s =
     rev (strip_left (map rev space_runes) (rev (strip_left space_runes s)))"

lemma strip_left_suffix: "suffix (strip_left rs s) s"
proof (induction rs s rule: strip_left.induct)
  case (1 rs s)
  show ?case
  proof (cases "find (\<lambda>r. r \<noteq> [] \<and> prefix r s) rs")
    case None
    then show ?thesis by (simp add: strip_left.simps)
  next
    case (Some r)
    then have "suffix (strip_left rs (drop (length r) s)) (drop (length r) s)" by (rule 1)
    then have "suffix (strip_left rs (drop (length r) s)) s"
      using suffix_drop suffix_order.trans by blast
    with Some show ?thesis by (subst strip_left.simps) simp
  qed
qed

lemma strip_left_clean: "r \<in> set rs \<Longrightarrow> r \<noteq> [] \<Longrightarrow> \<not> prefix r (strip_left rs s)"
proof (induction rs s rule: strip_left.induct)
  case (1 rs s)
  show ?case
  proof (cases "find (\<lambda>r. r \<noteq> [] \<and> prefix r s) rs")
    case None
    then have "strip_left rs s = s" by (subst strip_left.simps) simp
    with None 1(2,3) show ?thesis by (auto simp: find_None_iff)
  next
    case (Some q)
    then have "\<not> prefix r (strip_left rs (drop (length q) s))" using 1 by simp
    with Some show ?thesis by (subst strip_left.simps) simp
  qed
qed

lemma strip_left_id: "\<forall>r \<in> set rs. r \<noteq> [] \<longrightarrow> \<not> prefix r s \<Longrightarrow> strip_left rs s = s"
proof -
  assume "\<forall>r \<in> set rs. r \<noteq> [] \<longrightarrow> \<not> prefix r s"
  then have "find (\<lambda>r. r \<noteq> [] \<and> prefix r s) rs = None" by (auto simp: find_None_iff)
  then show ?thesis by (simp add: strip_left.simps)
qed

lemma TrimSpace_sublist: "\<exists>a b. s = a @ TrimSpace s @ b"
proof -
  let ?l = "strip_left space_runes s"
  obtain a where a: "s = a @ ?l" using strip_left_suffix by (auto simp: suffix_def)
  obtain b where b: "rev ?l = b @ strip_left (map rev space_runes) (rev ?l)"
    using strip_left_suffix by (auto simp: suffix_def)
  then have "?l = TrimSpace s @ rev b"
    unfolding TrimSpace_def by (metis rev_append rev_rev_ident)
  with a show ?thesis by metis
qed

lemma TrimSpace_no_leading: "r \<in> set space_runes \<Longrightarrow> r \<noteq> [] \<Longrightarrow> \<not> prefix r (TrimSpace s)"
proof
  assume r: "r \<in> set space_runes" "r \<noteq> []" and p: "prefix r (TrimSpace s)"
  let ?l = "strip_left space_runes s"
  have "suffix (strip_left (map rev space_runes) (rev ?l)) (rev ?l)"
    by (rule strip_left_suffix)
  then have "prefix (TrimSpace s) ?l"
    by (metis TrimSpace_def rev_rev_ident suffix_to_prefix)
  with p have "prefix r ?l" by (meson prefix_order.trans)
  with strip_left_clean [OF r] show False by blast
qed

lemma TrimSpace_idem [simp]: "TrimSpace (TrimSpace s) = TrimSpace s"
proof -
  have 1: "strip_left space_runes (TrimSpace s) = TrimSpace s"
    using TrimSpace_no_leading by (intro strip_left_id) blast
  have 2: "strip_left (map rev space_runes) (rev (TrimSpace s)) = rev (TrimSpace s)"
    unfolding TrimSpace_def by (intro strip_left_id) (auto simp: strip_left_clean)
  show ?thesis using 1 2 by (subst TrimSpace_def) simp
qed

lemma TrimSpace_Nil [simp]: "TrimSpace [] = []"
  using TrimSpace_sublist [of "[]"] by simp

text \<open>Printable ASCII other than the blank is never trimmed.\<close>

definition plain_char :: "char \<Rightarrow> bool" where
  "plain_char c \<longleftrightarrow> 33 \<le> (of_char c :: nat) \<and> (of_char c :: nat) < 127"

lemma space_runes_plain: "list_all (\<lambda>r. r \<noteq> [] \<and> list_all (\<lambda>c. \<not> plain_char c) r) space_runes"
  by code_simp

lemma TrimSpace_plain:
  assumes "list_all plain_char s"
  shows "TrimSpace s = s"
proof -
  have no: "\<not> prefix r t" if "r \<noteq> []" "\<forall>c \<in> set r. \<not> plain_char c" "\<forall>c \<in> set t. plain_char c" for r t
    using that by (cases r) (auto simp: prefix_def)
  have runes: "r \<noteq> [] \<and> (\<forall>c \<in> set r. \<not> plain_char c)" if "r \<in> set space_runes" for r
    using space_runes_plain that by (auto simp: list_all_iff)
  have plain: "\<forall>c \<in> set s. plain_char c" using assms by (simp add: list_all_iff)
  have "strip_left space_runes s = s"
    using no [OF _ _ plain] runes by (intro strip_left_id) blast
  moreover have "strip_left (map rev space_runes) (rev s) = rev s"
  proof (intro strip_left_id ballI impI)
    fix r assume "r \<in> set (map rev space_runes)"
    then obtain q where "q \<in> set space_runes" "r = rev q" by auto
    then show "\<not> prefix r (rev s)" using no [of r "rev s"] runes [of q] plain by simp
  qed
  ultimately have "strip_left space_runes s = s" "strip_left (map rev space_runes) (rev s) = rev s" by simp_all
  then show ?thesis by (simp add: TrimSpace_def)
qed

section \<open>Fields\<close>

definition starts_space :: "string \<Rightarrow> bool" where
  "starts_space s = list_ex (\<lambda>r. prefix r s) space_runes"

fun field_prefix :: "string \<Rightarrow> string" where
  "field_prefix [] = []"
| "field_prefix (c # cs) = (if starts_space (c # cs) then [] else c # field_prefix cs)"

function Fields :: "string \<Rightarrow> string list" where
  "Fields s =
     (let t = strip_left space_runes s; f = field_prefix t
      in if f = [] then [] else f # Fields (drop (length f) t))"
  by pat_completeness auto
termination
proof (relation "measure length", goal_cases)
  case 1
  then show ?case by simp
next
  case (2 s t f)
  have "length t \<le> length s"
    using 2(1) strip_left_suffix suffix_length_le by blast
  moreover have "f \<noteq> []" and "t \<noteq> []" using 2 by auto
  ultimately show ?case by (cases f; cases t) auto
qed

declare Fields.simps [simp del]

lemma Fields_nonempty: "f \<in> set (Fields s) \<Longrightarrow> f \<noteq> []"
proof (induction s rule: Fields.induct)
  case (1 s)
  then show ?case by (subst (asm) Fields.simps) (auto simp: Let_def split: if_splits)
qed

section \<open>Case\<close>

definition lower_char :: "char \<Rightarrow> char" where
  "lower_char c = (if CHR ''A'' \<le> c \<and> c \<le> CHR ''Z'' then char_of (of_char c + 32 :: nat) else c)"

definition upper_char :: "char \<Rightarrow> char" where
  "upper_char c = (if CHR ''a'' \<le> c \<and> c \<le> CHR ''z'' then char_of (of_char c - 32 :: nat) else c)"

fun ToLower :: "string \<Rightarrow> string" where
  "ToLower [] = []"
| "ToLower (c # cs) =
     (if c = CHR 0xC4 \<and> prefix [CHR 0xB0] cs then CHR ''i'' # ToLower (drop 1 cs)
      else if c = CHR 0xE2 \<and> prefix [CHR 0x84, CHR 0xAA] cs then CHR ''k'' # ToLower (drop 2 cs)
      else lower_char c # ToLower cs)"

definition ToUpper :: "string \<Rightarrow> string" where
  "ToUpper s = map upper_char s"

fun fold_case :: "string \<Rightarrow> string" where
  "fold_case [] = []"
| "fold_case (c # cs) =
     (if c = CHR 0xC5 \<and> prefix [CHR 0xBF] cs then CHR ''s'' # fold_case (drop 1 cs)
      else if c = CHR 0xE2 \<and> prefix [CHR 0x84, CHR 0xAA] cs then CHR ''k'' # fold_case (drop 2 cs)
      else lower_char c # fold_case cs)"

definition EqualFold :: "string \<Rightarrow> string \<Rightarrow> bool" where
  "EqualFold s t \<longleftrightarrow> fold_case s = fold_case t"

lemma EqualFold_refl [simp]: "EqualFold s s"
  by (simp add: EqualFold_def)

section \<open>Decimal numbers\<close>

text \<open>\<open>strconv.Itoa\<close>, \<open>strconv.Atoi\<close> (64-bit \<open>int\<close>) and \<open>strconv.ParseUint\<close> in base 10.\<close>

definition digit_char :: "nat \<Rightarrow> char" where
  "digit_char d = char_of (48 + d)"

definition is_digit :: "char \<Rightarrow> bool" where
  "is_digit c \<longleftrightarrow> 48 \<le> (of_char c :: nat) \<and> (of_char c :: nat) \<le> 57"

definition digit_val :: "char \<Rightarrow> nat" where
  "digit_val c = of_char c - 48"

fun dec_of_nat :: "nat \<Rightarrow> string" where
  "dec_of_nat n = (if n < 10 then [digit_char n] else dec_of_nat (n div 10) @ [digit_char (n mod 10)])"

declare dec_of_nat.simps [simp del]

definition nat_of_dec :: "string \<Rightarrow> nat" where
  "nat_of_dec s = foldl (\<lambda>n c. 10 * n + digit_val c) 0 s"

definition Itoa :: "int \<Rightarrow> string" where
  "Itoa i = (if i < 0 then CHR ''-'' # dec_of_nat (nat (- i)) else dec_of_nat (nat i))"

definition all_digits :: "string \<Rightarrow> bool" where
  "all_digits s \<longleftrightarrow> s \<noteq> [] \<and> list_all is_digit s"

definition Atoi :: "string \<Rightarrow> int option" where
  "Atoi s =
     (case s of
        [] \<Rightarrow> None
      | c # cs \<Rightarrow>
          (if c = CHR ''-'' then
             (if all_digits cs \<and> nat_of_dec cs \<le> 2 ^ 63 then Some (- int (nat_of_dec cs)) else None)
           else
             (let ds = (if c = CHR ''+'' then cs else s)
              in if all_digits ds \<and> nat_of_dec ds < 2 ^ 63 then Some (int (nat_of_dec ds)) else None)))"

definition ParseUint :: "string \<Rightarrow> nat \<Rightarrow> nat option" where
  "ParseUint s bits =
     (if all_digits s \<and> nat_of_dec s < 2 ^ bits then Some (nat_of_dec s) else None)"

lemma of_digit_char: "d < 10 \<Longrightarrow> of_char (digit_char d) = (48 + d :: nat)"
  by (simp add: digit_char_def)

lemma digit_val_char [simp]: "d < 10 \<Longrightarrow> digit_val (digit_char d) = d"
  by (simp add: digit_val_def of_digit_char)

lemma is_digit_char [simp]: "d < 10 \<Longrightarrow> is_digit (digit_char d)"
  by (simp add: is_digit_def of_digit_char)

lemma digit_char_val [simp]: "is_digit c \<Longrightarrow> digit_char (digit_val c) = c"
  by (simp add: digit_char_def digit_val_def is_digit_def)

lemma digit_val_less [simp]: "is_digit c \<Longrightarrow> digit_val c < 10"
  unfolding digit_val_def is_digit_def by linarith

lemma nat_of_dec_Nil [simp]: "nat_of_dec [] = 0"
  by (simp add: nat_of_dec_def)

lemma nat_of_dec_snoc [simp]: "nat_of_dec (s @ [c]) = 10 * nat_of_dec s + digit_val c"
  by (simp add: nat_of_dec_def)

lemma dec_of_nat_nonempty [simp]: "dec_of_nat n \<noteq> []"
  by (subst dec_of_nat.simps) simp

lemma dec_of_nat_digits [simp]: "list_all is_digit (dec_of_nat n)"
proof (induction n rule: dec_of_nat.induct)
  case (1 n)
  then show ?case by (subst dec_of_nat.simps) simp
qed

lemma all_digits_dec [simp]: "all_digits (dec_of_nat n)"
  by (simp add: all_digits_def)

lemma nat_of_dec_of_nat [simp]: "nat_of_dec (dec_of_nat n) = n"
proof (induction n rule: dec_of_nat.induct)
  case (1 n)
  show ?case
  proof (cases "n < 10")
    case True
    then have "dec_of_nat n = [] @ [digit_char n]" by (subst dec_of_nat.simps) simp
    with True show ?thesis by (simp only: nat_of_dec_snoc) simp
  next
    case False
    then have "dec_of_nat n = dec_of_nat (n div 10) @ [digit_char (n mod 10)]"
      by (subst dec_of_nat.simps) simp
    with 1 False show ?thesis by simp
  qed
qed

lemma dec_of_nat_inject [simp]: "dec_of_nat m = dec_of_nat n \<longleftrightarrow> m = n"
  by (metis nat_of_dec_of_nat)

lemma sign_not_digit [simp]: "\<not> is_digit (CHR ''-'')" "\<not> is_digit (CHR ''+'')" "\<not> is_digit (CHR ''_'')"
  by (simp_all add: is_digit_def)

lemma hd_dec_of_nat: "is_digit (hd (dec_of_nat n))"
  by (metis dec_of_nat_digits dec_of_nat_nonempty list.pred_set hd_in_set)

lemma Atoi_digits: "all_digits s \<Longrightarrow> Atoi s = (if nat_of_dec s < 2 ^ 63 then Some (int (nat_of_dec s)) else None)"
  by (cases s) (auto simp: Atoi_def all_digits_def Let_def)

lemma Atoi_Itoa_nat: "n < 2 ^ 63 \<Longrightarrow> Atoi (Itoa (int n)) = Some (int n)"
  by (simp add: Itoa_def Atoi_digits)

lemma Itoa_inject_nat [simp]: "Itoa (int m) = Itoa (int n) \<longleftrightarrow> m = n"
  by (simp add: Itoa_def)

lemma Itoa_no_underscore: "CHR ''_'' \<notin> set (Itoa (int n))"
proof
  assume "CHR ''_'' \<in> set (Itoa (int n))"
  then have "is_digit (CHR ''_'')"
    using dec_of_nat_digits [of n] by (auto simp: Itoa_def list_all_iff)
  then show False by simp
qed

lemma ParseUint_Some:
  "ParseUint s bits = Some n \<longleftrightarrow> all_digits s \<and> nat_of_dec s = n \<and> n < 2 ^ bits"
  by (auto simp: ParseUint_def)

lemma ParseUint_dec [simp]: "n < 2 ^ bits \<Longrightarrow> ParseUint (dec_of_nat n) bits = Some n"
  by (simp add: ParseUint_Some)

end
