(* ===== verification/Environment.thy ===== *)
theory Environment
  imports Strings
begin

text \<open>
  The process environment of an entrypoint: \<open>internal/bootstrap/environment.go\<close>.  Go's
  \<open>map[string]string\<close> is an association list with distinct keys; the order of the list
  stands for the unspecified order in which Go ranges over the map, and the results the
  code promises are shown not to depend on it.  The functions of the file that look at
  directories are in the theory \<open>Files\<close>.
\<close>

type_synonym environment = "(string \<times> string) list"

text \<open>\<open>env[name]\<close>, \<open>_, found := env[name]\<close>, \<open>env[name] = value\<close> and
  \<open>delete(env, name)\<close>.\<close>

definition env_get :: "environment \<Rightarrow> string \<Rightarrow> string" where
  "env_get env name = (case map_of env name of None \<Rightarrow> [] | Some value \<Rightarrow> value)"

definition env_has :: "environment \<Rightarrow> string \<Rightarrow> bool" where
  "env_has env name = (map_of env name \<noteq> None)"

definition env_set :: "environment \<Rightarrow> string \<Rightarrow> string \<Rightarrow> environment" where
  "env_set env name value = AList.update name value env"

definition env_delete :: "environment \<Rightarrow> string \<Rightarrow> environment" where
  "env_delete env name = AList.delete name env"

definition env_names :: "environment \<Rightarrow> string list" where
  "env_names env = map fst env"

definition wf_env :: "environment \<Rightarrow> bool" where
  "wf_env env \<longleftrightarrow> distinct (env_names env)"

section \<open>The map interface\<close>

text \<open>What every client relies on: reads after writes, and the well-formedness that writes
  keep.  The client lemmas are proved once, from these laws alone.\<close>

locale string_map =
  fixes get :: "'e \<Rightarrow> string \<Rightarrow> string"
    and has :: "'e \<Rightarrow> string \<Rightarrow> bool"
    and put :: "'e \<Rightarrow> string \<Rightarrow> string \<Rightarrow> 'e"
    and del :: "'e \<Rightarrow> string \<Rightarrow> 'e"
    and wf :: "'e \<Rightarrow> bool"
  assumes get_put: "get (put e k v) k' = (if k' = k then v else get e k')"
    and has_put: "has (put e k v) k' \<longleftrightarrow> k' = k \<or> has e k'"
    and get_del: "get (del e k) k' = (if k' = k then [] else get e k')"
    and has_del: "has (del e k) k' \<longleftrightarrow> k' \<noteq> k \<and> has e k'"
    and get_absent: "\<not> has e k \<Longrightarrow> get e k = []"
    and wf_put: "wf e \<Longrightarrow> wf (put e k v)"
    and wf_del: "wf e \<Longrightarrow> wf (del e k)"
begin

lemma get_fold_del:
  "get (fold (\<lambda>k e. del e k) ks e) k' = (if k' \<in> set ks then [] else get e k')"
  by (induction ks arbitrary: e) (auto simp: get_del)

lemma has_fold_del:
  "has (fold (\<lambda>k e. del e k) ks e) k' \<longleftrightarrow> k' \<notin> set ks \<and> has e k'"
  by (induction ks arbitrary: e) (auto simp: has_del)

lemma get_fold_del_if:
  "get (fold (\<lambda>k e. if p k then del e k else e) ks e) k' =
     (if k' \<in> set ks \<and> p k' then [] else get e k')"
  by (induction ks arbitrary: e) (auto simp: get_del)

lemma has_fold_del_if:
  "has (fold (\<lambda>k e. if p k then del e k else e) ks e) k' \<longleftrightarrow>
     \<not> (k' \<in> set ks \<and> p k') \<and> has e k'"
  by (induction ks arbitrary: e) (auto simp: has_del)

lemma wf_fold_del_if:
  "wf e \<Longrightarrow> wf (fold (\<lambda>k e. if p k then del e k else e) ks e)"
  by (induction ks arbitrary: e) (auto simp: wf_del)

lemma get_fold_put:
  "k' \<notin> set (map fst kvs) \<Longrightarrow> get (fold (\<lambda>(k, v) e. put e k v) kvs e) k' = get e k'"
  by (induction kvs arbitrary: e) (auto simp: get_put)

lemma wf_fold_put: "wf e \<Longrightarrow> wf (fold (\<lambda>(k, v) e. put e k v) kvs e)"
  by (induction kvs arbitrary: e) (auto simp: wf_put)

end

interpretation env: string_map env_get env_has env_set env_delete wf_env
proof (unfold_locales, goal_cases)
  case (1 e k v k')
  then show ?case by (simp add: env_get_def env_set_def AList.update_conv')
next
  case (2 e k v k')
  then show ?case by (simp add: env_has_def env_set_def AList.update_conv')
next
  case (3 e k k')
  then show ?case by (simp add: env_get_def env_delete_def AList.delete_conv')
next
  case (4 e k k')
  then show ?case by (simp add: env_has_def env_delete_def AList.delete_conv')
next
  case (5 e k)
  then show ?case by (simp add: env_has_def env_get_def)
next
  case (6 e k v)
  then show ?case by (simp add: wf_env_def env_names_def env_set_def AList.distinct_update)
next
  case (7 e k)
  then show ?case by (simp add: wf_env_def env_names_def env_delete_def AList.distinct_delete)
qed

named_theorems env_simps \<open>reads of the environment after writes\<close>

declare env.get_put [env_simps] env.has_put [env_simps] env.get_del [env_simps]
  env.has_del [env_simps]

declare env.wf_put [simp, intro] env.wf_del [simp, intro]

lemma env_get_found: "env_get env name \<noteq> [] \<Longrightarrow> env_has env name"
  using env.get_absent by blast

lemma env_has_iff: "env_has env name \<longleftrightarrow> name \<in> set (env_names env)"
  by (simp add: env_has_def env_names_def map_of_eq_None_iff)

lemma map_of_env: "map_of env name = (if env_has env name then Some (env_get env name) else None)"
  by (auto simp: env_has_def env_get_def split: option.splits)

text \<open>Two environments are the same map when they answer alike; with distinct keys they
  are then permutations of one another.\<close>

definition env_eq :: "environment \<Rightarrow> environment \<Rightarrow> bool" where
  "env_eq a b \<longleftrightarrow> map_of a = map_of b"

lemma env_eq_get: "env_eq a b \<Longrightarrow> env_get a = env_get b"
  by (simp add: env_eq_def env_get_def fun_eq_iff)

lemma env_eq_has: "env_eq a b \<Longrightarrow> env_has a = env_has b"
  by (simp add: env_eq_def env_has_def fun_eq_iff)

lemma env_eqI: "env_get a = env_get b \<Longrightarrow> env_has a = env_has b \<Longrightarrow> env_eq a b"
  by (simp add: env_eq_def fun_eq_iff map_of_env)

lemma env_eq_set: "env_eq a b \<Longrightarrow> wf_env a \<Longrightarrow> wf_env b \<Longrightarrow> set a = set b"
  unfolding env_eq_def wf_env_def env_names_def
  by (metis map_of_inject_set)

section \<open>The operations of the file\<close>

definition NewEnvironment :: "string list \<Rightarrow> environment" where
  "NewEnvironment values =
     fold (\<lambda>item env.
       (case Cut item (CHR ''='') of (name, value, found) \<Rightarrow>
          if found then env_set env name value else env)) values []"

definition env_List :: "environment \<Rightarrow> string list" where
  "env_List env = map (\<lambda>name. name @ ''='' @ env_get env name) (sort (env_names env))"

definition ValueOrDefault :: "environment \<Rightarrow> string \<Rightarrow> string \<Rightarrow> string" where
  "ValueOrDefault env name defaultValue =
     (if \<not> env_has env name then defaultValue else env_get env name)"

definition SetDefault :: "environment \<Rightarrow> string \<Rightarrow> string \<Rightarrow> environment" where
  "SetDefault env name defaultValue =
     (if \<not> env_has env name then env_set env name defaultValue else env)"

definition SetDefaultNonEmpty :: "environment \<Rightarrow> string \<Rightarrow> string \<Rightarrow> environment" where
  "SetDefaultNonEmpty env name defaultValue =
     (if env_get env name = [] then env_set env name defaultValue else env)"

definition ValueOrDefaultNonEmpty :: "environment \<Rightarrow> string \<Rightarrow> string \<Rightarrow> string" where
  "ValueOrDefaultNonEmpty env name defaultValue =
     (let value = env_get env name in if value \<noteq> [] then value else defaultValue)"

fun hasAnyPrefix :: "string \<Rightarrow> string list \<Rightarrow> bool" where
  "hasAnyPrefix value [] = False"
| "hasAnyPrefix value (p # ps) = (HasPrefix value p \<or> hasAnyPrefix value ps)"

text \<open>Go allows deleting the current key while ranging over a map, so the loop visits every
  name that was present at the start.\<close>

definition ClearPrivateEnv :: "environment \<Rightarrow> string list \<Rightarrow> environment" where
  "ClearPrivateEnv env given =
     (if env_get env ''ZBX_CLEAR_ENV'' = ''false'' then env
      else
        (let ps = (if given = [] then [''ZABBIX_'', ''DB_'', ''MYSQL_'', ''POSTGRES_'']
                   else given)
         in fold (\<lambda>name e. if hasAnyPrefix name ps then env_delete e name else e)
              (env_names env) env))"

section \<open>Lemmas\<close>

lemma hasAnyPrefix_iff: "hasAnyPrefix value ps \<longleftrightarrow> (\<exists>p \<in> set ps. prefix p value)"
  by (induction ps) (auto simp: HasPrefix_def)

lemma SetDefaultNonEmpty_get [env_simps]:
  "env_get (SetDefaultNonEmpty env name d) k =
     (if k = name \<and> env_get env name = [] then d else env_get env k)"
  by (auto simp: SetDefaultNonEmpty_def env_simps)

lemma SetDefaultNonEmpty_has [env_simps]:
  "env_has (SetDefaultNonEmpty env name d) k \<longleftrightarrow> k = name \<or> env_has env k"
  using env_get_found [of env name] by (auto simp: SetDefaultNonEmpty_def env_simps)

lemma wf_SetDefaultNonEmpty [simp]: "wf_env env \<Longrightarrow> wf_env (SetDefaultNonEmpty env name d)"
  by (simp add: SetDefaultNonEmpty_def)

lemma wf_SetDefault [simp]: "wf_env env \<Longrightarrow> wf_env (SetDefault env name d)"
  by (simp add: SetDefault_def)

lemma wf_ClearPrivateEnv [simp]: "wf_env env \<Longrightarrow> wf_env (ClearPrivateEnv env ps)"
  by (simp add: ClearPrivateEnv_def Let_def env.wf_fold_del_if)

lemma sort_names_env_eq:
  assumes "env_eq a b" "wf_env a" "wf_env b"
  shows "sort (env_names a) = sort (env_names b)"
proof -
  have "set (env_names a) = set (env_names b)"
    using env_eq_set [OF assms] by (simp add: env_names_def)
  then have "sorted_list_of_set (set (env_names a)) = sorted_list_of_set (set (env_names b))"
    by simp
  with assms(2,3) show ?thesis
    by (simp add: sorted_list_of_set_sort_remdups wf_env_def distinct_remdups_id)
qed

text \<open>An environment built from \<open>os.Environ\<close> has distinct names without an equals sign.\<close>

definition proper_env :: "environment \<Rightarrow> bool" where
  "proper_env env \<longleftrightarrow> wf_env env \<and> (\<forall>name \<in> set (env_names env). CHR ''='' \<notin> set name)"

lemma env_names_set: "set (env_names (env_set env k v)) = insert k (set (env_names env))"
  using env.has_put by (auto simp: env_has_iff)

lemma proper_env_set: "proper_env env \<Longrightarrow> CHR ''='' \<notin> set k \<Longrightarrow> proper_env (env_set env k v)"
  by (simp add: proper_env_def env_names_set)

lemma fold_items_proper:
  "proper_env env \<Longrightarrow> proper_env (fold (\<lambda>item env.
       (case Cut item (CHR ''='') of (name, value, found) \<Rightarrow>
          if found then env_set env name value else env)) items env)"
proof (induction items arbitrary: env)
  case Nil
  then show ?case by simp
next
  case (Cons item items)
  obtain n v f where cut: "Cut item (CHR ''='') = (n, v, f)" by (metis prod_cases3)
  show ?case
  proof (cases f)
    case True
    with cut have "CHR ''='' \<notin> set n" by (simp add: Cut_found)
    with Cons proper_env_set True cut show ?thesis by simp
  next
    case False
    with Cons cut show ?thesis by simp
  qed
qed

lemma fold_items_pairs:
  assumes "\<forall>(k, v) \<in> set kvs. CHR ''='' \<notin> set k"
  shows "fold (\<lambda>item env.
       (case Cut item (CHR ''='') of (name, value, found) \<Rightarrow>
          if found then env_set env name value else env)) (map (\<lambda>(k, v). k @ CHR ''='' # v) kvs) env
     = fold (\<lambda>(k, v) e. env_set e k v) kvs env"
  using assms by (induction kvs arbitrary: env) auto

lemma get_fold_env_set:
  "distinct (map fst kvs) \<Longrightarrow> map_of (fold (\<lambda>(k, v) e. env_set e k v) kvs env) = map_of env ++ map_of kvs"
proof (induction kvs arbitrary: env)
  case Nil
  then show ?case by simp
next
  case (Cons kv kvs)
  obtain k v where kv: "kv = (k, v)" by fastforce
  have "k \<notin> dom (map_of kvs)" using Cons.prems kv by (simp add: dom_map_of_conv_image_fst)
  then show ?case using Cons kv
    by (auto simp: env_set_def AList.update_conv' map_add_def fun_eq_iff split: option.splits)
qed

lemma map_of_fold_delete:
  "map_of (fold (\<lambda>name e. if P name then env_delete e name else e) (env_names env) env) k =
     (if P k then None else map_of env k)"
  by (simp add: map_of_env env.has_fold_del_if env.get_fold_del_if) (auto simp: env_has_iff)

section \<open>Properties\<close>

text \<open>The list handed to \<open>exec\<close> carries the environment exactly: parsing the result
  of \<open>List\<close> with \<open>NewEnvironment\<close> gives back the same variables with the same values,
  for every environment whose names contain no equals sign (as all names that
  \<open>NewEnvironment\<close> itself produces do).\<close>

theorem NewEnvironment_List_roundtrip:
  assumes "proper_env env"
  shows "env_eq (NewEnvironment (env_List env)) env"
proof -
  let ?names = "sort (env_names env)"
  let ?kvs = "map (\<lambda>n. (n, env_get env n)) ?names"
  have d: "distinct (map fst ?kvs)" and no_eq: "\<forall>(k, v) \<in> set ?kvs. CHR ''='' \<notin> set k"
    using assms by (auto simp: proper_env_def wf_env_def o_def)
  have "env_List env = map (\<lambda>(k, v). k @ CHR ''='' # v) ?kvs"
    by (simp add: env_List_def)
  then have "map_of (NewEnvironment (env_List env)) = map_of ?kvs"
    unfolding NewEnvironment_def by (simp only: fold_items_pairs [OF no_eq] get_fold_env_set [OF d]) simp
  also have "map_of ?kvs = map_of env"
    by (auto simp: fun_eq_iff map_of_map_restrict map_of_env env_has_iff restrict_map_def)
  finally show ?thesis by (simp add: env_eq_def)
qed

theorem NewEnvironment_List_roundtrip_witness:
  "env_eq (NewEnvironment (env_List [(''B'', ''x=y''), (''A'', [])])) [(''B'', ''x=y''), (''A'', [])]"
  by (rule NewEnvironment_List_roundtrip) (simp add: proper_env_def wf_env_def env_names_def)

lemma NewEnvironment_proper: "proper_env (NewEnvironment values)"
  unfolding NewEnvironment_def
  by (rule fold_items_proper) (simp add: proper_env_def wf_env_def env_names_def)

text \<open>\<open>List\<close> is deterministic although Go ranges over maps in an unspecified order: two
  environments holding the same variables give the same list, in whichever order their
  entries are visited, and the names in it are sorted.\<close>

theorem env_List_deterministic:
  assumes "env_eq a b" "wf_env a" "wf_env b"
  shows "env_List a = env_List b \<and>
    env_List a = map (\<lambda>name. name @ ''='' @ env_get a name) (sorted_list_of_set {name. env_has a name})"
proof
  show "env_List a = env_List b"
    using assms by (simp add: env_List_def sort_names_env_eq env_eq_get)
  have "sort (env_names a) = sorted_list_of_set (set (env_names a))"
    using assms(2) by (simp add: sorted_list_of_set_sort_remdups wf_env_def distinct_remdups_id)
  then show "env_List a = map (\<lambda>name. name @ ''='' @ env_get a name)
      (sorted_list_of_set {name. env_has a name})"
    by (simp add: env_List_def env_has_iff)
qed

theorem env_List_deterministic_witness:
  "env_List [(''B'', ''1''), (''A'', ''2'')] = env_List [(''A'', ''2''), (''B'', ''1'')]"
  using env_List_deterministic [of "[(''B'', ''1''), (''A'', ''2'')]" "[(''A'', ''2''), (''B'', ''1'')]"]
  by (simp add: env_eq_def wf_env_def env_names_def fun_eq_iff)

text \<open>C34: \<open>ClearPrivateEnv\<close> hides exactly the private variables from the service: unless
  \<open>ZBX_CLEAR_ENV\<close> is \<open>false\<close>, a variable survives, with its value, if and only if its name
  has none of the prefixes, which are the given ones or, when none are given, the four
  default ones.\<close>

theorem ClearPrivateEnv_removes_exactly:
  "map_of (ClearPrivateEnv env ps) name =
     (if env_get env ''ZBX_CLEAR_ENV'' \<noteq> ''false'' \<and>
         (\<exists>p \<in> set (if ps = [] then [''ZABBIX_'', ''DB_'', ''MYSQL_'', ''POSTGRES_''] else ps).
            prefix p name)
      then None else map_of env name)"
proof (cases "env_get env ''ZBX_CLEAR_ENV'' = ''false''")
  case True
  then show ?thesis by (simp add: ClearPrivateEnv_def)
next
  case False
  let ?ps = "if ps = [] then [''ZABBIX_'', ''DB_'', ''MYSQL_'', ''POSTGRES_''] else ps"
  from False have "ClearPrivateEnv env ps =
      fold (\<lambda>name e. if hasAnyPrefix name ?ps then env_delete e name else e) (env_names env) env"
    by (simp only: ClearPrivateEnv_def Let_def if_False)
  then have "map_of (ClearPrivateEnv env ps) name =
      (if hasAnyPrefix name ?ps then None else map_of env name)"
    by (simp only: map_of_fold_delete)
  with False show ?thesis by (simp only: hasAnyPrefix_iff) simp
qed

end
