(* ===== verification/Indexed.thy ===== *)
theory Indexed
  imports Environment "HOL-Library.Multiset"
begin

text \<open>
  Indexed environment variables \<open>PREFIX_0, PREFIX_1, ...\<close>:
  \<open>internal/bootstrap/indexed.go\<close>.  The loops over the environment visit the association
  list in its order; \<open>sort.Slice\<close>, which is not stable, is a stable sort here, and the
  properties show that no result depends on either choice.
\<close>

record IndexedVariable =
  Index :: int
  Name :: string
  Prefix :: string

definition IndexedName :: "string \<Rightarrow> int \<Rightarrow> string" where
  "IndexedName pre index = pre @ ''_'' @ Itoa index"

definition parseIndexedNumber :: "string \<Rightarrow> int option" where
  "parseIndexedNumber value =
     (case Atoi value of
        None \<Rightarrow> None
      | Some index \<Rightarrow> if 0 \<le> index \<and> Itoa index = value then Some index else None)"

fun indexedSuffix :: "string \<Rightarrow> string list \<Rightarrow> (string \<times> string) option" where
  "indexedSuffix name [] = None"
| "indexedSuffix name (pre # ps) =
     (case CutPrefix name (pre @ ''_'') of
        Some rest \<Rightarrow> Some (pre, rest)
      | None \<Rightarrow> indexedSuffix name ps)"

definition orderPrefixes :: "string list \<Rightarrow> string list" where
  "orderPrefixes ps = sort_key (\<lambda>p. - int (length p)) ps"

fun rejectUnindexed :: "environment \<Rightarrow> string list \<Rightarrow> unit result" where
  "rejectUnindexed env [] = Inr ()"
| "rejectUnindexed env (pre # ps) =
     (if env_has env pre
      then Inl (Errorf ''%s is not supported; use indexed variables such as %s'' [pre, IndexedName pre 0])
      else rejectUnindexed env ps)"

fun scanVariables ::
  "(string \<times> string) list \<Rightarrow> string list \<Rightarrow> bool \<Rightarrow> IndexedVariable list \<Rightarrow> IndexedVariable list result" where
  "scanVariables [] ps strict variables = Inr variables"
| "scanVariables ((name, value) # rest) ps strict variables =
     (case indexedSuffix name ps of
        None \<Rightarrow> scanVariables rest ps strict variables
      | Some (pre, sfx) \<Rightarrow>
          (case parseIndexedNumber sfx of
             None \<Rightarrow>
               (if strict then Inl (Errorf ''invalid indexed variable %s'' [name])
                else scanVariables rest ps strict variables)
           | Some index \<Rightarrow>
               (if value = [] then Inl (Errorf ''%s must not be empty'' [name])
                else scanVariables rest ps strict
                       (variables @ [\<lparr>Index = index, Name = name, Prefix = pre\<rparr>]))))"

fun checkConsecutive :: "int \<Rightarrow> IndexedVariable option \<Rightarrow> IndexedVariable list \<Rightarrow> unit result" where
  "checkConsecutive expected previous [] = Inr ()"
| "checkConsecutive expected previous (variable # rest) =
     (case previous of
        Some p \<Rightarrow>
          (if Index p = Index variable
           then Inl (Errorf ''index %d is used by both %s and %s''
                       [Itoa (Index variable), Name p, Name variable])
           else if Index variable \<noteq> expected
           then Inl (Errorf ''%s uses index %d, but index %d is missing''
                       [Name variable, Itoa (Index variable), Itoa expected])
           else checkConsecutive (expected + 1) (Some variable) rest)
      | None \<Rightarrow>
          (if Index variable \<noteq> expected
           then Inl (Errorf ''%s uses index %d, but index %d is missing''
                       [Name variable, Itoa (Index variable), Itoa expected])
           else checkConsecutive (expected + 1) (Some variable) rest))"

definition sortVariables :: "IndexedVariable list \<Rightarrow> IndexedVariable list" where
  "sortVariables = sort_key (\<lambda>v. (Index v, Name v))"

definition CollectIndexed :: "environment \<Rightarrow> string list \<Rightarrow> bool \<Rightarrow> IndexedVariable list result" where
  "CollectIndexed env ps strict =
     (let ordered = orderPrefixes ps in
      bind_res (rejectUnindexed env ordered) (\<lambda>_.
      bind_res (scanVariables env ordered strict []) (\<lambda>variables.
      (let variables = sortVariables variables in
       bind_res (checkConsecutive 0 None variables) (\<lambda>_.
       Inr variables)))))"

section \<open>Numbers and prefixes\<close>

lemma parseIndexedNumber_Some:
  "parseIndexedNumber value = Some i \<longleftrightarrow> 0 \<le> i \<and> i < 2 ^ 63 \<and> value = Itoa i"
proof
  assume *: "parseIndexedNumber value = Some i"
  then have i: "0 \<le> i" "value = Itoa i" and a: "Atoi value = Some i"
    by (auto simp: parseIndexedNumber_def split: option.splits if_splits)
  have d: "all_digits value" "nat_of_dec value = nat i"
    using i by (simp_all add: Itoa_def)
  then have "i < 2 ^ 63" using a i by (simp add: Atoi_digits split: if_splits)
  with i show "0 \<le> i \<and> i < 2 ^ 63 \<and> value = Itoa i" by simp
next
  assume *: "0 \<le> i \<and> i < 2 ^ 63 \<and> value = Itoa i"
  then have "nat i < 2 ^ 63" by (auto simp: nat_less_iff)
  then have "Atoi (Itoa (int (nat i))) = Some (int (nat i))" by (rule Atoi_Itoa_nat)
  with * show "parseIndexedNumber value = Some i" by (simp add: parseIndexedNumber_def)
qed

lemma Itoa_digits_only: "0 \<le> i \<Longrightarrow> CHR ''_'' \<notin> set (Itoa i)"
  using Itoa_no_underscore [of "nat i"] by simp

lemma indexedSuffix_Some_imp:
  "indexedSuffix name ps = Some (p, sfx) \<Longrightarrow> p \<in> set ps \<and> name = p @ ''_'' @ sfx"
  by (induction ps) (auto split: option.splits)

lemma indexedSuffix_None_iff:
  "indexedSuffix name ps = None \<longleftrightarrow> (\<forall>p \<in> set ps. \<not> prefix (p @ ''_'') name)"
proof (induction ps)
  case Nil
  then show ?case by simp
next
  case (Cons q ps)
  then show ?case by (cases "CutPrefix name (q @ ''_'')") (auto simp: CutPrefix_def split: if_splits)
qed

text \<open>Longest prefixes first: the match found is the longest one.\<close>

definition longest_first :: "string list \<Rightarrow> bool" where
  "longest_first ps \<longleftrightarrow> sorted_wrt (\<lambda>p q. length q \<le> length p) ps"

lemma longest_first_orderPrefixes: "longest_first (orderPrefixes ps)"
  and set_orderPrefixes [simp]: "set (orderPrefixes ps) = set ps"
proof -
  have "sorted (map (\<lambda>p. - int (length p)) (orderPrefixes ps))"
    unfolding orderPrefixes_def by (rule sorted_sort_key)
  then show "longest_first (orderPrefixes ps)"
    by (simp add: longest_first_def sorted_map)
  show "set (orderPrefixes ps) = set ps" by (simp add: orderPrefixes_def)
qed

lemma indexedSuffix_longest:
  assumes "longest_first ps" "indexedSuffix name ps = Some (p, sfx)"
    "q \<in> set ps" "prefix (q @ ''_'') name"
  shows "length q \<le> length p"
  using assms
proof (induction ps)
  case Nil
  then show ?case by simp
next
  case (Cons r ps)
  show ?case
  proof (cases "prefix (r @ ''_'') name")
    case True
    then have "p = r" using Cons.prems(2) by (auto simp: CutPrefix_def)
    then show ?thesis using Cons.prems(1,3) by (auto simp: longest_first_def)
  next
    case False
    then have "indexedSuffix name ps = Some (p, sfx)"
      using Cons.prems(2) by (auto simp: CutPrefix_def)
    moreover have "q \<in> set ps" using Cons.prems(3,4) False by auto
    ultimately show ?thesis using Cons by (simp add: longest_first_def)
  qed
qed

lemma same_length_prefix_eq:
  "prefix (p @ ''_'') name \<Longrightarrow> prefix (q @ ''_'') name \<Longrightarrow> length p = length q \<Longrightarrow> p = q"
  by (auto simp: prefix_def)

text \<open>The prefix found does not depend on how equally long prefixes were ordered.\<close>

lemma indexedSuffix_order_independent:
  assumes "longest_first ps" "longest_first qs" "set ps = set qs"
  shows "indexedSuffix name ps = indexedSuffix name qs"
proof (cases "indexedSuffix name ps")
  case None
  then show ?thesis using assms(3) by (metis indexedSuffix_None_iff)
next
  case (Some ps_hit)
  obtain p s where p: "indexedSuffix name ps = Some (p, s)" using Some by (metis surj_pair)
  have "indexedSuffix name qs \<noteq> None"
    using p assms(3) by (metis indexedSuffix_None_iff option.distinct(1))
  then obtain q t where q: "indexedSuffix name qs = Some (q, t)" by (metis option.exhaust surj_pair)
  note p' = indexedSuffix_Some_imp [OF p] and q' = indexedSuffix_Some_imp [OF q]
  have "length q \<le> length p"
    using indexedSuffix_longest [OF assms(1) p] q' assms(3) by (metis append_assoc prefixI)
  moreover have "length p \<le> length q"
    using indexedSuffix_longest [OF assms(2) q] p' assms(3) by (metis append_assoc prefixI)
  ultimately have "p = q"
    using same_length_prefix_eq p' q' by (metis append_assoc le_antisym prefixI)
  with p q p' q' show ?thesis by simp
qed

text \<open>A canonical index contains no underscore, so a name \<open>PREFIX_N\<close> matches its own prefix
  even when a longer prefix is requested too.\<close>

lemma indexedSuffix_IndexedName:
  assumes "longest_first ps" "p \<in> set ps" "0 \<le> i"
  shows "indexedSuffix (IndexedName p i) ps = Some (p, Itoa i)"
proof -
  let ?name = "IndexedName p i"
  have pre: "prefix (p @ ''_'') ?name" by (simp add: IndexedName_def)
  then have "indexedSuffix ?name ps \<noteq> None" using assms(2) by (metis indexedSuffix_None_iff)
  then obtain q t where q: "indexedSuffix ?name ps = Some (q, t)" by (metis option.exhaust surj_pair)
  from indexedSuffix_Some_imp [OF q] have eq: "p @ ''_'' @ Itoa i = q @ ''_'' @ t"
    by (simp add: IndexedName_def)
  have "length p \<le> length q" using indexedSuffix_longest [OF assms(1) q assms(2) pre] .
  then obtain r where r: "q = p @ r"
    using eq by (metis append_eq_append_conv_if append_take_drop_id)
  have "r = []"
  proof (rule ccontr)
    assume "r \<noteq> []"
    then obtain c r' where "r = c # r'" by (cases r) auto
    with eq r have "Itoa i = r' @ ''_'' @ t" by simp
    then have "CHR ''_'' \<in> set (Itoa i)" by simp
    with Itoa_digits_only [OF assms(3)] show False by simp
  qed
  with eq r q show ?thesis by simp
qed

section \<open>The scan over the environment\<close>

text \<open>What one environment entry contributes: nothing, a variable, or an error.\<close>

definition entryVariable :: "string list \<Rightarrow> string \<times> string \<Rightarrow> IndexedVariable list" where
  "entryVariable ps entry =
     (case indexedSuffix (fst entry) ps of
        None \<Rightarrow> []
      | Some (pre, sfx) \<Rightarrow>
          (case parseIndexedNumber sfx of
             None \<Rightarrow> []
           | Some index \<Rightarrow> [\<lparr>Index = index, Name = fst entry, Prefix = pre\<rparr>]))"

definition entryOk :: "string list \<Rightarrow> bool \<Rightarrow> string \<times> string \<Rightarrow> bool" where
  "entryOk ps strict entry \<longleftrightarrow>
     (case indexedSuffix (fst entry) ps of
        None \<Rightarrow> True
      | Some (pre, sfx) \<Rightarrow>
          (case parseIndexedNumber sfx of None \<Rightarrow> \<not> strict | Some index \<Rightarrow> snd entry \<noteq> []))"

lemma scanVariables_Inr:
  "scanVariables entries ps strict acc = Inr vs \<longleftrightarrow>
     list_all (entryOk ps strict) entries \<and> vs = acc @ concat (map (entryVariable ps) entries)"
proof (induction entries ps strict acc rule: scanVariables.induct)
  case (1 ps strict variables)
  then show ?case by auto
next
  case (2 name v rest ps strict variables)
  show ?case
  proof (cases "indexedSuffix name ps")
    case None
    with 2 show ?thesis by (simp add: entryOk_def [of ps strict "(name, v)"] entryVariable_def [of ps "(name, v)"])
  next
    case (Some hit)
    obtain pre sfx where hit: "hit = (pre, sfx)" by fastforce
    show ?thesis
    proof (cases "parseIndexedNumber sfx")
      case None
      with 2 Some hit show ?thesis by (simp add: entryOk_def [of ps strict "(name, v)"] entryVariable_def [of ps "(name, v)"])
    next
      case (Some i)
      with 2 \<open>indexedSuffix name ps = Some hit\<close> hit show ?thesis
        by (simp add: entryOk_def [of ps strict "(name, v)"] entryVariable_def [of ps "(name, v)"])
    qed
  qed
qed

lemma rejectUnindexed_Inr: "rejectUnindexed env ps = Inr u \<longleftrightarrow> (\<forall>p \<in> set ps. \<not> env_has env p)"
  by (induction ps) auto

lemma checkConsecutive_Inr:
  assumes "case previous of None \<Rightarrow> True | Some p \<Rightarrow> Index p = expected - 1"
  shows "checkConsecutive expected previous vs = Inr u \<longleftrightarrow>
    map Index vs = map (\<lambda>k. expected + int k) [0..<length vs]"
  using assms
proof (induction expected previous vs rule: checkConsecutive.induct)
  case (1 expected previous)
  then show ?case by simp
next
  case (2 expected previous variable rest)
  have shift: "map (\<lambda>k. expected + int k) [0..<length (variable # rest)] =
      expected # map (\<lambda>k. expected + 1 + int k) [0..<length rest]"
    by (simp add: upt_conv_Cons map_Suc_upt [symmetric] algebra_simps del: upt_Suc map_Suc_upt)
  show ?case
  proof (cases "Index variable = expected")
    case True
    then have "checkConsecutive expected previous (variable # rest) =
        checkConsecutive (expected + 1) (Some variable) rest"
      using 2(3) by (auto split: option.splits)
    moreover have "checkConsecutive (expected + 1) (Some variable) rest = Inr u \<longleftrightarrow>
        map Index rest = map (\<lambda>k. expected + 1 + int k) [0..<length rest]"
      using 2(1,2,3) True by (cases previous) auto
    ultimately show ?thesis using True shift by simp
  next
    case False
    then show ?thesis using shift by (auto split: option.splits)
  qed
qed

lemma CollectIndexed_Inr:
  "CollectIndexed env ps strict = Inr vs \<longleftrightarrow>
     (\<forall>p \<in> set ps. \<not> env_has env p) \<and>
     list_all (entryOk (orderPrefixes ps) strict) env \<and>
     vs = sortVariables (concat (map (entryVariable (orderPrefixes ps)) env)) \<and>
     map Index vs = map int [0..<length vs]"
  unfolding CollectIndexed_def Let_def bind_res_Inr
  by (auto simp: rejectUnindexed_Inr scanVariables_Inr checkConsecutive_Inr)

lemma entryVariable_iff:
  assumes "longest_first ps"
  shows "v \<in> set (entryVariable ps (name, val)) \<longleftrightarrow>
    Name v = name \<and> Prefix v \<in> set ps \<and> 0 \<le> Index v \<and> Index v < 2 ^ 63 \<and>
    name = IndexedName (Prefix v) (Index v) \<and> v = \<lparr>Index = Index v, Name = name, Prefix = Prefix v\<rparr>"
proof
  assume mem: "v \<in> set (entryVariable ps (name, val))"
  then obtain p sfx where h1: "indexedSuffix name ps = Some (p, sfx)"
    by (cases "indexedSuffix name ps") (auto simp: entryVariable_def)
  with mem obtain i where h: "indexedSuffix name ps = Some (p, sfx)"
    "parseIndexedNumber sfx = Some i" "v = \<lparr>Index = i, Name = name, Prefix = p\<rparr>"
    by (cases "parseIndexedNumber sfx") (auto simp: entryVariable_def)
  with indexedSuffix_Some_imp [OF h(1)] show "Name v = name \<and> Prefix v \<in> set ps \<and> 0 \<le> Index v \<and>
    Index v < 2 ^ 63 \<and> name = IndexedName (Prefix v) (Index v) \<and>
    v = \<lparr>Index = Index v, Name = name, Prefix = Prefix v\<rparr>"
    by (simp add: parseIndexedNumber_Some IndexedName_def)
next
  assume *: "Name v = name \<and> Prefix v \<in> set ps \<and> 0 \<le> Index v \<and> Index v < 2 ^ 63 \<and>
    name = IndexedName (Prefix v) (Index v) \<and> v = \<lparr>Index = Index v, Name = name, Prefix = Prefix v\<rparr>"
  then have "indexedSuffix name ps = Some (Prefix v, Itoa (Index v))"
    using indexedSuffix_IndexedName [OF assms] by simp
  moreover have "parseIndexedNumber (Itoa (Index v)) = Some (Index v)"
    using * by (simp add: parseIndexedNumber_Some)
  ultimately show "v \<in> set (entryVariable ps (name, val))"
    using * by (simp add: entryVariable_def)
qed

lemma set_sortVariables [simp]: "set (sortVariables vs) = set vs"
  by (simp add: sortVariables_def)

text \<open>The returned variables are exactly the indexed names of the environment.\<close>

lemma CollectIndexed_set:
  assumes "CollectIndexed env ps strict = Inr vs"
  shows "v \<in> set vs \<longleftrightarrow>
    env_has env (Name v) \<and> Prefix v \<in> set ps \<and> 0 \<le> Index v \<and> Index v < 2 ^ 63 \<and>
    Name v = IndexedName (Prefix v) (Index v)"
proof -
  have "v \<in> set vs \<longleftrightarrow> (\<exists>e \<in> set env. v \<in> set (entryVariable (orderPrefixes ps) e))"
    using assms by (auto simp: CollectIndexed_Inr)
  also have "\<dots> \<longleftrightarrow> env_has env (Name v) \<and> Prefix v \<in> set ps \<and> 0 \<le> Index v \<and> Index v < 2 ^ 63 \<and>
    Name v = IndexedName (Prefix v) (Index v)"
  proof
    assume "\<exists>e \<in> set env. v \<in> set (entryVariable (orderPrefixes ps) e)"
    then obtain n w where e: "(n, w) \<in> set env" and v: "v \<in> set (entryVariable (orderPrefixes ps) (n, w))"
      by auto
    from e have "n \<in> set (env_names env)" by (force simp: env_names_def)
    with v show "env_has env (Name v) \<and> Prefix v \<in> set ps \<and> 0 \<le> Index v \<and> Index v < 2 ^ 63 \<and>
      Name v = IndexedName (Prefix v) (Index v)"
      unfolding entryVariable_iff [OF longest_first_orderPrefixes] by (simp add: env_has_iff)
  next
    assume *: "env_has env (Name v) \<and> Prefix v \<in> set ps \<and> 0 \<le> Index v \<and> Index v < 2 ^ 63 \<and>
      Name v = IndexedName (Prefix v) (Index v)"
    then obtain w where "(Name v, w) \<in> set env"
      by (auto simp: env_has_def dest: map_of_SomeD)
    moreover have "v \<in> set (entryVariable (orderPrefixes ps) (Name v, w))"
      using * unfolding entryVariable_iff [OF longest_first_orderPrefixes] by simp
    ultimately show "\<exists>e \<in> set env. v \<in> set (entryVariable (orderPrefixes ps) e)" by blast
  qed
  finally show ?thesis .
qed

lemma CollectIndexed_nonempty:
  assumes "CollectIndexed env ps strict = Inr vs" "v \<in> set vs" "wf_env env"
  shows "env_get env (Name v) \<noteq> []"
proof -
  from CollectIndexed_set [OF assms(1)] assms(2)
  have v: "env_has env (Name v)" "Prefix v \<in> set ps" "0 \<le> Index v" "Index v < 2 ^ 63"
    "Name v = IndexedName (Prefix v) (Index v)" by auto
  then have "(Name v, env_get env (Name v)) \<in> set env"
    by (metis map_of_SomeD map_of_env)
  then have "entryOk (orderPrefixes ps) strict (Name v, env_get env (Name v))"
    using assms(1) by (auto simp: CollectIndexed_Inr list_all_iff)
  moreover have "indexedSuffix (Name v) (orderPrefixes ps) = Some (Prefix v, Itoa (Index v))"
    using indexedSuffix_IndexedName [OF longest_first_orderPrefixes, of "Prefix v" ps "Index v"] v by simp
  moreover have "parseIndexedNumber (Itoa (Index v)) = Some (Index v)"
    using v by (simp add: parseIndexedNumber_Some)
  ultimately show ?thesis by (simp add: entryOk_def)
qed

section \<open>Properties\<close>

text \<open>C28: A successful \<open>CollectIndexed\<close> returns, in order, one variable for each of the indices
  \<open>0, 1, ..., n-1\<close>: the k-th one has index k, its name is one of the requested prefixes with
  that index, and its value in the environment is not empty.\<close>

theorem CollectIndexed_consecutive:
  assumes "CollectIndexed env ps strict = Inr vs" "wf_env env" "k < length vs"
  shows "Index (vs ! k) = int k \<and> Prefix (vs ! k) \<in> set ps \<and>
    Name (vs ! k) = IndexedName (Prefix (vs ! k)) (int k) \<and> env_get env (Name (vs ! k)) \<noteq> []"
proof -
  have "map Index vs = map int [0..<length vs]" using assms(1) unfolding CollectIndexed_Inr by blast
  then have i: "Index (vs ! k) = int k" using assms(3) by (metis add_0 length_map nth_map nth_upt)
  have v: "vs ! k \<in> set vs" using assms(3) by simp
  with CollectIndexed_set [OF assms(1)] CollectIndexed_nonempty [OF assms(1) v assms(2)] i
  show ?thesis by auto
qed

theorem CollectIndexed_consecutive_witness:
  "CollectIndexed [(''A_1'', ''y''), (''HOME'', ''h''), (''B_0'', ''x'')] [''A'', ''B''] True =
     Inr [\<lparr>Index = 0, Name = ''B_0'', Prefix = ''B''\<rparr>, \<lparr>Index = 1, Name = ''A_1'', Prefix = ''A''\<rparr>] \<and>
   Name ([\<lparr>Index = 0, Name = ''B_0'', Prefix = ''B''\<rparr>, \<lparr>Index = 1, Name = ''A_1'', Prefix = ''A''\<rparr>] ! 1)
     = IndexedName ''A'' 1"
proof -
  have run: "CollectIndexed [(''A_1'', ''y''), (''HOME'', ''h''), (''B_0'', ''x'')] [''A'', ''B''] True =
     Inr [\<lparr>Index = 0, Name = ''B_0'', Prefix = ''B''\<rparr>, \<lparr>Index = 1, Name = ''A_1'', Prefix = ''A''\<rparr>]"
    by code_simp
  show ?thesis using run CollectIndexed_consecutive [OF run, of 1]
    by (simp add: wf_env_def env_names_def)
qed

text \<open>\<open>CollectIndexed\<close> misses nothing and invents nothing: when it succeeds, the names it
  returns are exactly the names \<open>PREFIX_N\<close> (N a canonical decimal below 2 to the 63) present
  in the environment, also when one requested prefix extends another.\<close>

theorem CollectIndexed_complete:
  assumes "CollectIndexed env ps strict = Inr vs"
  shows "Name ` set vs = {IndexedName p i | p i. p \<in> set ps \<and> 0 \<le> i \<and> i < 2 ^ 63 \<and> env_has env (IndexedName p i)}"
    (is "?L = ?R")
proof
  show "?L \<subseteq> ?R"
  proof
    fix n
    assume "n \<in> ?L"
    then obtain v where "v \<in> set vs" "n = Name v" by blast
    then show "n \<in> ?R" using CollectIndexed_set [OF assms, of v] by auto
  qed
  show "?R \<subseteq> ?L"
  proof
    fix n
    assume "n \<in> ?R"
    then obtain p i where "n = IndexedName p i" "p \<in> set ps" "0 \<le> i" "i < 2 ^ 63" "env_has env n"
      by auto
    then have "\<lparr>Index = i, Name = n, Prefix = p\<rparr> \<in> set vs"
      using CollectIndexed_set [OF assms] by simp
    then show "n \<in> ?L" by force
  qed
qed

theorem CollectIndexed_complete_witness:
  "IndexedName ''ZBX_ALLOWKEY_REGEXP'' 0 \<in>
     Name ` set [\<lparr>Index = 0, Name = ''ZBX_ALLOWKEY_REGEXP_0'', Prefix = ''ZBX_ALLOWKEY_REGEXP''\<rparr>]"
proof -
  let ?env = "[(''ZBX_ALLOWKEY_REGEXP_0'', ''.*'')]"
  have run: "CollectIndexed ?env [''ZBX_ALLOWKEY'', ''ZBX_ALLOWKEY_REGEXP''] True =
     Inr [\<lparr>Index = 0, Name = ''ZBX_ALLOWKEY_REGEXP_0'', Prefix = ''ZBX_ALLOWKEY_REGEXP''\<rparr>]"
    by code_simp
  have "IndexedName ''ZBX_ALLOWKEY_REGEXP'' 0 = ''ZBX_ALLOWKEY_REGEXP_0''" by code_simp
  then have "env_has ?env (IndexedName ''ZBX_ALLOWKEY_REGEXP'' 0)" by (simp add: env_has_def)
  then show ?thesis unfolding CollectIndexed_complete [OF run] by force
qed

lemma mset_concat_map_eq: "mset xs = mset ys \<Longrightarrow> mset (concat (map f xs)) = mset (concat (map f ys))"
proof -
  have "mset (concat (map f zs)) = \<Sum>\<^sub># (image_mset (\<lambda>x. mset (f x)) (mset zs))" for zs
    by (induction zs) auto
  then show "mset xs = mset ys \<Longrightarrow> ?thesis" by simp
qed

lemma entryVariable_inj:
  assumes "longest_first ps"
  shows "inj_on (\<lambda>v. (Index v, Name v)) (set (concat (map (entryVariable ps) env)))"
proof (rule inj_onI)
  fix v w
  assume v: "v \<in> set (concat (map (entryVariable ps) env))"
    and w: "w \<in> set (concat (map (entryVariable ps) env))"
    and eq: "(Index v, Name v) = (Index w, Name w)"
  from v obtain n a where v': "v \<in> set (entryVariable ps (n, a))" by auto
  from w obtain m b where w': "w \<in> set (entryVariable ps (m, b))" by auto
  have "Name v = n" "Name w = m" using v' w' entryVariable_iff [OF assms] by blast+
  then have "n = m" using eq by simp
  then have "w \<in> set (entryVariable ps (n, a))" using w' by (simp add: entryVariable_def)
  moreover have "length (entryVariable ps (n, a)) \<le> 1"
    by (simp add: entryVariable_def split: option.split prod.split)
  ultimately show "v = w" using v' by (cases "entryVariable ps (n, a)") auto
qed

text \<open>The result does not depend on the order in which Go ranges over the environment or
  over the set of prefixes, nor on how the unstable \<open>sort.Slice\<close> arranges equally long
  prefixes: environments with the same variables and prefix lists with the same elements
  succeed together and with the same list.\<close>

theorem CollectIndexed_deterministic:
  assumes "env_eq a b" "wf_env a" "wf_env b" "set ps = set qs"
  shows "CollectIndexed a ps strict = Inr vs \<longleftrightarrow> CollectIndexed b qs strict = Inr vs"
proof -
  let ?ps = "orderPrefixes ps" and ?qs = "orderPrefixes qs"
  have sfx: "indexedSuffix name ?ps = indexedSuffix name ?qs" for name
    using assms(4) by (intro indexedSuffix_order_independent longest_first_orderPrefixes) simp
  have ev: "entryVariable ?ps = entryVariable ?qs" and ok: "entryOk ?ps = entryOk ?qs"
    by (simp_all add: fun_eq_iff entryVariable_def entryOk_def sfx)
  have "distinct a" "distinct b" using assms(2,3) by (auto simp: wf_env_def env_names_def distinct_map)
  then have m: "mset a = mset b"
    using env_eq_set [OF assms(1-3)] by (simp add: set_eq_iff_mset_eq_distinct)
  have "sortVariables (concat (map (entryVariable ?qs) a)) = sortVariables (concat (map (entryVariable ?qs) b))"
    unfolding sortVariables_def
  proof (rule sort_key_inj_key_eq)
    show "mset (concat (map (entryVariable ?qs) a)) =
        mset (sort_key (\<lambda>v. (Index v, Name v)) (concat (map (entryVariable ?qs) b)))"
      using mset_concat_map_eq [OF m] by simp
    show "inj_on (\<lambda>v. (Index v, Name v)) (set (concat (map (entryVariable ?qs) a)))"
      by (rule entryVariable_inj [OF longest_first_orderPrefixes])
    show "sorted (map (\<lambda>v. (Index v, Name v))
        (sort_key (\<lambda>v. (Index v, Name v)) (concat (map (entryVariable ?qs) b))))"
      by (rule sorted_sort_key)
  qed
  then show ?thesis
    unfolding CollectIndexed_Inr ev ok env_eq_has [OF assms(1)] assms(4)
    using env_eq_set [OF assms(1-3)] by (simp add: list_all_iff)
qed

theorem CollectIndexed_deterministic_witness:
  "CollectIndexed [(''A_1'', ''y''), (''B_0'', ''x'')] [''A'', ''B''] True =
     Inr [\<lparr>Index = 0, Name = ''B_0'', Prefix = ''B''\<rparr>, \<lparr>Index = 1, Name = ''A_1'', Prefix = ''A''\<rparr>]"
proof -
  have run: "CollectIndexed [(''B_0'', ''x''), (''A_1'', ''y'')] [''B'', ''A''] True =
     Inr [\<lparr>Index = 0, Name = ''B_0'', Prefix = ''B''\<rparr>, \<lparr>Index = 1, Name = ''A_1'', Prefix = ''A''\<rparr>]"
    by code_simp
  have "env_eq [(''B_0'', ''x''), (''A_1'', ''y'')] [(''A_1'', ''y''), (''B_0'', ''x'')]"
    by (auto simp: env_eq_def fun_eq_iff)
  then show ?thesis
    by (rule CollectIndexed_deterministic [THEN iffD1, OF _ _ _ _ run])
      (auto simp: wf_env_def env_names_def)
qed

text \<open>A configuration with a hole, with an index used twice, with an empty indexed value
  or with the bare unindexed variable is refused: \<open>CollectIndexed\<close> then returns an error,
  strict or not.\<close>

theorem CollectIndexed_rejects:
  assumes "wf_env env" "p \<in> set ps" "0 \<le> i" "i < 2 ^ 63"
    and bad: "env_has env p \<or>
      env_has env (IndexedName p i) \<and>
       (env_get env (IndexedName p i) = [] \<or>
        (\<exists>q \<in> set ps. q \<noteq> p \<and> env_has env (IndexedName q i)) \<or>
        (\<exists>j. 0 \<le> j \<and> j < i \<and> (\<forall>q \<in> set ps. \<not> env_has env (IndexedName q j))))"
  shows "\<exists>e. CollectIndexed env ps strict = Inl e"
proof (rule ccontr)
  assume "\<nexists>e. CollectIndexed env ps strict = Inl e"
  then obtain vs where run: "CollectIndexed env ps strict = Inr vs"
    by (cases "CollectIndexed env ps strict") auto
  have "\<not> env_has env p" using run assms(2) by (simp add: CollectIndexed_Inr)
  with bad have has: "env_has env (IndexedName p i)" by blast
  let ?v = "\<lambda>q k. \<lparr>Index = k, Name = IndexedName q k, Prefix = q\<rparr>"
  have mem: "?v q i \<in> set vs" if "q \<in> set ps" "env_has env (IndexedName q i)" for q
    using that assms(3,4) CollectIndexed_set [OF run] by simp
  have v: "?v p i \<in> set vs" using mem assms(2) has by simp
  have at: "vs ! nat (Index w) = w \<and> nat (Index w) < length vs" if "w \<in> set vs" for w
  proof -
    obtain k where k: "k < length vs" "vs ! k = w" using \<open>w \<in> set vs\<close> by (auto simp: in_set_conv_nth)
    with CollectIndexed_consecutive [OF run assms(1) k(1)] show ?thesis by auto
  qed
  have len: "nat i < length vs" using at [OF v] by simp
  consider (empty) "env_get env (IndexedName p i) = []"
    | (twice) q where "q \<in> set ps" "q \<noteq> p" "env_has env (IndexedName q i)"
    | (hole) j where "0 \<le> j" "j < i" "\<forall>q \<in> set ps. \<not> env_has env (IndexedName q j)"
    using bad \<open>\<not> env_has env p\<close> by blast
  then show False
  proof cases
    case empty
    with CollectIndexed_nonempty [OF run v assms(1)] show False by simp
  next
    case twice
    then have "?v q i \<in> set vs" using mem by blast
    with at [OF v] at [OF this] twice(2) show False by simp
  next
    case hole
    then have k: "nat j < length vs" using len by linarith
    with CollectIndexed_set [OF run, of "vs ! nat j"] CollectIndexed_consecutive [OF run assms(1) k] hole
    show False by auto
  qed
qed

theorem CollectIndexed_rejects_witness:
  "\<exists>e. CollectIndexed [(''A_1'', ''y'')] [''A''] False = Inl e"
proof -
  have n: "IndexedName ''A'' 1 = ''A_1''" "IndexedName ''A'' 0 = ''A_0''" by code_simp+
  show ?thesis
  proof (rule CollectIndexed_rejects [where p = "''A''" and i = 1])
    show "env_has [(''A_1'', ''y'')] ''A'' \<or>
      env_has [(''A_1'', ''y'')] (IndexedName ''A'' 1) \<and>
       (env_get [(''A_1'', ''y'')] (IndexedName ''A'' 1) = [] \<or>
        (\<exists>q \<in> set [''A'']. q \<noteq> ''A'' \<and> env_has [(''A_1'', ''y'')] (IndexedName q 1)) \<or>
        (\<exists>j. 0 \<le> j \<and> j < 1 \<and> (\<forall>q \<in> set [''A'']. \<not> env_has [(''A_1'', ''y'')] (IndexedName q j))))"
      unfolding n by (rule disjI2, rule conjI) (auto simp: env_has_def n intro!: exI [of _ 0])
  qed (simp_all add: wf_env_def env_names_def)
qed

end
