(* ===== verification/Retry.thy ===== *)
theory Retry
  imports Prelude
begin

text \<open>
  \<open>internal/bootstrap/retry.go\<close>: repeating a failing attempt.  The attempt, the
  \<open>OnRetry\<close> callback, the wait and the cancellation state of the context are functions of
  an arbitrary state.  With \<open>Attempts = 0\<close> the loop may never end, so its value is an
  option: \<open>None\<close> is a run that does not return.
\<close>

record 's RetryOptions =
  Attempts :: int
  Interval :: int
  OnRetry :: "(error option \<Rightarrow> 's \<Rightarrow> 's) option"
  WaitFor :: "(int \<Rightarrow> ('s, unit) eff) option"

text \<open>\<open>errors.As\<close> with a \<open>stopError\<close> target: the error inside the outermost marked one.\<close>

fun stop_in :: "error list \<Rightarrow> error option" where
  "stop_in [] = None"
| "stop_in (e # es) = (case e of StopError inner \<Rightarrow> Some inner | _ \<Rightarrow> stop_in es)"

definition Stop :: "error \<Rightarrow> error" where
  "Stop err = StopError err"

text \<open>The default wait; \<open>timer\<close> is the outcome of the \<open>select\<close> between the context and
  the timer.\<close>

definition bootstrap_Wait ::
  "('s \<Rightarrow> error option) \<Rightarrow> (int \<Rightarrow> ('s, unit) eff) \<Rightarrow> int \<Rightarrow> ('s, unit) eff" where
  "bootstrap_Wait ctxErr timer interval s =
     (if interval \<le> 0
      then (case ctxErr s of None \<Rightarrow> (Inr (), s) | Some e \<Rightarrow> (Inl e, s))
      else timer interval s)"

partial_function (option) retryLoop ::
  "'s RetryOptions \<Rightarrow> (int \<Rightarrow> ('s, unit) eff) \<Rightarrow> ('s \<Rightarrow> error option) \<Rightarrow> ('s, unit) eff \<Rightarrow>
   int \<Rightarrow> error option \<Rightarrow> 's \<Rightarrow> (error option \<times> 's) option" where
  "retryLoop options wait ctxErr attempt call lastErr s =
     (if Attempts options = 0 \<or> call < Attempts options then
        (case (if 0 < call
               then wait (Interval options)
                      (case OnRetry options of None \<Rightarrow> s | Some onRetry \<Rightarrow> onRetry lastErr s)
               else (Inr (), s)) of
           (Inl err, s1) \<Rightarrow> Some (Some err, s1)
         | (Inr _, s1) \<Rightarrow>
             (case attempt s1 of
                (Inr _, s2) \<Rightarrow> Some (None, s2)
              | (Inl err, s2) \<Rightarrow>
                  (case stop_in (error_chain err) of
                     Some stop \<Rightarrow> Some (Some stop, s2)
                   | None \<Rightarrow>
                       (case ctxErr s2 of
                          Some e \<Rightarrow> Some (Some e, s2)
                        | None \<Rightarrow> retryLoop options wait ctxErr attempt (call + 1) (Some err) s2))))
      else Some (lastErr, s))"

declare retryLoop.simps [code]

definition Retry ::
  "('s \<Rightarrow> error option) \<Rightarrow> (int \<Rightarrow> ('s, unit) eff) \<Rightarrow> 's RetryOptions \<Rightarrow> ('s, unit) eff \<Rightarrow>
   's \<Rightarrow> (error option \<times> 's) option" where
  "Retry ctxErr timer options attempt s =
     retryLoop options
       (case WaitFor options of None \<Rightarrow> bootstrap_Wait ctxErr timer | Some wait \<Rightarrow> wait)
       ctxErr attempt 0 None s"

section \<open>Lemmas\<close>

text \<open>A bounded loop returns, and it calls the attempt at most as often as it has calls
  left: \<open>count\<close> is any counter of the state that the attempt advances by at most one and
  that waiting and the callback leave alone.\<close>

lemma retryLoop_bounded:
  assumes "Attempts options > 0" "call \<ge> 0" "n = nat (Attempts options - call)"
    and att: "\<And>t r t'. attempt t = (r, t') \<Longrightarrow> count t' \<le> count t + 1"
    and cb: "\<And>f e t. OnRetry options = Some f \<Longrightarrow> count (f e t) \<le> (count t :: nat)"
    and wt: "\<And>t r t'. wait (Interval options) t = (r, t') \<Longrightarrow> count t' \<le> count t"
  shows "\<exists>r s'. retryLoop options wait ctxErr attempt call lastErr s = Some (r, s') \<and>
    count s' \<le> count s + n"
  using assms(1-3)
proof (induction n arbitrary: call lastErr s)
  case 0
  then show ?case by (subst retryLoop.simps) auto
next
  case (Suc n)
  let ?s0 = "case OnRetry options of None \<Rightarrow> s | Some onRetry \<Rightarrow> onRetry lastErr s"
  obtain w s1 where w: "(if 0 < call then wait (Interval options) ?s0 else (Inr (), s)) = (w, s1)"
    by fastforce
  have s0: "count ?s0 \<le> count s" using cb by (simp split: option.split)
  have s1: "count s1 \<le> count s"
  proof (cases "0 < call")
    case True
    with w have "wait (Interval options) ?s0 = (w, s1)" by simp
    then have "count s1 \<le> count ?s0" by (rule wt)
    with s0 show ?thesis by simp
  next
    case False
    with w show ?thesis by simp
  qed
  have guard: "Attempts options = 0 \<or> call < Attempts options" using Suc.prems by simp
  show ?case
  proof (cases w)
    case (Inl err)
    with w s1 guard show ?thesis by (subst retryLoop.simps) auto
  next
    case (Inr u)
    obtain r s2 where a: "attempt s1 = (r, s2)" by fastforce
    then have s2: "count s2 \<le> count s + 1" using att [OF a] s1 by simp
    show ?thesis
    proof (cases r)
      case (Inr v)
      with w a guard \<open>w = Inr u\<close> s2 show ?thesis by (subst retryLoop.simps) auto
    next
      case (Inl err)
      have n: "n = nat (Attempts options - (call + 1))" "call + 1 \<ge> 0" using Suc.prems by auto
      obtain r' s3 where rec: "retryLoop options wait ctxErr attempt (call + 1) (Some err) s2 = Some (r', s3)"
        "count s3 \<le> count s2 + n"
        using Suc.IH [OF Suc.prems(1) n(2) n(1)] by blast
      with w a guard \<open>w = Inr u\<close> Inl s2 show ?thesis
        by (subst retryLoop.simps) (auto split: option.split)
    qed
  qed
qed

text \<open>The failures that let the loop go on.\<close>

definition repeatable :: "unit result \<Rightarrow> bool" where
  "repeatable r \<longleftrightarrow> (\<exists>e. r = Inl e \<and> stop_in (error_chain e) = None)"

definition failure :: "unit result \<Rightarrow> error option" where
  "failure r = (case r of Inl e \<Rightarrow> Some (case stop_in (error_chain e) of None \<Rightarrow> e | Some s \<Rightarrow> s) | Inr _ \<Rightarrow> None)"

text \<open>A scripted run: attempt number \<open>n\<close> has the outcome \<open>f n\<close>; the state is the number of
  attempts made and the errors the callback was given.\<close>

definition scripted :: "(nat \<Rightarrow> unit result) \<Rightarrow> (nat \<times> error option list, unit) eff" where
  "scripted f s = (f (fst s), (Suc (fst s), snd s))"

definition logging :: "int \<Rightarrow> (nat \<times> error option list) RetryOptions" where
  "logging attempts = \<lparr>Attempts = attempts, Interval = 5, OnRetry = Some (\<lambda>e (n, l). (n, l @ [e])),
     WaitFor = Some (\<lambda>_ s. (Inr (), s))\<rparr>"

lemma script_step:
  "retryLoop (logging n) (\<lambda>_ s. (Inr (), s)) (\<lambda>_. None) (scripted f) (int i) lastErr (i, l) =
    (if n = 0 \<or> int i < n then
       (if repeatable (f i)
        then retryLoop (logging n) (\<lambda>_ s. (Inr (), s)) (\<lambda>_. None) (scripted f) (int (Suc i))
          (failure (f i)) (Suc i, l @ (if 0 < i then [lastErr] else []))
        else Some (failure (f i), (Suc i, l @ (if 0 < i then [lastErr] else []))))
     else Some (lastErr, (i, l)))"
proof (cases "f i")
  case (Inr u)
  then show ?thesis
    by (cases i) (subst retryLoop.simps, simp add: logging_def scripted_def failure_def repeatable_def)+
next
  case (Inl e)
  then show ?thesis
    by (cases i; cases "stop_in (error_chain e)")
      (subst retryLoop.simps,
        simp add: logging_def scripted_def failure_def repeatable_def add.commute)+
qed

lemma retryLoop_script:
  assumes "\<forall>j < k. repeatable (f j)" "i \<le> k"
    and "n = 0 \<or> int k < n"
    and "\<not> repeatable (f k) \<or> n = int k + 1"
    and "0 < i \<Longrightarrow> lastErr = failure (f (i - 1))"
  shows "retryLoop (logging n) (\<lambda>_ s. (Inr (), s)) (\<lambda>_. None) (scripted f) (int i) lastErr (i, l) =
    Some (failure (f k), (Suc k, l @ map (\<lambda>j. failure (f j)) [i - 1..<k]))"
  using assms(2,5)
proof (induction "k - i" arbitrary: i lastErr l)
  case 0
  then have i: "i = k" by simp
  have l: "l @ map (\<lambda>j. failure (f j)) [k - 1..<k] = l @ (if 0 < k then [failure (f (k - 1))] else [])"
    by (cases k) auto
  show ?case
  proof (cases "repeatable (f k)")
    case False
    with i l 0 assms(3) show ?thesis by (subst script_step) auto
  next
    case True
    then have n: "n = int k + 1" using assms(4) by simp
    have "retryLoop (logging n) (\<lambda>_ s. (Inr (), s)) (\<lambda>_. None) (scripted f) (int (Suc k)) e (Suc k, m) =
        Some (e, (Suc k, m))" for e m
      using n by (subst script_step) simp
    with i l 0 True assms(3) show ?thesis by (subst script_step) auto
  qed
next
  case (Suc d)
  then have i: "i < k" by simp
  then have rep: "repeatable (f i)" using assms(1) by simp
  have guard: "n = 0 \<or> int i < n" using assms(3) i by auto
  let ?l = "l @ (if 0 < i then [lastErr] else [])"
  have step: "retryLoop (logging n) (\<lambda>_ s. (Inr (), s)) (\<lambda>_. None) (scripted f) (int i) lastErr (i, l) =
      retryLoop (logging n) (\<lambda>_ s. (Inr (), s)) (\<lambda>_. None) (scripted f) (int (Suc i)) (failure (f i)) (Suc i, ?l)"
    using guard rep by (subst script_step) simp
  have "retryLoop (logging n) (\<lambda>_ s. (Inr (), s)) (\<lambda>_. None) (scripted f) (int (Suc i)) (failure (f i)) (Suc i, ?l) =
      Some (failure (f k), (Suc k, ?l @ map (\<lambda>j. failure (f j)) [Suc i - 1..<k]))"
    by (rule Suc.hyps(1)) (use Suc.hyps(2) i in auto)
  moreover have "?l @ map (\<lambda>j. failure (f j)) [Suc i - 1..<k] = l @ map (\<lambda>j. failure (f j)) [i - 1..<k]"
  proof (cases i)
    case 0
    then show ?thesis by simp
  next
    case (Suc m)
    then have "[i - 1..<k] = m # [i..<k]" using i by (simp add: upt_conv_Cons)
    with Suc Suc.prems(2) show ?thesis by simp
  qed
  ultimately show ?case using step by simp
qed

section \<open>Properties\<close>

text \<open>C29: With a positive number of attempts \<open>Retry\<close> always returns, and it has called the
  attempt at most that many times, whatever the attempt, the callback, the wait and the
  cancellation do (\<open>count\<close> is any counter in the state that only the attempt advances, by
  at most one per call).\<close>

theorem Retry_bounded:
  assumes "Attempts options > 0"
    and "\<And>t r t'. attempt t = (r, t') \<Longrightarrow> count t' \<le> count t + 1"
    and "\<And>f e t. OnRetry options = Some f \<Longrightarrow> count (f e t) \<le> (count t :: nat)"
    and "\<And>i t r t'. timer i t = (r, t') \<Longrightarrow> count t' \<le> count t"
    and "\<And>w i t r t'. WaitFor options = Some w \<Longrightarrow> w i t = (r, t') \<Longrightarrow> count t' \<le> count t"
  shows "\<exists>r s'. Retry ctxErr timer options attempt s = Some (r, s') \<and>
    int (count s') \<le> int (count s) + Attempts options"
proof -
  let ?wait = "case WaitFor options of None \<Rightarrow> bootstrap_Wait ctxErr timer | Some wait \<Rightarrow> wait"
  have wt: "count t' \<le> count t" if "?wait (Interval options) t = (r, t')" for t r t'
  proof (cases "WaitFor options")
    case None
    with that show ?thesis using assms(4)
      by (auto simp: bootstrap_Wait_def split: if_splits option.splits)
  next
    case (Some w)
    with that assms(5) show ?thesis by auto
  qed
  have "\<exists>r s'. retryLoop options ?wait ctxErr attempt 0 None s = Some (r, s') \<and>
      count s' \<le> count s + nat (Attempts options)"
    by (rule retryLoop_bounded [OF assms(1) _ _ assms(2) assms(3) wt]) simp_all
  then obtain r s' where "retryLoop options ?wait ctxErr attempt 0 None s = Some (r, s')"
    "count s' \<le> count s + nat (Attempts options)"
    by blast
  with assms(1) show ?thesis unfolding Retry_def by auto
qed

theorem Retry_bounded_witness:
  "\<exists>r s'. Retry (\<lambda>_. None) (\<lambda>_ s. (Inr (), s))
     \<lparr>Attempts = 3, Interval = 5, OnRetry = None, WaitFor = None\<rparr>
     (\<lambda>n. (Inl (SysError ''refused''), Suc n)) (0 :: nat) = Some (r, s') \<and> int s' \<le> 3"
  using Retry_bounded [of "\<lparr>Attempts = 3, Interval = 5, OnRetry = None, WaitFor = None\<rparr>"
    "\<lambda>n. (Inl (SysError ''refused''), Suc n)" "\<lambda>n. n" "\<lambda>_ s. (Inr (), s)" "\<lambda>_. None" 0] by simp



text \<open>Without a limit \<open>Retry\<close> gives up for three reasons only: if it returns an error,
  that error is a cancellation seen while waiting or after a failure, or the inside of a
  failure marked with \<open>Stop\<close>; it never returns an ordinary failure.\<close>

theorem Retry_unlimited_errors:
  assumes "Attempts options = 0" "WaitFor options = Some w"
    and "Retry ctxErr timer options attempt s = Some (Some e, s')"
  shows "(\<exists>t i. fst (w i t) = Inl e) \<or> (\<exists>t. ctxErr t = Some e) \<or>
    (\<exists>t err. fst (attempt t) = Inl err \<and> stop_in (error_chain err) = Some e)"
proof -
  let ?P = "\<lambda>options wait ctxErr attempt (call :: int) (lastErr :: error option) (s :: 'a) (r :: error option \<times> 'a).
    Attempts options = 0 \<longrightarrow> (\<forall>e. fst r = Some e \<longrightarrow>
      (\<exists>t i. fst (wait i t) = Inl e) \<or> (\<exists>t. ctxErr t = Some e) \<or>
      (\<exists>t err. fst (attempt t) = Inl err \<and> stop_in (error_chain err) = Some e))"
  have run: "retryLoop options w ctxErr attempt 0 None s = Some (Some e, s')"
    using assms(2,3) by (simp add: Retry_def)
  have "?P options w ctxErr attempt 0 None s (Some e, s')"
  proof (rule retryLoop.raw_induct [where P = ?P, OF _ run])
    fix loop options wait ctxErr attempt call lastErr s r
    assume IH: "\<And>options wait ctxErr attempt call lastErr s r.
        loop options wait ctxErr attempt call lastErr s = Some r \<Longrightarrow>
        ?P options wait ctxErr attempt call lastErr s r"
      and eq: "(if Attempts options = 0 \<or> call < Attempts options then
        (case (if 0 < call
               then wait (Interval options)
                      (case OnRetry options of None \<Rightarrow> s | Some onRetry \<Rightarrow> onRetry lastErr s)
               else (Inr (), s)) of
           (Inl err, s1) \<Rightarrow> Some (Some err, s1)
         | (Inr _, s1) \<Rightarrow>
             (case attempt s1 of
                (Inr _, s2) \<Rightarrow> Some (None, s2)
              | (Inl err, s2) \<Rightarrow>
                  (case stop_in (error_chain err) of
                     Some stop \<Rightarrow> Some (Some stop, s2)
                   | None \<Rightarrow>
                       (case ctxErr s2 of
                          Some e \<Rightarrow> Some (Some e, s2)
                        | None \<Rightarrow> loop options wait ctxErr attempt (call + 1) (Some err) s2))))
      else Some (lastErr, s)) = Some r"
    show "?P options wait ctxErr attempt call lastErr s r"
    proof (intro impI allI)
      fix e
      assume unlimited: "Attempts options = 0" and e: "fst r = Some e"
      let ?s0 = "case OnRetry options of None \<Rightarrow> s | Some onRetry \<Rightarrow> onRetry lastErr s"
      obtain v s1 where v: "(if 0 < call then wait (Interval options) ?s0 else (Inr (), s)) = (v, s1)"
        by fastforce
      obtain a s2 where a: "attempt s1 = (a, s2)" by fastforce
      show "(\<exists>t i. fst (wait i t) = Inl e) \<or> (\<exists>t. ctxErr t = Some e) \<or>
        (\<exists>t err. fst (attempt t) = Inl err \<and> stop_in (error_chain err) = Some e)"
      proof (cases v)
        case (Inl err)
        then have "wait (Interval options) ?s0 = (Inl err, s1)" using v by (auto split: if_splits)
        moreover have "err = e" using eq v Inl unlimited e by auto
        ultimately show ?thesis by (metis fst_conv)
      next
        case (Inr u)
        show ?thesis
        proof (cases a)
          case (Inr x)
          with eq v \<open>v = Inr u\<close> a unlimited e show ?thesis by auto
        next
          case (Inl err)
          show ?thesis
          proof (cases "stop_in (error_chain err)")
            case (Some x)
            then have "x = e" using eq v \<open>v = Inr u\<close> a Inl unlimited e by auto
            with Some a Inl show ?thesis by (metis fst_conv)
          next
            case None
            show ?thesis
            proof (cases "ctxErr s2")
              case (Some x)
              then have "x = e" using eq v \<open>v = Inr u\<close> a Inl None unlimited e by auto
              with Some show ?thesis by blast
            next
              case none: None
              have "loop options wait ctxErr attempt (call + 1) (Some err) s2 = Some r"
                using eq v \<open>v = Inr u\<close> a Inl None none unlimited by simp
              from IH [OF this] unlimited e show ?thesis by blast
            qed
          qed
        qed
      qed
    qed
  qed
  then show ?thesis using assms(1) by simp
qed

theorem Retry_unlimited_errors_witness:
  "(\<exists>t i. fst ((\<lambda>_ s :: nat \<times> error option list. (Inr (), s)) (i :: int) t) = (Inl (SysError ''denied'') :: unit result)) \<or>
   (\<exists>t :: nat \<times> error option list. None = Some (SysError ''denied'')) \<or>
   (\<exists>t err. fst (scripted (\<lambda>i. if i = 0 then Inl (DialError ''dial'') else Inl (Stop (SysError ''denied''))) t) = Inl err \<and>
      stop_in (error_chain err) = Some (SysError ''denied''))"
proof -
  let ?f = "\<lambda>i :: nat. if i = 0 then Inl (DialError ''dial'') else Inl (Stop (SysError ''denied''))"
  have "Retry (\<lambda>_. None) (\<lambda>_ s. (Inr (), s)) (logging 0) (scripted ?f) (0, []) =
      retryLoop (logging 0) (\<lambda>_ s. (Inr (), s)) (\<lambda>_. None) (scripted ?f) (int 0) None (0, [])"
    by (simp add: Retry_def logging_def)
  also have "\<dots> = Some (failure (?f 1), (Suc 1, [] @ map (\<lambda>j. failure (?f j)) [0 - 1..<1]))"
    by (rule retryLoop_script) (auto simp: repeatable_def Stop_def)
  also have "failure (?f 1) = Some (SysError ''denied'')"
    by (simp add: failure_def Stop_def)
  finally have "Retry (\<lambda>_. None) (\<lambda>_ s. (Inr (), s)) (logging 0) (scripted ?f) (0, []) =
      Some (Some (SysError ''denied''), (Suc 1, [] @ map (\<lambda>j. failure (?f j)) [0 - 1..<1]))" .
  from Retry_unlimited_errors [OF _ _ this] show ?thesis by (simp add: logging_def)
qed

end
