(* ===== verification/Paths.thy ===== *)
theory Paths
  imports Strings
begin

text \<open>
  Go's \<open>path/filepath\<close> on Unix: lexical processing of slash-separated paths.  The images
  run on Linux; the Windows build files of the repository are not modelled.
\<close>

section \<open>Lexical operations\<close>

definition IsAbs :: "string \<Rightarrow> bool" where
  "IsAbs p = HasPrefix p ''/''"

text \<open>\<open>clean_comps rooted out todo\<close>: the elements of a cleaned path, \<open>out\<close> being the
  elements kept so far, last one first.\<close>

fun clean_comps :: "bool \<Rightarrow> string list \<Rightarrow> string list \<Rightarrow> string list" where
  "clean_comps rooted out [] = rev out"
| "clean_comps rooted out (c # cs) =
     (if c = [] \<or> c = ''.'' then clean_comps rooted out cs
      else if c = ''..'' then
        (case out of
           [] \<Rightarrow> if rooted then clean_comps rooted [] cs else clean_comps rooted [''..''] cs
         | x # out' \<Rightarrow>
             if x = ''..'' then clean_comps rooted (''..'' # out) cs
             else clean_comps rooted out' cs)
      else clean_comps rooted (c # out) cs)"

definition cleaned :: "string \<Rightarrow> string list" where
  "cleaned p = clean_comps (IsAbs p) [] (Split p (CHR ''/''))"

definition Clean :: "string \<Rightarrow> string" where
  "Clean p =
     (if IsAbs p then ''/'' @ Join (cleaned p) ''/''
      else if cleaned p = [] then ''.'' else Join (cleaned p) ''/'')"

definition path_Join :: "string list \<Rightarrow> string" where
  "path_Join elems =
     (case dropWhile (\<lambda>e. e = []) elems of [] \<Rightarrow> [] | e # es \<Rightarrow> Clean (Join (e # es) ''/''))"

definition IsLocal :: "string \<Rightarrow> bool" where
  "IsLocal p =
     (if IsAbs p \<or> p = [] then False
      else
        (let hasDots = list_ex (\<lambda>c. c = ''.'' \<or> c = ''..'') (Split p (CHR ''/''));
             q = (if hasDots then Clean p else p)
         in \<not> (q = ''..'' \<or> HasPrefix q ''../'')))"

text \<open>The elements left of two paths after their common beginning.\<close>

fun diverge :: "string list \<Rightarrow> string list \<Rightarrow> string list \<times> string list" where
  "diverge (b # bs) (t # ts) = (if b = t then diverge bs ts else (b # bs, t # ts))"
| "diverge bs ts = (bs, ts)"

definition Rel :: "string \<Rightarrow> string \<Rightarrow> string result" where
  "Rel basepath targpath =
     (if Clean targpath = Clean basepath then Inr ''.''
      else if IsAbs basepath \<noteq> IsAbs targpath
      then Inl (Errorf ''Rel: can't make %s relative to %s'' [targpath, basepath])
      else
        (case diverge (cleaned basepath) (cleaned targpath) of (bs, ts) \<Rightarrow>
           (if bs \<noteq> [] \<and> hd bs = ''..''
            then Inl (Errorf ''Rel: can't make %s relative to %s'' [targpath, basepath])
            else Inr (Join (map (\<lambda>_. ''..'') bs @ ts) ''/''))))"

definition path_Base :: "string \<Rightarrow> string" where
  "path_Base p =
     (if p = [] then ''.''
      else
        (let q = TrimRight p [CHR ''/''] in
         if q = [] then ''/'' else last (Split q (CHR ''/''))))"

definition path_Dir :: "string \<Rightarrow> string" where
  "path_Dir p =
     (let dir = rev (dropWhile (\<lambda>c. c \<noteq> CHR ''/'') (rev p)) in Clean dir)"

definition path_Ext :: "string \<Rightarrow> string" where
  "path_Ext p =
     (let name = last (Split p (CHR ''/'')) in
      if CHR ''.'' \<in> set name then ''.'' @ rev (takeWhile (\<lambda>c. c \<noteq> CHR ''.'') (rev name)) else [])"

section \<open>What cleaning guarantees\<close>

text \<open>A cleaned list of elements: no empty element, no dot, no slash, and parent references
  only at the start of a relative path.\<close>

definition proper_comp :: "string \<Rightarrow> bool" where
  "proper_comp c \<longleftrightarrow> c \<noteq> [] \<and> c \<noteq> ''.'' \<and> CHR ''/'' \<notin> set c"

definition clean_list :: "bool \<Rightarrow> string list \<Rightarrow> bool" where
  "clean_list rooted cs \<longleftrightarrow>
     (\<forall>c \<in> set cs. proper_comp c) \<and>
     (\<exists>n rest. cs = replicate n ''..'' @ rest \<and> ''..'' \<notin> set rest \<and> (rooted \<longrightarrow> n = 0))"

lemma clean_listI:
  "(\<forall>c \<in> set cs. proper_comp c) \<Longrightarrow> cs = replicate n ''..'' @ rest \<Longrightarrow> ''..'' \<notin> set rest \<Longrightarrow>
   (rooted \<longrightarrow> n = 0) \<Longrightarrow> clean_list rooted cs"
  unfolding clean_list_def by blast

lemma clean_list_snoc:
  assumes "clean_list rooted cs" "proper_comp c" "c \<noteq> ''..''"
  shows "clean_list rooted (cs @ [c])"
proof -
  from assms(1) obtain n rest where "cs = replicate n ''..'' @ rest" "''..'' \<notin> set rest" "rooted \<longrightarrow> n = 0"
    unfolding clean_list_def by blast
  then show ?thesis
    using assms by (intro clean_listI [of _ n "rest @ [c]"]) (auto simp: clean_list_def)
qed

lemma clean_list_butlast:
  assumes "clean_list rooted (cs @ [c])"
  shows "clean_list rooted cs"
proof -
  from assms obtain n rest where 1: "cs @ [c] = replicate n ''..'' @ rest" "''..'' \<notin> set rest" "rooted \<longrightarrow> n = 0"
    unfolding clean_list_def by blast
  have p: "\<forall>x \<in> set cs. proper_comp x" using assms by (auto simp: clean_list_def)
  show ?thesis
  proof (cases rest rule: rev_cases)
    case Nil
    then have "cs = butlast (replicate n ''..'')" using 1(1) by (metis append_Nil2 butlast_snoc)
    then have "cs = replicate (n - 1) ''..'' @ []" by (cases n) (auto simp: replicate_append_same [symmetric])
    then show ?thesis using p 1(3) by (intro clean_listI [of _ "n - 1" "[]"]) auto
  next
    case (snoc r x)
    then have "cs = replicate n ''..'' @ r" using 1(1) by simp
    with snoc 1 p show ?thesis by (intro clean_listI [of _ n r]) auto
  qed
qed

lemma clean_list_dots:
  assumes "clean_list rooted (cs @ [''..''])"
  shows "cs = replicate (length cs) ''..'' \<and> \<not> rooted"
proof -
  from assms obtain n rest where 1: "cs @ [''..''] = replicate n ''..'' @ rest" "''..'' \<notin> set rest" "rooted \<longrightarrow> n = 0"
    unfolding clean_list_def by blast
  have "rest = []"
  proof (rule ccontr)
    assume "rest \<noteq> []"
    then have "last rest = ''..''" using 1(1) by (metis last_appendR last_snoc)
    with 1(2) \<open>rest \<noteq> []\<close> show False by (metis last_in_set)
  qed
  with 1 have "cs @ [''..''] = replicate n ''..''" by simp
  then obtain m where "n = Suc m" "cs = replicate m ''..''"
    by (cases n) (auto simp: replicate_append_same [symmetric])
  with 1(3) show ?thesis by auto
qed

lemma clean_comps_clean:
  assumes "clean_list rooted (rev out)" "\<forall>c \<in> set cs. CHR ''/'' \<notin> set c"
  shows "clean_list rooted (clean_comps rooted out cs)"
  using assms
proof (induction rooted out cs rule: clean_comps.induct)
  case (1 rooted out)
  then show ?case by simp
next
  case (2 rooted out c cs)
  have cs: "\<forall>c \<in> set cs. CHR ''/'' \<notin> set c" using "2.prems"(2) by simp
  show ?case
  proof (cases "c = [] \<or> c = ''.''")
    case True
    with "2.IH"(1) "2.prems" cs show ?thesis by simp
  next
    case skip: False
    show ?thesis
    proof (cases "c = ''..''")
      case up: True
      show ?thesis
      proof (cases out)
        case Nil
        have dd: "clean_list False (rev [''..''])"
          by (intro clean_listI [of _ 1 "[]"]) (auto simp: proper_comp_def)
        show ?thesis
        proof (cases rooted)
          case True
          with "2.IH"(2) skip up Nil cs "2.prems" show ?thesis by simp
        next
          case False
          with "2.IH"(3) skip up Nil cs dd show ?thesis by simp
        qed
      next
        case (Cons x out')
        show ?thesis
        proof (cases "x = ''..''")
          case True
          have "rev out' @ [''..''] = rev out" using Cons True by simp
          then have "rev out' = replicate (length out') ''..'' \<and> \<not> rooted"
            using clean_list_dots "2.prems"(1) by (metis length_rev)
          then have "clean_list rooted (rev (''..'' # out))"
            using Cons True
            by (intro clean_listI [of _ "length out' + 2" "[]"])
              (auto simp: proper_comp_def replicate_append_same [symmetric])
          with "2.IH"(4) skip up Cons True cs show ?thesis by simp
        next
          case False
          have "clean_list rooted (rev out')" using "2.prems"(1) Cons clean_list_butlast by simp
          with "2.IH"(5) skip up Cons False cs show ?thesis by simp
        qed
      qed
    next
      case False
      have "proper_comp c" using skip "2.prems"(2) by (simp add: proper_comp_def)
      with "2.prems"(1) False have "clean_list rooted (rev (c # out))" by (simp add: clean_list_snoc)
      with "2.IH"(6) skip False cs show ?thesis by simp
    qed
  qed
qed

lemma clean_list_cleaned: "clean_list (IsAbs p) (cleaned p)"
  unfolding cleaned_def
  by (rule clean_comps_clean) (auto simp: Split_no_sep intro: clean_listI [of _ 0 "[]"])

lemma cleaned_proper: "c \<in> set (cleaned p) \<Longrightarrow> proper_comp c"
  using clean_list_cleaned [of p] by (auto simp: clean_list_def)

lemma cleaned_rooted_no_dots:
  assumes "IsAbs p" shows "''..'' \<notin> set (cleaned p)"
  using clean_list_cleaned [of p] assms by (auto simp: clean_list_def)

lemma clean_comps_append:
  "clean_comps rooted out (xs @ ys) = clean_comps rooted (rev (clean_comps rooted out xs)) ys"
  by (induction rooted out xs rule: clean_comps.induct) (auto split: list.splits)

lemma clean_comps_plain:
  "\<forall>c \<in> set cs. proper_comp c \<and> c \<noteq> ''..'' \<Longrightarrow> clean_comps rooted out cs = rev out @ cs"
  by (induction cs arbitrary: out) (auto simp: proper_comp_def)

lemma clean_comps_dots:
  "clean_comps False (replicate m ''..'') (replicate n ''..'') = replicate (m + n) ''..''"
proof (induction n arbitrary: m)
  case (Suc n)
  have "replicate (Suc m) ''..'' = ''..'' # replicate m ''..''" by simp
  with Suc [of "Suc m"] show ?case by (cases m) auto
qed simp

text \<open>Cleaning a clean list changes nothing.\<close>

lemma clean_comps_id:
  assumes "clean_list rooted cs"
  shows "clean_comps rooted [] cs = cs"
proof -
  from assms obtain n rest where cs: "cs = replicate n ''..'' @ rest" "''..'' \<notin> set rest" "rooted \<longrightarrow> n = 0"
    unfolding clean_list_def by blast
  have plain: "\<forall>c \<in> set rest. proper_comp c \<and> c \<noteq> ''..''"
    using assms cs by (auto simp: clean_list_def)
  show ?thesis
  proof (cases rooted)
    case True
    with cs plain show ?thesis by (simp add: clean_comps_plain)
  next
    case False
    with cs plain clean_comps_dots [of 0 n] show ?thesis
      by (simp add: clean_comps_append clean_comps_plain)
  qed
qed

lemma IsAbs_Cons [simp]: "IsAbs (c # p) \<longleftrightarrow> c = CHR ''/''"
  by (auto simp: IsAbs_def HasPrefix_def)

lemma IsAbs_Nil [simp]: "\<not> IsAbs []"
  by (simp add: IsAbs_def HasPrefix_def)

lemma IsAbs_append [simp]: "p \<noteq> [] \<Longrightarrow> IsAbs (p @ q) = IsAbs p"
  by (cases p) auto

lemma Join_proper_relative:
  assumes "cs \<noteq> []" "proper_comp (hd cs)"
  shows "\<not> IsAbs (Join cs sep)"
proof -
  obtain c rest where "cs = c # rest" "proper_comp c" using assms by (cases cs) auto
  moreover then obtain x c' where "c = x # c'" "x \<noteq> CHR ''/''"
    by (cases c) (auto simp: proper_comp_def)
  ultimately show ?thesis by (cases rest) (auto simp: Join_Cons)
qed

lemma IsAbs_Clean [simp]: "IsAbs (Clean p) = IsAbs p"
  using Join_proper_relative [of "cleaned p" "''/''"] cleaned_proper [of "hd (cleaned p)" p]
  by (auto simp: Clean_def)

lemma cleaned_Join:
  assumes "clean_list False cs" "cs \<noteq> []"
  shows "cleaned (Join cs ''/'') = cs"
proof -
  have ns: "\<forall>c \<in> set cs. CHR ''/'' \<notin> set c" "proper_comp (hd cs)"
    using assms by (auto simp: clean_list_def proper_comp_def)
  then have "Split (Join cs ''/'') (CHR ''/'') = cs" using assms(2) by (simp add: Split_Join)
  with ns assms Join_proper_relative show ?thesis by (simp add: cleaned_def clean_comps_id)
qed

lemma cleaned_rooted_Join:
  assumes "clean_list True cs"
  shows "cleaned (''/'' @ Join cs ''/'') = cs"
proof -
  have s: "Split (''/'' @ Join cs ''/'') (CHR ''/'') = [] # Split (Join cs ''/'') (CHR ''/'')"
    using Split_append_sep [of "CHR ''/''" "[]"] by simp
  show ?thesis
  proof (cases "cs = []")
    case True
    then show ?thesis using s by (simp add: cleaned_def Split_single)
  next
    case False
    have "\<forall>c \<in> set cs. CHR ''/'' \<notin> set c" using assms by (auto simp: clean_list_def proper_comp_def)
    then have "Split (Join cs ''/'') (CHR ''/'') = cs" using False by (simp add: Split_Join)
    with s assms show ?thesis by (simp add: cleaned_def clean_comps_id)
  qed
qed

lemma cleaned_Clean [simp]: "cleaned (Clean p) = cleaned p"
proof (cases "IsAbs p")
  case True
  with clean_list_cleaned [of p] cleaned_rooted_Join [of "cleaned p"] show ?thesis
    by (simp add: Clean_def)
next
  case False
  then have cl: "clean_list False (cleaned p)" using clean_list_cleaned [of p] by simp
  show ?thesis
  proof (cases "cleaned p = []")
    case True
    with False have c: "Clean p = ''.''" by (simp add: Clean_def)
    have "cleaned ''.'' = []" by (simp add: cleaned_def Split_single)
    with True c show ?thesis by simp
  next
    case nonempty: False
    with False have c: "Clean p = Join (cleaned p) ''/''" by (simp add: Clean_def)
    show ?thesis unfolding c by (rule cleaned_Join [OF cl nonempty])
  qed
qed

lemma Clean_cong: "IsAbs p = IsAbs q \<Longrightarrow> cleaned p = cleaned q \<Longrightarrow> Clean p = Clean q"
  unfolding Clean_def by simp

lemma Clean_idem [simp]: "Clean (Clean p) = Clean p"
  by (rule Clean_cong) simp_all

text \<open>Two paths clean to the same text exactly when they have the same elements and are
  both absolute or both relative.\<close>

lemma Clean_eq_iff: "Clean p = Clean q \<longleftrightarrow> IsAbs p = IsAbs q \<and> cleaned p = cleaned q"
proof
  assume "Clean p = Clean q"
  then have "IsAbs (Clean p) = IsAbs (Clean q)" "cleaned (Clean p) = cleaned (Clean q)" by simp_all
  then show "IsAbs p = IsAbs q \<and> cleaned p = cleaned q" by simp
qed (simp add: Clean_def)

lemma cleaned_append_sep:
  assumes "d \<noteq> []"
  shows "cleaned (d @ CHR ''/'' # q) = clean_comps (IsAbs d) (rev (cleaned d)) (Split q (CHR ''/''))"
proof -
  have "Split (d @ CHR ''/'' # q) (CHR ''/'') = Split d (CHR ''/'') @ Split q (CHR ''/'')"
  proof (induction d)
    case Nil
    then show ?case using Split_append_sep [of "CHR ''/''" "[]" q] by (simp add: Split_single)
  next
    case (Cons c d)
    then show ?case by (auto split: list.splits)
  qed
  with assms show ?thesis by (simp add: cleaned_def clean_comps_append)
qed

text \<open>Joining a directory with a cleaned relative path that does not climb keeps the
  directory's elements as a prefix.\<close>

lemma cleaned_path_Join:
  assumes "d \<noteq> []" "clean_list False cs" "''..'' \<notin> set cs" "cs \<noteq> []"
  shows "path_Join [d, Join cs ''/''] = Clean (d @ ''/'' @ Join cs ''/'')"
    and "cleaned (path_Join [d, Join cs ''/'']) = cleaned d @ cs"
proof -
  show j: "path_Join [d, Join cs ''/''] = Clean (d @ ''/'' @ Join cs ''/'')"
    using assms by (simp add: path_Join_def Join_Cons)
  have ns: "\<forall>c \<in> set cs. CHR ''/'' \<notin> set c"
    using assms by (auto simp: clean_list_def proper_comp_def)
  have plain: "\<forall>c \<in> set cs. proper_comp c \<and> c \<noteq> ''..''"
    using assms by (auto simp: clean_list_def)
  show "cleaned (path_Join [d, Join cs ''/'']) = cleaned d @ cs"
    using assms ns plain unfolding j cleaned_Clean
    by (simp add: cleaned_append_sep Split_Join clean_comps_plain)
qed

section \<open>Relative paths\<close>

lemma diverge_prefix: "diverge xs ys = ([], ts) \<Longrightarrow> ys = xs @ ts"
  by (induction xs ys rule: diverge.induct) (auto split: if_splits)

lemma diverge_parts: "diverge xs ys = (bs, ts) \<Longrightarrow> suffix bs xs \<and> suffix ts ys"
  by (induction xs ys rule: diverge.induct) (auto simp: suffix_Cons split: if_splits)

text \<open>A path that starts with a parent reference is not local.\<close>

lemma dots_not_local:
  assumes "clean_list False (''..'' # cs)"
  shows "\<not> IsLocal (Join (''..'' # cs) ''/'')"
proof -
  let ?p = "Join (''..'' # cs) ''/''"
  have ns: "\<forall>c \<in> set (''..'' # cs). CHR ''/'' \<notin> set c" and hd: "proper_comp (hd (''..'' # cs))"
    using assms by (auto simp: clean_list_def proper_comp_def)
  have abs: "\<not> IsAbs ?p" using Join_proper_relative [OF _ hd] by simp
  have "Split ?p (CHR ''/'') = ''..'' # cs" using ns by (intro Split_Join) auto
  then have dots: "list_ex (\<lambda>c. c = ''.'' \<or> c = ''..'') (Split ?p (CHR ''/''))" by simp
  have "Clean ?p = ?p" using cleaned_Join [OF assms] abs by (simp add: Clean_def)
  moreover have "?p = ''..'' \<or> HasPrefix ?p ''../''"
    by (cases cs) (auto simp: Join_Cons HasPrefix_def)
  ultimately show ?thesis using abs dots by (auto simp: IsLocal_def Let_def)
qed

text \<open>When a path relative to an absolute base is local, the path lies below the base.\<close>

lemma Rel_local_prefix:
  assumes "Rel base target = Inr rel" "IsLocal rel" "IsAbs base" "IsAbs target"
  shows "prefix (cleaned base) (cleaned target)"
proof (cases "Clean target = Clean base")
  case True
  then show ?thesis by (simp add: Clean_eq_iff)
next
  case False
  obtain bs ts where d: "diverge (cleaned base) (cleaned target) = (bs, ts)" by fastforce
  have rel: "rel = Join (map (\<lambda>_. ''..'') bs @ ts) ''/''"
    using assms(1,3,4) False d by (auto simp: Rel_def split: if_splits)
  have sub: "set ts \<subseteq> set (cleaned target)"
    by (rule set_mono_suffix) (use diverge_parts [OF d] in simp)
  have ts: "\<forall>c \<in> set ts. proper_comp c \<and> c \<noteq> ''..''"
  proof
    fix c assume "c \<in> set ts"
    with sub have "c \<in> set (cleaned target)" by (rule subsetD)
    then show "proper_comp c \<and> c \<noteq> ''..''"
      using cleaned_proper cleaned_rooted_no_dots [OF assms(4)] by metis
  qed
  have "bs = []"
  proof (rule ccontr)
    assume "bs \<noteq> []"
    then obtain b bs' where b: "bs = b # bs'" by (cases bs) auto
    let ?cs = "''..'' # (map (\<lambda>_. ''..'') bs' @ ts)"
    have rep: "?cs = replicate (Suc (length bs')) ''..'' @ ts" by (simp add: map_replicate_const)
    have dd: "proper_comp ''..''" by (simp add: proper_comp_def)
    have "clean_list False ?cs"
    proof (rule clean_listI [OF _ rep])
      show "\<forall>c \<in> set ?cs. proper_comp c"
        unfolding rep using dd ts by (metis Un_iff in_set_replicate set_append)
      show "''..'' \<notin> set ts" using ts by blast
    qed simp
    with assms(2) rel b show False using dots_not_local by simp
  qed
  with d diverge_prefix show ?thesis by (auto simp: prefix_def)
qed

end
