(* ===== verification/OS.thy ===== *)
theory OS
  imports Paths
begin

text \<open>
  The operating system the entrypoints run on, as far as their code uses it: a tree of files,
  directories and symbolic links with POSIX path resolution, and the functions of Go's
  \<open>os\<close> package over it.  Every operation can be refused by the environment: \<open>denied\<close> says
  which error an operation meets at a place, so that the error branches of the code are
  reachable whatever the tree looks like.  Nobody else changes the tree meanwhile.
\<close>

section \<open>State\<close>

datatype node =
    RegularFile string nat
  | Directory nat
  | SymLink string
  | SpecialFile

datatype sysop =
    OpStat | OpLstat | OpReadlink | OpOpen | OpReadDir | OpCreate | OpWrite | OpChmod | OpSync
  | OpClose | OpRemove | OpRename | OpSymlink | OpMkdir | OpChown | OpChdir

text \<open>A place in the tree is the list of the names that lead to it from the root.  The random
  file name parts of the run are \<open>tokens\<close>.\<close>

type_synonym place = "string list"

record filesystem =
  nodes :: "(place \<times> node) list"
  workdir :: place
  denied :: "sysop \<Rightarrow> place \<Rightarrow> error option"
  tokens :: "string list"

definition node_at :: "(place \<times> node) list \<Rightarrow> place \<Rightarrow> node option" where
  "node_at ns p = (if p = [] then Some (Directory 493) else map_of ns p)"

definition put_node :: "place \<Rightarrow> node \<Rightarrow> filesystem \<Rightarrow> filesystem" where
  "put_node p n fs = fs\<lparr>nodes := AList.update p n (nodes fs)\<rparr>"

definition drop_node :: "place \<Rightarrow> filesystem \<Rightarrow> filesystem" where
  "drop_node p fs = fs\<lparr>nodes := AList.delete p (nodes fs)\<rparr>"

definition drop_tree :: "place \<Rightarrow> filesystem \<Rightarrow> filesystem" where
  "drop_tree p fs = fs\<lparr>nodes := filter (\<lambda>(q, _). \<not> prefix p q) (nodes fs)\<rparr>"

definition children :: "(place \<times> node) list \<Rightarrow> place \<Rightarrow> string list" where
  "children ns p =
     map last (filter (\<lambda>q. q \<noteq> [] \<and> butlast q = p) (remdups (map fst ns)))"

section \<open>Path resolution\<close>

text \<open>
  \<open>walk ns base links cur todo follow\<close> resolves the names \<open>todo\<close> from the directory \<open>cur\<close>,
  passing at most \<open>links\<close> symbolic links; the last name is followed only when \<open>follow\<close>.
  The result is the place reached and what is there, if anything is.  With \<open>base = Some b\<close>
  it is the resolution of an \<open>os.Root\<close> opened at \<open>b\<close>: leaving \<open>b\<close> is an error.
\<close>

definition EscapesRoot :: error where
  "EscapesRoot = SysError ''path escapes from parent''"

definition ELOOP :: error where "ELOOP = SysError ''too many levels of symbolic links''"
definition ENOTDIR :: error where "ENOTDIR = SysError ''not a directory''"
definition EISDIR :: error where "EISDIR = SysError ''is a directory''"
definition ENOTEMPTY :: error where "ENOTEMPTY = SysError ''directory not empty''"
definition EINVAL :: error where "EINVAL = SysError ''invalid argument''"

function walk :: "(place \<times> node) list \<Rightarrow> place option \<Rightarrow> nat \<Rightarrow> place \<Rightarrow> string list \<Rightarrow> bool
    \<Rightarrow> (place \<times> node option) result" where
  "walk ns base links cur [] follow = Inr (cur, node_at ns cur)"
| "walk ns base links cur (c # cs) follow =
     (if c = [] \<or> c = ''.'' then walk ns base links cur cs follow
      else if c = ''..'' then
        (if (case base of None \<Rightarrow> False | Some b \<Rightarrow> length cur \<le> length b) then Inl EscapesRoot
         else walk ns base links (butlast cur) cs follow)
      else
        (case node_at ns (cur @ [c]) of
           None \<Rightarrow> if cs = [] then Inr (cur @ [c], None) else Inl ErrNotExist
         | Some (Directory m) \<Rightarrow> walk ns base links (cur @ [c]) cs follow
         | Some (SymLink t) \<Rightarrow>
             (if cs = [] \<and> \<not> follow then Inr (cur @ [c], Some (SymLink t))
              else
                (case links of
                   0 \<Rightarrow> Inl ELOOP
                 | Suc l \<Rightarrow>
                     (if IsAbs t
                      then (if base = None then walk ns base l [] (Split t (CHR ''/'') @ cs) follow
                            else Inl EscapesRoot)
                      else walk ns base l cur (Split t (CHR ''/'') @ cs) follow)))
         | Some n \<Rightarrow> if cs = [] then Inr (cur @ [c], Some n) else Inl ENOTDIR))"
  by pat_completeness auto
termination
  by (relation "measures [\<lambda>(_, _, l, _, _, _). l, \<lambda>(_, _, _, _, cs, _). length cs]") auto

text \<open>Linux follows at most 40 links in one resolution.\<close>

definition max_links :: nat where "max_links = 40"

definition resolve :: "filesystem \<Rightarrow> string \<Rightarrow> bool \<Rightarrow> (place \<times> node option) result" where
  "resolve fs path follow =
     (if path = [] then Inl ErrNotExist
      else walk (nodes fs) None max_links (if IsAbs path then [] else workdir fs)
             (Split path (CHR ''/'')) follow)"

definition resolve_in :: "filesystem \<Rightarrow> place \<Rightarrow> string \<Rightarrow> bool \<Rightarrow> (place \<times> node option) result" where
  "resolve_in fs base path follow =
     (if path = [] \<or> IsAbs path then Inl EscapesRoot
      else walk (nodes fs) (Some base) max_links base (Split path (CHR ''/'')) follow)"

text \<open>A place that must exist, and that the operation is allowed at.\<close>

definition must_exist :: "filesystem \<Rightarrow> sysop \<Rightarrow> (place \<times> node option) result \<Rightarrow> (place \<times> node) result" where
  "must_exist fs what r =
     bind_res r (\<lambda>(p, found).
       case denied fs what p of
         Some e \<Rightarrow> Inl e
       | None \<Rightarrow> (case found of None \<Rightarrow> Inl ErrNotExist | Some n \<Rightarrow> Inr (p, n)))"

definition place_path :: "place \<Rightarrow> string" where
  "place_path p = ''/'' @ Join p ''/''"

section \<open>Queries\<close>

definition os_Stat :: "filesystem \<Rightarrow> string \<Rightarrow> node result" where
  "os_Stat fs path = map_sum id snd (must_exist fs OpStat (resolve fs path True))"

definition os_Lstat :: "filesystem \<Rightarrow> string \<Rightarrow> node result" where
  "os_Lstat fs path = map_sum id snd (must_exist fs OpLstat (resolve fs path False))"

fun IsRegular :: "node \<Rightarrow> bool" where
  "IsRegular (RegularFile _ _) = True"
| "IsRegular _ = False"

fun IsDir :: "node \<Rightarrow> bool" where
  "IsDir (Directory _) = True"
| "IsDir _ = False"

fun IsLink :: "node \<Rightarrow> bool" where
  "IsLink (SymLink _) = True"
| "IsLink _ = False"

fun node_perm :: "node \<Rightarrow> nat" where
  "node_perm (RegularFile _ m) = m"
| "node_perm (Directory m) = m"
| "node_perm _ = 511"

definition os_Readlink :: "filesystem \<Rightarrow> string \<Rightarrow> string result" where
  "os_Readlink fs path =
     bind_res (must_exist fs OpReadlink (resolve fs path False))
       (\<lambda>(_, n). case n of SymLink t \<Rightarrow> Inr t | _ \<Rightarrow> Inl EINVAL)"

text \<open>What opening and reading a file gives.  Reading a special file is not modelled: it is an
  error of the operating system here.\<close>

definition read_node :: "filesystem \<Rightarrow> (place \<times> node option) result \<Rightarrow> string result" where
  "read_node fs r =
     bind_res (must_exist fs OpOpen r)
       (\<lambda>(_, n). case n of RegularFile d _ \<Rightarrow> Inr d | Directory _ \<Rightarrow> Inl EISDIR | _ \<Rightarrow> Inl EINVAL)"

definition os_ReadFile :: "filesystem \<Rightarrow> string \<Rightarrow> string result" where
  "os_ReadFile fs path = read_node fs (resolve fs path True)"

text \<open>\<open>os.ReadDir\<close> sorts its entries by name.\<close>

definition list_dir :: "filesystem \<Rightarrow> (place \<times> node option) result \<Rightarrow> (string \<times> node) list result" where
  "list_dir fs r =
     bind_res (must_exist fs OpReadDir r)
       (\<lambda>(p, n). if IsDir n
          then Inr (List.map_filter (\<lambda>name. map_option (Pair name) (node_at (nodes fs) (p @ [name])))
                 (sort (children (nodes fs) p)))
          else Inl ENOTDIR)"

definition os_ReadDir :: "filesystem \<Rightarrow> string \<Rightarrow> (string \<times> node) list result" where
  "os_ReadDir fs path = list_dir fs (resolve fs path True)"

text \<open>\<open>filepath.EvalSymlinks\<close>, which passes at most 255 links.  For a relative argument Go
  returns a relative name of the same file; here the name is always absolute.\<close>

definition EvalSymlinks :: "filesystem \<Rightarrow> string \<Rightarrow> string result" where
  "EvalSymlinks fs path =
     map_sum id (place_path \<circ> fst)
       (must_exist fs OpLstat
         (if path = [] then Inl ErrNotExist
          else walk (nodes fs) None 255 (if IsAbs path then [] else workdir fs)
             (Split path (CHR ''/'')) True))"

definition path_Abs :: "filesystem \<Rightarrow> string \<Rightarrow> string" where
  "path_Abs fs path =
     (if IsAbs path then Clean path else path_Join [place_path (workdir fs), path])"

section \<open>Changes\<close>

definition remove_at :: "(place \<times> node option) result \<Rightarrow> (filesystem, unit) eff" where
  "remove_at r fs =
     (case must_exist fs OpRemove r of
        Inl e \<Rightarrow> (Inl e, fs)
      | Inr (p, n) \<Rightarrow>
          if p = [] then (Inl EINVAL, fs)
          else if IsDir n \<and> children (nodes fs) p \<noteq> [] then (Inl ENOTEMPTY, fs)
          else (Inr (), drop_node p fs))"

definition os_Remove :: "string \<Rightarrow> (filesystem, unit) eff" where
  "os_Remove path fs = remove_at (resolve fs path False) fs"

text \<open>Creating an entry that must be new.\<close>

definition create_at :: "sysop \<Rightarrow> node \<Rightarrow> (place \<times> node option) result \<Rightarrow> (filesystem, place) eff" where
  "create_at what n r fs =
     (case r of
        Inl e \<Rightarrow> (Inl e, fs)
      | Inr (p, found) \<Rightarrow>
          (case found of
             Some _ \<Rightarrow> (Inl ErrExist, fs)
           | None \<Rightarrow>
               (case denied fs what p of Some e \<Rightarrow> (Inl e, fs) | None \<Rightarrow> (Inr p, put_node p n fs))))"

definition os_Symlink :: "string \<Rightarrow> string \<Rightarrow> (filesystem, unit) eff" where
  "os_Symlink oldname newname fs =
     (if oldname = [] then (Inl ErrNotExist, fs)
      else map_prod (map_sum id (\<lambda>_. ())) id
        (create_at OpSymlink (SymLink oldname) (resolve fs newname False) fs))"

text \<open>\<open>os.CreateTemp\<close>: the first random name that is free.  The file is new, empty and
  private; the result is its name.\<close>

fun create_temp :: "string \<Rightarrow> string \<Rightarrow> string list \<Rightarrow> (filesystem, string) eff" where
  "create_temp dir stem [] fs = (Inl ErrExist, fs\<lparr>tokens := []\<rparr>)"
| "create_temp dir stem (t # ts) fs =
     (let name = path_Join [dir, stem @ t] in
      case create_at OpCreate (RegularFile [] 384) (resolve fs name False) fs of
        (Inl e, fs') \<Rightarrow> if e = ErrExist then create_temp dir stem ts fs' else (Inl e, fs'\<lparr>tokens := ts\<rparr>)
      | (Inr _, fs') \<Rightarrow> (Inr name, fs'\<lparr>tokens := ts\<rparr>))"

definition os_CreateTemp :: "string \<Rightarrow> string \<Rightarrow> (filesystem, string) eff" where
  "os_CreateTemp dir stem fs = create_temp dir stem (tokens fs) fs"

text \<open>Changes of an open file: \<open>what\<close> is the operation, \<open>f\<close> the change.  The file is named by
  its place, as an open descriptor names it whatever its path means later.\<close>

definition change_file :: "sysop \<Rightarrow> (string \<Rightarrow> nat \<Rightarrow> node) \<Rightarrow> (place \<times> node option) result \<Rightarrow> (filesystem, unit) eff" where
  "change_file what f r fs =
     (case must_exist fs what r of
        Inl e \<Rightarrow> (Inl e, fs)
      | Inr (p, RegularFile d m) \<Rightarrow> (Inr (), put_node p (f d m) fs)
      | Inr (p, _) \<Rightarrow> (Inl EINVAL, fs))"

definition rename_at :: "(place \<times> node option) result \<Rightarrow> (place \<times> node option) result \<Rightarrow> (filesystem, unit) eff" where
  "rename_at old new fs =
     (case must_exist fs OpRename old of
        Inl e \<Rightarrow> (Inl e, fs)
      | Inr (p, n) \<Rightarrow>
          (case new of
             Inl e \<Rightarrow> (Inl e, fs)
           | Inr (q, found) \<Rightarrow>
               if IsDir n \<or> (\<exists>m \<in> set_option found. IsDir m) then (Inl EISDIR, fs)
               else (case denied fs OpRename q of
                       Some e \<Rightarrow> (Inl e, fs)
                     | None \<Rightarrow> (Inr (), if p = q then fs else put_node q n (drop_node p fs)))))"

definition os_Rename :: "string \<Rightarrow> string \<Rightarrow> (filesystem, unit) eff" where
  "os_Rename old new fs = rename_at (resolve fs old False) (resolve fs new False) fs"

text \<open>\<open>os.WriteFile\<close>: truncate and write an existing file, or create one with the mode.\<close>

definition os_WriteFile :: "string \<Rightarrow> string \<Rightarrow> nat \<Rightarrow> (filesystem, unit) eff" where
  "os_WriteFile path data mode fs =
     (case resolve fs path True of
        Inl e \<Rightarrow> (Inl e, fs)
      | Inr (p, None) \<Rightarrow> map_prod (map_sum id (\<lambda>_. ())) id
          (create_at OpCreate (RegularFile data mode) (Inr (p, None)) fs)
      | Inr (p, Some n) \<Rightarrow> change_file OpWrite (\<lambda>_ m. RegularFile data m) (Inr (p, Some n)) fs)"

text \<open>\<open>MkdirAll\<close> makes every missing directory on the way.\<close>

fun mkdir_all :: "place option \<Rightarrow> place \<Rightarrow> string list \<Rightarrow> nat \<Rightarrow> (filesystem, place) eff" where
  "mkdir_all base cur [] mode fs = (Inr cur, fs)"
| "mkdir_all base cur (c # cs) mode fs =
     (case walk (nodes fs) base max_links cur [c] True of
        Inl e \<Rightarrow> (Inl e, fs)
      | Inr (p, Some n) \<Rightarrow> if IsDir n then mkdir_all base p cs mode fs else (Inl ENOTDIR, fs)
      | Inr (p, None) \<Rightarrow>
          if p \<noteq> cur @ [c] then (Inl ErrExist, fs)
          else (case denied fs OpMkdir p of
                  Some e \<Rightarrow> (Inl e, fs)
                | None \<Rightarrow> mkdir_all base p cs mode (put_node p (Directory mode) fs)))"

definition os_MkdirAll :: "string \<Rightarrow> nat \<Rightarrow> (filesystem, unit) eff" where
  "os_MkdirAll path mode fs =
     map_prod (map_sum id (\<lambda>_. ())) id
       (mkdir_all None (if IsAbs path then [] else workdir fs) (Split path (CHR ''/'')) mode fs)"

text \<open>\<open>RemoveAll\<close> removes what is there, a missing place is fine.\<close>

definition remove_all_at :: "(place \<times> node option) result \<Rightarrow> (filesystem, unit) eff" where
  "remove_all_at r fs =
     (case r of
        Inl e \<Rightarrow> (if e = ErrNotExist then Inr () else Inl e, fs)
      | Inr (p, None) \<Rightarrow> (Inr (), fs)
      | Inr (p, Some _) \<Rightarrow>
          (case denied fs OpRemove p of Some e \<Rightarrow> (Inl e, fs) | None \<Rightarrow> (Inr (), drop_tree p fs)))"

definition os_RemoveAll :: "string \<Rightarrow> (filesystem, unit) eff" where
  "os_RemoveAll path fs = remove_all_at (resolve fs path False) fs"

section \<open>Laws\<close>

named_theorems fs_simps \<open>how the changes of the tree show in the queries\<close>

lemma node_at_put [fs_simps]:
  "p \<noteq> [] \<Longrightarrow> node_at (nodes (put_node p n fs)) q = (if q = p then Some n else node_at (nodes fs) q)"
  by (auto simp: node_at_def put_node_def update_conv')

lemma node_at_drop [fs_simps]:
  "p \<noteq> [] \<Longrightarrow> node_at (nodes (drop_node p fs)) q = (if q = p then None else node_at (nodes fs) q)"
  by (auto simp: node_at_def drop_node_def delete_conv')

lemma map_of_filter_key: "map_of (filter (\<lambda>(q, _). P q) ns) k = (if P k then map_of ns k else None)"
  by (induction ns) auto

lemma node_at_drop_tree [fs_simps]:
  "p \<noteq> [] \<Longrightarrow> node_at (nodes (drop_tree p fs)) q = (if prefix p q then None else node_at (nodes fs) q)"
  by (auto simp: node_at_def drop_tree_def map_of_filter_key)

lemma fs_frame [simp, fs_simps]:
  "workdir (put_node p n fs) = workdir fs" "workdir (drop_node p fs) = workdir fs"
  "workdir (drop_tree p fs) = workdir fs"
  "denied (put_node p n fs) = denied fs" "denied (drop_node p fs) = denied fs"
  "denied (drop_tree p fs) = denied fs"
  "tokens (put_node p n fs) = tokens fs" "tokens (drop_node p fs) = tokens fs"
  "tokens (drop_tree p fs) = tokens fs"
  by (simp_all add: put_node_def drop_node_def drop_tree_def)

lemma node_at_root [simp]: "node_at ns [] = Some (Directory 493)"
  by (simp add: node_at_def)

text \<open>
  A successful resolution as a relation, one rule for each kind of step; the function and the
  relation agree, and properties of resolution go by rule induction.
\<close>

declare walk.simps(2) [simp del]

definition plain_name :: "string \<Rightarrow> bool" where
  "plain_name c \<longleftrightarrow> c \<noteq> [] \<and> c \<noteq> ''.'' \<and> c \<noteq> ''..''"

definition stays_in :: "place option \<Rightarrow> place \<Rightarrow> bool" where
  "stays_in base cur \<longleftrightarrow> (case base of None \<Rightarrow> True | Some b \<Rightarrow> length b < length cur)"

inductive walks :: "(place \<times> node) list \<Rightarrow> place option \<Rightarrow> bool \<Rightarrow> nat \<Rightarrow> place \<Rightarrow> string list
    \<Rightarrow> place \<Rightarrow> node option \<Rightarrow> bool" for ns base follow where
  here: "walks ns base follow l cur [] cur (node_at ns cur)"
| skip: "c = [] \<or> c = ''.'' \<Longrightarrow> walks ns base follow l cur cs p f \<Longrightarrow> walks ns base follow l cur (c # cs) p f"
| up: "stays_in base cur \<Longrightarrow> walks ns base follow l (butlast cur) cs p f \<Longrightarrow>
      walks ns base follow l cur (''..'' # cs) p f"
| missing: "plain_name c \<Longrightarrow> node_at ns (cur @ [c]) = None \<Longrightarrow> walks ns base follow l cur [c] (cur @ [c]) None"
| enter: "plain_name c \<Longrightarrow> node_at ns (cur @ [c]) = Some (Directory m) \<Longrightarrow>
      walks ns base follow l (cur @ [c]) cs p f \<Longrightarrow> walks ns base follow l cur (c # cs) p f"
| link: "plain_name c \<Longrightarrow> node_at ns (cur @ [c]) = Some (SymLink t) \<Longrightarrow> \<not> follow \<Longrightarrow>
      walks ns base follow l cur [c] (cur @ [c]) (Some (SymLink t))"
| absolute: "plain_name c \<Longrightarrow> node_at ns (cur @ [c]) = Some (SymLink t) \<Longrightarrow> cs \<noteq> [] \<or> follow \<Longrightarrow>
      IsAbs t \<Longrightarrow> base = None \<Longrightarrow> walks ns base follow l [] (Split t (CHR ''/'') @ cs) p f \<Longrightarrow>
      walks ns base follow (Suc l) cur (c # cs) p f"
| relative: "plain_name c \<Longrightarrow> node_at ns (cur @ [c]) = Some (SymLink t) \<Longrightarrow> cs \<noteq> [] \<or> follow \<Longrightarrow>
      \<not> IsAbs t \<Longrightarrow> walks ns base follow l cur (Split t (CHR ''/'') @ cs) p f \<Longrightarrow>
      walks ns base follow (Suc l) cur (c # cs) p f"
| final: "plain_name c \<Longrightarrow> node_at ns (cur @ [c]) = Some n \<Longrightarrow> \<not> IsDir n \<Longrightarrow> \<not> IsLink n \<Longrightarrow>
      walks ns base follow l cur [c] (cur @ [c]) (Some n)"

lemma walks_walk: "walks ns base follow l cur todo p f \<Longrightarrow> walk ns base l cur todo follow = Inr (p, f)"
proof (induction rule: walks.induct)
  case (final c cur n l)
  then show ?case by (cases n) (simp_all add: plain_name_def walk.simps(2))
qed (auto simp: plain_name_def stays_in_def walk.simps(2) split: option.splits)

lemma walk_walks: "walk ns base l cur todo follow = Inr (p, f) \<Longrightarrow> walks ns base follow l cur todo p f"
proof (induction ns base l cur todo follow rule: walk.induct)
  case (1 ns base l cur follow)
  then show ?case by (auto intro: walks.here)
next
  case (2 ns base l cur c cs follow)
  note run = "2.prems" [unfolded walk.simps(2)]
  consider (skip) "c = [] \<or> c = ''.''" | (up) "c = ''..''" | (name) "plain_name c"
    by (auto simp: plain_name_def)
  then show ?case
  proof cases
    case skip
    with run "2.IH"(1) show ?thesis by (auto intro: walks.skip)
  next
    case up
    with run "2.IH"(2) show ?thesis
      by (auto simp: stays_in_def intro!: walks.up split: if_splits option.splits)
  next
    case name
    then have dec: "\<not> (c = [] \<or> c = ''.'')" "c \<noteq> ''..''" by (auto simp: plain_name_def)
    show ?thesis
    proof (cases "node_at ns (cur @ [c])")
      case None
      with run dec name show ?thesis by (auto intro: walks.missing split: if_splits)
    next
      case (Some n)
      show ?thesis
      proof (cases n)
        case (Directory m)
        with run dec name Some "2.IH"(3) show ?thesis by (auto intro: walks.enter)
      next
        case (SymLink t)
        show ?thesis
        proof (cases "cs = [] \<and> \<not> follow")
          case True
          with run dec Some SymLink have "p = cur @ [c]" "f = Some (SymLink t)" by simp_all
          with walks.link [OF name, of ns cur t follow base l] Some SymLink True
          show ?thesis by simp
        next
          case False
          with run dec name Some SymLink "2.IH"(4,5) show ?thesis
            by (cases l) (auto intro: walks.absolute walks.relative split: if_splits)
        qed
      next
        case (RegularFile d m)
        with run dec Some have "cs = []" "p = cur @ [c]" "f = Some n" by (auto split: if_splits)
        with walks.final [OF name Some] RegularFile show ?thesis by simp
      next
        case SpecialFile
        with run dec Some have "cs = []" "p = cur @ [c]" "f = Some n" by (auto split: if_splits)
        with walks.final [OF name Some] SpecialFile show ?thesis by simp
      qed
    qed
  qed
qed

lemma walk_iff: "walk ns base l cur todo follow = Inr (p, f) \<longleftrightarrow> walks ns base follow l cur todo p f"
  using walk_walks walks_walk by blast

text \<open>What resolution reports at a place is what is there, and a missing place is missing.\<close>

lemma walks_node_at: "walks ns base follow l cur todo p f \<Longrightarrow> f = node_at ns p"
  by (induction rule: walks.induct) auto

lemma walk_node_at: "walk ns base l cur todo follow = Inr (p, f) \<Longrightarrow> node_at ns p = f"
  by (metis walk_walks walks_node_at)

lemma walk_missing_nonempty: "walk ns base l cur todo follow = Inr (p, None) \<Longrightarrow> p \<noteq> []"
  by (auto dest: walk_node_at)

text \<open>Putting something where a resolution found nothing is found by the same resolution.  A link
  must not be followed there, and a directory is entered.\<close>

lemma walks_insert:
  assumes "walks ns base follow l cur todo p f" "f = None"
    and new: "\<And>q. node_at ns' q = (if q = p then Some n else node_at ns q)"
    and kind: "\<not> IsLink n \<or> \<not> follow"
  shows "walks ns' base follow l cur todo p (Some n)"
  using assms(1,2) new
proof (induction rule: walks.induct)
  case (here l cur)
  then show ?case using walks.here [of ns' base follow l cur] by simp
next
  case (missing c cur l)
  have at: "node_at ns' (cur @ [c]) = Some n" using missing by simp
  have here: "walks ns' base follow l (cur @ [c]) [] (cur @ [c]) (Some n)"
    using walks.here [of ns' base follow l "cur @ [c]"] at by simp
  show ?case
    using missing at kind here
    by (cases n) (auto intro: walks.final walks.link walks.enter)
next
  case (enter c cur m l cs p f)
  then have "cur @ [c] \<noteq> p" using walks_node_at by fastforce
  with enter show ?case by (intro walks.enter [where m = m]) auto
next
  case (absolute c cur t cs l p f)
  then have "cur @ [c] \<noteq> p" using walks_node_at by fastforce
  with absolute show ?case by (intro walks.absolute [where t = t]) auto
next
  case (relative c cur t cs l p f)
  then have "cur @ [c] \<noteq> p" using walks_node_at by fastforce
  with relative show ?case by (intro walks.relative [where t = t]) auto
qed (auto intro: walks.skip walks.up)

text \<open>Resolution only looks at directories and links: two trees that agree on those resolve every
  path alike, whatever their files hold.\<close>

fun skeleton :: "node \<Rightarrow> node" where
  "skeleton (RegularFile _ _) = SpecialFile"
| "skeleton (Directory _) = Directory 0"
| "skeleton n = n"

lemma skeleton_simps [simp]:
  "skeleton n = Directory 0 \<longleftrightarrow> IsDir n" "skeleton n = SymLink t \<longleftrightarrow> n = SymLink t"
  "IsDir (skeleton n) = IsDir n" "IsLink (skeleton n) = IsLink n"
  by (cases n; simp)+

lemma IsDir_iff: "IsDir n \<longleftrightarrow> (\<exists>m. n = Directory m)"
  by (cases n) auto

lemma walks_same_skeleton:
  assumes "walks ns base follow l cur todo p f"
    and same: "\<And>q. map_option skeleton (node_at ns' q) = map_option skeleton (node_at ns q)"
  shows "walks ns' base follow l cur todo p (node_at ns' p)"
  using assms(1)
proof (induction rule: walks.induct)
  case (here l cur)
  then show ?case by (rule walks.here)
next
  case (missing c cur l)
  then show ?case using same [of "cur @ [c]"] by (auto intro: walks.missing)
next
  case (enter c cur m l cs p f)
  with same [of "cur @ [c]"] obtain m' where "node_at ns' (cur @ [c]) = Some (Directory m')"
    by (auto simp: IsDir_iff)
  with enter show ?case by (auto intro: walks.enter)
next
  case (link c cur t l)
  with same [of "cur @ [c]"] have "node_at ns' (cur @ [c]) = Some (SymLink t)" by auto
  with link show ?case using walks.link [of c ns' cur t follow base l] by simp
next
  case (absolute c cur t cs l p f)
  with same [of "cur @ [c]"] have "node_at ns' (cur @ [c]) = Some (SymLink t)" by auto
  with absolute show ?case by (auto intro: walks.absolute)
next
  case (relative c cur t cs l p f)
  with same [of "cur @ [c]"] have "node_at ns' (cur @ [c]) = Some (SymLink t)" by auto
  with relative show ?case by (auto intro: walks.relative)
next
  case (final c cur n l)
  with same [of "cur @ [c]"] obtain n' where "node_at ns' (cur @ [c]) = Some n'" "skeleton n' = skeleton n"
    by auto
  with final walks.final [of c ns' cur n' base follow l] skeleton_simps(3,4) show ?case by metis
qed (auto intro: walks.skip walks.up)

text \<open>Resolution in a root never leaves it.\<close>

lemma walks_confined:
  assumes "walks ns base follow l cur todo p f" "base = Some b" "prefix b cur"
  shows "prefix b p"
  using assms
proof (induction rule: walks.induct)
  case (up cur l cs p f)
  then have "prefix b (butlast cur)"
    by (auto simp: stays_in_def prefix_def) (metis append_butlast_last_id butlast_append length_append list.size(3) less_not_refl add_0_right)
  with up show ?case by simp
qed auto

definition only_below :: "place \<Rightarrow> filesystem \<Rightarrow> filesystem \<Rightarrow> bool" where
  "only_below b fs fs' \<longleftrightarrow> workdir fs' = workdir fs \<and> denied fs' = denied fs \<and>
     (\<forall>q. \<not> prefix b q \<longrightarrow> node_at (nodes fs') q = node_at (nodes fs) q)"

lemma only_below_refl [simp]: "only_below b fs fs"
  by (simp add: only_below_def)

lemma only_below_trans: "only_below b fs fs' \<Longrightarrow> only_below b fs' fs'' \<Longrightarrow> only_below b fs fs''"
  by (simp add: only_below_def)

lemma only_below_tokens [simp]: "only_below b fs (fs'\<lparr>tokens := ts\<rparr>) = only_below b fs fs'"
  by (simp add: only_below_def)

lemma only_below_put: "prefix b p \<Longrightarrow> p \<noteq> [] \<Longrightarrow> only_below b fs (put_node p n fs)"
  by (auto simp: only_below_def fs_simps)

lemma only_below_drop: "prefix b p \<Longrightarrow> p \<noteq> [] \<Longrightarrow> only_below b fs (drop_node p fs)"
  by (auto simp: only_below_def fs_simps)

lemma only_below_drop_tree: "prefix b p \<Longrightarrow> p \<noteq> [] \<Longrightarrow> only_below b fs (drop_tree p fs)"
  by (auto simp: only_below_def fs_simps dest: prefix_order.order_trans)

lemma must_exist_Inr [simp]:
  "must_exist fs what r = Inr (p, n) \<longleftrightarrow> r = Inr (p, Some n) \<and> denied fs what p = None"
  by (auto simp: must_exist_def split: option.splits)

lemma must_exist_run [simp]:
  "must_exist fs what (Inl e) = Inl e"
  "must_exist fs what (Inr (p, found)) =
     (case denied fs what p of Some e \<Rightarrow> Inl e
      | None \<Rightarrow> (case found of None \<Rightarrow> Inl ErrNotExist | Some n \<Rightarrow> Inr (p, n)))"
  by (simp_all add: must_exist_def)

lemma map_sum_Inr: "map_sum f g r = Inr y \<longleftrightarrow> (\<exists>x. r = Inr x \<and> g x = y)"
  by (cases r) auto

lemma os_Stat_Inr:
  "os_Stat fs path = Inr n \<longleftrightarrow> (\<exists>p. resolve fs path True = Inr (p, Some n) \<and> denied fs OpStat p = None)"
  by (auto simp: os_Stat_def map_sum_Inr)

lemma os_Lstat_Inr:
  "os_Lstat fs path = Inr n \<longleftrightarrow> (\<exists>p. resolve fs path False = Inr (p, Some n) \<and> denied fs OpLstat p = None)"
  by (auto simp: os_Lstat_def map_sum_Inr)

lemma os_ReadFile_Inr:
  "os_ReadFile fs path = Inr d \<longleftrightarrow>
     (\<exists>p m. resolve fs path True = Inr (p, Some (RegularFile d m)) \<and> denied fs OpOpen p = None)"
  by (auto simp: os_ReadFile_def read_node_def split: node.splits) (metis node.exhaust)

lemma os_ReadFile_regular:
  "resolve fs path True = Inr (p, Some (RegularFile d m)) \<Longrightarrow>
     os_ReadFile fs path = (case denied fs OpOpen p of None \<Rightarrow> Inr d | Some e \<Rightarrow> Inl e)"
  by (auto simp: os_ReadFile_def read_node_def split: option.splits)

lemma os_Readlink_Inr:
  "os_Readlink fs path = Inr t \<longleftrightarrow>
     (\<exists>p. resolve fs path False = Inr (p, Some (SymLink t)) \<and> denied fs OpReadlink p = None)"
  by (auto simp: os_Readlink_def split: node.splits) (metis node.exhaust)

text \<open>The changes, when they succeed.\<close>

lemma remove_at_Inr:
  "remove_at r fs = (Inr (), fs') \<longleftrightarrow>
     (\<exists>p n. r = Inr (p, Some n) \<and> denied fs OpRemove p = None \<and> p \<noteq> [] \<and>
        \<not> (IsDir n \<and> children (nodes fs) p \<noteq> []) \<and> fs' = drop_node p fs)"
  by (auto simp: remove_at_def split: sum.splits)

lemma create_at_Inr:
  "create_at what n r fs = (Inr p, fs') \<longleftrightarrow>
     r = Inr (p, None) \<and> denied fs what p = None \<and> fs' = put_node p n fs"
  by (auto simp: create_at_def split: sum.splits option.splits)

lemma create_at_Inl: "create_at what n r fs = (Inl e, fs') \<Longrightarrow> fs' = fs"
  by (auto simp: create_at_def split: sum.splits option.splits)

lemma change_file_Inr:
  "change_file what f r fs = (Inr (), fs') \<longleftrightarrow>
     (\<exists>p d m. r = Inr (p, Some (RegularFile d m)) \<and> denied fs what p = None \<and> fs' = put_node p (f d m) fs)"
  by (auto simp: change_file_def split: sum.splits node.splits)

lemma change_file_Inl: "change_file what f r fs = (Inl e, fs') \<Longrightarrow> fs' = fs"
  by (auto simp: change_file_def split: sum.splits node.splits)

lemma rename_at_Inl: "rename_at old new fs = (Inl e, fs') \<Longrightarrow> fs' = fs"
  by (auto simp: rename_at_def split: sum.splits option.splits if_splits)

lemma rename_at_Inr:
  "rename_at old new fs = (Inr (), fs') \<longleftrightarrow>
     (\<exists>p n q found. old = Inr (p, Some n) \<and> denied fs OpRename p = None \<and> new = Inr (q, found) \<and>
        \<not> IsDir n \<and> \<not> (\<exists>m \<in> set_option found. IsDir m) \<and> denied fs OpRename q = None \<and>
        fs' = (if p = q then fs else put_node q n (drop_node p fs)))"
  by (auto simp: rename_at_def split: sum.splits option.splits if_splits)

lemma walks_more_links:
  "walks ns base follow l cur todo p f \<Longrightarrow> l \<le> l' \<Longrightarrow> walks ns base follow l' cur todo p f"
proof (induction arbitrary: l' rule: walks.induct)
  case (here l cur)
  show ?case by (rule walks.here)
next
  case (absolute c cur t cs l p f)
  then obtain k where "l' = Suc k" "l \<le> k" by (cases l') auto
  with absolute show ?case by (auto intro: walks.absolute)
next
  case (relative c cur t cs l p f)
  then obtain k where "l' = Suc k" "l \<le> k" by (cases l') auto
  with relative show ?case by (auto intro: walks.relative)
qed (auto intro: walks.intros)

section \<open>Well-formed trees\<close>

text \<open>Every entry has a proper name and lies in a directory.\<close>

definition entry_ok :: "(place \<times> node) list \<Rightarrow> place \<Rightarrow> bool" where
  "entry_ok ns p \<longleftrightarrow> p = [] \<or>
     (plain_name (last p) \<and> CHR ''/'' \<notin> set (last p) \<and>
      (case node_at ns (butlast p) of Some (Directory _) \<Rightarrow> True | _ \<Rightarrow> False))"

definition wf_tree :: "(place \<times> node) list \<Rightarrow> bool" where
  "wf_tree ns \<longleftrightarrow> list_all (\<lambda>(p, _). entry_ok ns p) ns"

lemma wf_tree_entry:
  assumes "wf_tree ns" "node_at ns p = Some n"
  shows "entry_ok ns p"
  using assms
  by (cases "p = []") (auto simp: entry_ok_def wf_tree_def list_all_iff node_at_def dest: map_of_SomeD)

lemma wf_tree_parent:
  assumes "wf_tree ns" "node_at ns (p @ [c]) = Some n"
  shows "plain_name c" "CHR ''/'' \<notin> set c" "\<exists>m. node_at ns p = Some (Directory m)"
  using wf_tree_entry [OF assms]
  by (auto simp: entry_ok_def split: option.splits node.splits)

lemma wf_tree_names:
  assumes "wf_tree ns" "node_at ns p = Some n"
  shows "\<forall>c \<in> set p. plain_name c \<and> CHR ''/'' \<notin> set c"
  using assms(2)
proof (induction p arbitrary: n rule: rev_induct)
  case (snoc c p)
  with wf_tree_parent [OF assms(1) snoc.prems] show ?case by auto
qed simp

text \<open>In such a tree the names of a place lead to it, whatever is there.\<close>

lemma walks_place:
  assumes "wf_tree ns" "node_at ns (cur @ p) = Some n" "\<not> IsLink n" "node_at ns cur = Some (Directory m)"
  shows "walks ns None follow l cur p (cur @ p) (Some n)"
  using assms(2,4)
proof (induction p arbitrary: cur m)
  case Nil
  then show ?case using walks.here [of ns None follow l cur] by simp
next
  case (Cons c p)
  have name: "plain_name c" using wf_tree_names [OF assms(1) Cons.prems(1)] by simp
  show ?case
  proof (cases p)
    case Nil
    with Cons.prems(1) have at: "node_at ns (cur @ [c]) = Some n" by simp
    show ?thesis
    proof (cases "IsDir n")
      case False
      with Nil at name assms(3) show ?thesis using walks.final [OF name at, of None follow l] by simp
    next
      case True
      then obtain k where "n = Directory k" by (cases n) auto
      with Nil at name walks.here [of ns None follow l "cur @ [c]"] show ?thesis
        using walks.enter [OF name, of ns cur k None follow l "[]"] by simp
    qed
  next
    case (Cons d ds)
    have "\<exists>k. node_at ns (cur @ [c]) = Some (Directory k)"
    proof -
      have "\<exists>m'. node_at ns (cur @ c # as) = Some m' \<Longrightarrow> as \<noteq> [] \<Longrightarrow> \<exists>k. node_at ns (cur @ [c]) = Some (Directory k)"
        for as
      proof (induction as rule: rev_induct)
        case (snoc a as)
        then obtain k where k: "node_at ns (cur @ c # as) = Some (Directory k)"
          using wf_tree_parent(3) [OF assms(1), of "cur @ c # as" a] by auto
        with snoc.IH show ?case by (cases "as = []") auto
      qed simp
      with Cons.prems(1) Cons show ?thesis by blast
    qed
    then obtain k where k: "node_at ns (cur @ [c]) = Some (Directory k)" by blast
    with Cons.IH [of "cur @ [c]" k] Cons.prems(1) name show ?thesis
      by (auto intro: walks.enter)
  qed
qed

lemma Split_place_path:
  assumes "\<forall>c \<in> set p. CHR ''/'' \<notin> set c"
  shows "Split (place_path p) (CHR ''/'') = [] # (if p = [] then [[]] else p)"
  using Split_append_sep [of "CHR ''/''" "[]" "Join p ''/''"] assms
  by (auto simp: place_path_def Split_single Split_Join)

lemma IsAbs_place_path [simp]: "IsAbs (place_path p)"
  by (simp add: place_path_def)

lemma place_path_nonempty [simp]: "place_path p \<noteq> []"
  by (simp add: place_path_def)

lemma resolve_place_path:
  assumes "wf_tree (nodes fs)" "node_at (nodes fs) p = Some n" "\<not> IsLink n"
  shows "resolve fs (place_path p) follow = Inr (p, Some n)"
proof -
  have names: "\<forall>c \<in> set p. CHR ''/'' \<notin> set c" using wf_tree_names [OF assms(1,2)] by blast
  have w: "walks (nodes fs) None follow max_links [] p p (Some n)"
    using walks_place [OF assms(1) _ assms(3), of "[]" p 493] assms(2) by simp
  then have "walks (nodes fs) None follow max_links [] ([] # (if p = [] then [[]] else p)) p (Some n)"
    by (auto intro!: walks.skip)
  with names walks_walk show ?thesis by (simp add: resolve_def Split_place_path)
qed

lemma resolve_same_skeleton:
  assumes "resolve fs path follow = Inr (p, f)" "workdir fs' = workdir fs"
    and "\<And>q. map_option skeleton (node_at (nodes fs') q) = map_option skeleton (node_at (nodes fs) q)"
  shows "resolve fs' path follow = Inr (p, node_at (nodes fs') p)"
  using assms walks_same_skeleton [OF walk_walks] walks_walk
  by (auto simp: resolve_def split: if_splits)

lemma resolve_node_at: "resolve fs path follow = Inr (p, f) \<Longrightarrow> node_at (nodes fs) p = f"
  by (auto simp: resolve_def dest: walk_node_at split: if_splits)

lemma resolve_insert:
  assumes "resolve fs path follow = Inr (p, None)" "workdir fs' = workdir fs"
    and "\<And>q. node_at (nodes fs') q = (if q = p then Some n else node_at (nodes fs) q)"
    and "\<not> IsLink n \<or> \<not> follow"
  shows "resolve fs' path follow = Inr (p, Some n)"
  using assms walks_insert [OF walk_walks] walks_walk
  by (auto simp: resolve_def split: if_splits)

lemma resolve_missing_nonempty: "resolve fs path follow = Inr (p, None) \<Longrightarrow> p \<noteq> []"
  using resolve_node_at by fastforce

lemma resolve_tokens [simp]: "resolve (fs\<lparr>tokens := ts\<rparr>) path follow = resolve fs path follow"
  by (simp add: resolve_def)

lemma put_node_twice [simp]: "put_node p n (put_node p n' fs) = put_node p n fs"
  by (simp add: put_node_def)

lemma create_temp_Inr:
  assumes "create_temp dir stem ts fs = (Inr name, fs')"
  shows "\<exists>tp ts'. resolve fs name False = Inr (tp, None) \<and>
           fs' = put_node tp (RegularFile [] 384) fs \<lparr>tokens := ts'\<rparr>"
  using assms
proof (induction ts)
  case (Cons t ts)
  obtain r fs1 where c: "create_at OpCreate (RegularFile [] 384)
      (resolve fs (path_Join [dir, stem @ t]) False) fs = (r, fs1)" by fastforce
  show ?case
  proof (cases r)
    case (Inl e)
    with c have "fs1 = fs" by (auto dest: create_at_Inl)
    with Inl c Cons show ?thesis by (auto split: if_splits)
  next
    case (Inr p)
    with c Cons.prems have "name = path_Join [dir, stem @ t]" "fs' = fs1\<lparr>tokens := ts\<rparr>" by auto
    with c Inr show ?thesis by (auto simp: create_at_Inr)
  qed
qed simp

lemma create_temp_Inl:
  "create_temp dir stem ts fs = (Inl e, fs') \<Longrightarrow> \<exists>ts'. fs' = fs\<lparr>tokens := ts'\<rparr>"
proof (induction ts)
  case (Cons t ts)
  obtain r fs1 where c: "create_at OpCreate (RegularFile [] 384)
      (resolve fs (path_Join [dir, stem @ t]) False) fs = (r, fs1)" by fastforce
  show ?case
  proof (cases r)
    case (Inl e)
    with c have "fs1 = fs" by (auto dest: create_at_Inl)
    with Inl c Cons show ?thesis by (auto split: if_splits)
  next
    case (Inr p)
    with c Cons.prems show ?thesis by auto
  qed
qed auto

text \<open>New entries do not change how existing ones are reached.\<close>

lemma walks_extend:
  assumes "walks ns base follow l cur todo p f" "f \<noteq> None"
    and "\<And>q n. node_at ns q = Some n \<Longrightarrow> node_at ns' q = Some n"
  shows "walks ns' base follow l cur todo p f"
  using assms
proof (induction rule: walks.induct)
  case (here l cur)
  then show ?case using walks.here [of ns' base follow l cur] by fastforce
qed (auto intro: walks.intros)

lemma resolve_extend:
  assumes "resolve fs path follow = Inr (p, Some n)" "workdir fs' = workdir fs"
    and "\<And>q n. node_at (nodes fs) q = Some n \<Longrightarrow> node_at (nodes fs') q = Some n"
  shows "resolve fs' path follow = Inr (p, Some n)"
proof -
  from assms(1) have "path \<noteq> []" and w: "walks (nodes fs) None follow max_links
      (if IsAbs path then [] else workdir fs) (Split path (CHR ''/'')) p (Some n)"
    by (auto simp: resolve_def walk_iff split: if_splits)
  have "walks (nodes fs') None follow max_links
      (if IsAbs path then [] else workdir fs) (Split path (CHR ''/'')) p (Some n)"
    by (rule walks_extend [OF w]) (use assms(3) in simp_all)
  from walks_walk [OF this] \<open>path \<noteq> []\<close> assms(2) show ?thesis
    by (cases "IsAbs path") (simp_all add: resolve_def)
qed

inductive_cases walks_NilE: "walks ns base follow l cur [] p f"
inductive_cases walks_ConsE: "walks ns base follow l cur (c # cs) p f"

lemma walks_dest:
  assumes "walks ns base follow l cur (c # cs) p f"
  shows "c = [] \<or> c = ''.'' \<Longrightarrow> walks ns base follow l cur cs p f"
    and "c = ''..'' \<Longrightarrow> walks ns base follow l (butlast cur) cs p f"
    and "plain_name c \<Longrightarrow> node_at ns (cur @ [c]) = None \<Longrightarrow> p = cur @ [c]"
    and "plain_name c \<Longrightarrow> node_at ns (cur @ [c]) = Some (Directory m) \<Longrightarrow> walks ns base follow l (cur @ [c]) cs p f"
    and "plain_name c \<Longrightarrow> node_at ns (cur @ [c]) = Some (SymLink t) \<Longrightarrow> cs = [] \<and> \<not> follow \<Longrightarrow> p = cur @ [c]"
    and "plain_name c \<Longrightarrow> node_at ns (cur @ [c]) = Some (SymLink t) \<Longrightarrow> \<not> (cs = [] \<and> \<not> follow) \<Longrightarrow>
           \<exists>k. l = Suc k \<and> walks ns base follow k (if IsAbs t then [] else cur) (Split t (CHR ''/'') @ cs) p f"
    and "plain_name c \<Longrightarrow> node_at ns (cur @ [c]) = Some n \<Longrightarrow> \<not> IsDir n \<Longrightarrow> \<not> IsLink n \<Longrightarrow> p = cur @ [c]"
  using assms by - (erule walks_ConsE; force simp: plain_name_def)+

text \<open>After an entry is dropped, the path that led to it leads to the same, now missing, place or
  nowhere.\<close>

lemma walks_drop:
  assumes "walks ns base follow l cur todo p f" "p \<noteq> []"
    and at: "\<And>q. node_at ns' q = (if q = p then None else node_at ns q)"
    and "walks ns' base follow l cur todo p' f'"
  shows "p' = p"
  using assms
proof (induction rule: walks.induct)
  case (here l cur)
  then show ?case by (auto elim: walks_NilE)
next
  case (skip c l cur cs p f)
  then show ?case using walks_dest(1) by blast
next
  case (up cur l cs p f)
  then show ?case using walks_dest(2) by blast
next
  case (missing c cur l)
  have "node_at ns' (cur @ [c]) = None" by (subst missing.prems(2)) simp
  with missing show ?case using walks_dest(3) by blast
next
  case (enter c cur m l cs p f)
  show ?case
  proof (cases "cur @ [c] = p")
    case True
    then have "node_at ns' (cur @ [c]) = None" by (subst enter.prems(2)) simp
    with True enter show ?thesis using walks_dest(3) by blast
  next
    case False
    then have "node_at ns' (cur @ [c]) = Some (Directory m)" using enter.hyps(2) by (subst enter.prems(2)) simp
    with enter show ?thesis using walks_dest(4) by blast
  qed
next
  case (link c cur t l)
  have "node_at ns' (cur @ [c]) = None" by (subst link.prems(2)) simp
  with link show ?case using walks_dest(3) by blast
next
  case (absolute c cur t cs l p f)
  show ?case
  proof (cases "cur @ [c] = p")
    case True
    then have "node_at ns' (cur @ [c]) = None" by (subst absolute.prems(2)) simp
    with True absolute show ?thesis using walks_dest(3) by blast
  next
    case False
    then have "node_at ns' (cur @ [c]) = Some (SymLink t)" using absolute.hyps(2) by (subst absolute.prems(2)) simp
    from walks_dest(6) [OF absolute.prems(3) absolute.hyps(1) this] absolute.hyps(3,4)
    have "walks ns' base follow l [] (Split t (CHR ''/'') @ cs) p' f'" by auto
    with absolute.IH absolute.prems(1,2) show ?thesis by blast
  qed
next
  case (relative c cur t cs l p f)
  show ?case
  proof (cases "cur @ [c] = p")
    case True
    then have "node_at ns' (cur @ [c]) = None" by (subst relative.prems(2)) simp
    with True relative show ?thesis using walks_dest(3) by blast
  next
    case False
    then have "node_at ns' (cur @ [c]) = Some (SymLink t)" using relative.hyps(2) by (subst relative.prems(2)) simp
    from walks_dest(6) [OF relative.prems(3) relative.hyps(1) this] relative.hyps(3,4)
    have "walks ns' base follow l cur (Split t (CHR ''/'') @ cs) p' f'" by auto
    with relative.IH relative.prems(1,2) show ?thesis by blast
  qed
next
  case (final c cur n l)
  have "node_at ns' (cur @ [c]) = None" by (subst final.prems(2)) simp
  with final show ?case using walks_dest(3) by blast
qed

lemma resolve_drop:
  assumes "resolve fs path follow = Inr (p, f)" "p \<noteq> []"
    and "resolve (drop_node p fs) path follow = Inr (p', f')"
  shows "p' = p"
proof -
  let ?start = "if IsAbs path then [] else workdir fs"
  have 1: "walks (nodes fs) None follow max_links ?start (Split path (CHR ''/'')) p f"
    using assms(1) by (auto simp: resolve_def walk_iff split: if_splits)
  have 2: "walks (nodes (drop_node p fs)) None follow max_links ?start (Split path (CHR ''/'')) p' f'"
    using assms(3) by (auto simp: resolve_def walk_iff split: if_splits)
  show ?thesis by (rule walks_drop [OF 1 assms(2) _ 2]) (simp add: fs_simps assms(2))
qed

lemma cleaned_place_path:
  assumes "\<forall>c \<in> set p. plain_name c \<and> CHR ''/'' \<notin> set c"
  shows "cleaned (place_path p) = p"
  unfolding place_path_def
  by (rule cleaned_rooted_Join, rule clean_listI [where n = 0 and rest = p])
    (use assms in \<open>auto simp: plain_name_def proper_comp_def\<close>)

section \<open>A tree to evaluate on\<close>

definition quiet_fs :: "(place \<times> node) list \<Rightarrow> filesystem" where
  "quiet_fs ns = \<lparr>nodes = ns, workdir = [], denied = (\<lambda>_ _. None), tokens = [''1'', ''2'', ''3'', ''4'']\<rparr>"

definition sample_fs :: filesystem where
  "sample_fs = quiet_fs
     [([''etc''], Directory 493), ([''etc'', ''zabbix''], Directory 493),
      ([''etc'', ''zabbix'', ''agent.conf''], RegularFile ''Server=a'' 416),
      ([''conf''], SymLink ''etc/zabbix''), ([''etc'', ''agent''], SymLink ''../conf/agent.conf''),
      ([''tmp''], Directory 511)]"

end
