(* ===== verification/Files.thy ===== *)
theory Files
  imports Environment OS
begin

text \<open>
  The file helpers of \<open>internal/bootstrap/files.go\<close> and the directory checks of
  \<open>environment.go\<close>, over the operating system of \<open>OS\<close>.  The decompressor of
  \<open>compress/gzip\<close> is an argument of \<open>ReadSQLFile\<close>.  Error messages keep the format string
  and the arguments of the code.
\<close>

section \<open>Definitions\<close>

definition SecretsDir :: string where "SecretsDir = ''/run/secrets''"
definition WebCertsDir :: string where "WebCertsDir = ''/etc/zabbix/web/certs''"

definition ResolveFile :: "string \<Rightarrow> string \<Rightarrow> string result" where
  "ResolveFile v defaultDir =
     (if v = [] then Inl (Errorf ''file path is empty'' [])
      else if IsAbs v then Inr (Clean v)
      else
        (let path = Clean v in
         if path = ''.'' \<or> path = ''..'' \<or> HasPrefix path ''../''
         then Inl (Errorf ''relative path %q escapes the default directory'' [v])
         else Inr (path_Join [defaultDir, path])))"

definition ResolveFileEnv :: "string \<Rightarrow> string \<Rightarrow> (environment, unit) eff" where
  "ResolveFileEnv name defaultDir env =
     (let v = env_get env name in
      if v = [] then (Inr (), env)
      else (case ResolveFile v defaultDir of
              Inl e \<Rightarrow> (Inl (Wrapf ''%s: %w'' [name] e), env)
            | Inr path \<Rightarrow> (Inr (), env_set env name path)))"

definition validateDir :: "filesystem \<Rightarrow> string \<Rightarrow> unit result" where
  "validateDir fs dir =
     (if dir = [] then Inl (Errorf ''must be set'' [])
      else (case os_Stat fs dir of
              Inl e \<Rightarrow> Inl (Wrapf ''access %q: %w'' [dir] e)
            | Inr info \<Rightarrow> if IsDir info then Inr () else Inl (Errorf ''%q is not a directory'' [dir])))"

definition requiredDir :: "filesystem \<Rightarrow> environment \<Rightarrow> string \<Rightarrow> string result" where
  "requiredDir fs env name =
     (case validateDir fs (env_get env name) of
        Inl e \<Rightarrow> Inl (Wrapf ''%s: %w'' [name] e)
      | Inr _ \<Rightarrow> Inr (env_get env name))"

definition RequiredHomeDir :: "filesystem \<Rightarrow> environment \<Rightarrow> string result" where
  "RequiredHomeDir fs env = requiredDir fs env ''ZABBIX_USER_HOME_DIR''"

definition RequiredConfigDir :: "filesystem \<Rightarrow> environment \<Rightarrow> string result" where
  "RequiredConfigDir fs env = requiredDir fs env ''ZABBIX_CONF_DIR''"

definition CommonDirs :: "filesystem \<Rightarrow> environment \<Rightarrow> (string \<times> string) result" where
  "CommonDirs fs env =
     bind_res (RequiredHomeDir fs env) (\<lambda>home.
     bind_res (RequiredConfigDir fs env) (\<lambda>config. Inr (home, config)))"

definition ReplaceSymlink :: "string \<Rightarrow> string \<Rightarrow> (filesystem, unit) eff" where
  "ReplaceSymlink source target fs =
     (case os_Stat fs source of
        Inl e \<Rightarrow> (if errors_Is e ErrNotExist then Inl (Wrapf ''%w: %s'' [source] ErrMissingSymlinkSource)
                 else Inl e, fs)
      | Inr info \<Rightarrow>
          if \<not> IsRegular info then (Inl (Errorf ''symlink source %s is not a regular file'' [source]), fs)
          else
            (case os_Lstat fs target of
               Inr t \<Rightarrow>
                 if IsDir t then (Inl (Errorf ''symlink target %s is a directory'' [target]), fs)
                 else (case os_Remove target fs of
                         (Inl e, fs') \<Rightarrow> (Inl e, fs')
                       | (Inr _, fs') \<Rightarrow> os_Symlink source target fs')
             | Inl e \<Rightarrow> if e \<noteq> ErrNotExist then (Inl e, fs) else os_Symlink source target fs))"

definition RemoveMatchingSymlink :: "string \<Rightarrow> string \<Rightarrow> (filesystem, unit) eff" where
  "RemoveMatchingSymlink source target fs =
     (case os_Lstat fs target of
        Inl e \<Rightarrow> (if e = ErrNotExist then Inr () else Inl e, fs)
      | Inr info \<Rightarrow>
          if \<not> IsLink info then (Inr (), fs)
          else (case os_Readlink fs target of
                  Inl e \<Rightarrow> (Inl e, fs)
                | Inr link \<Rightarrow> if link \<noteq> source then (Inr (), fs) else os_Remove target fs))"

definition bootstrap_RegularFile :: "filesystem \<Rightarrow> string \<Rightarrow> bool" where
  "bootstrap_RegularFile fs path =
     (case os_Stat fs path of Inl _ \<Rightarrow> False | Inr info \<Rightarrow> IsRegular info)"

definition ReadSQLFile :: "(string \<Rightarrow> string result) \<Rightarrow> filesystem \<Rightarrow> string \<Rightarrow> string result" where
  "ReadSQLFile gunzip fs path =
     (case os_ReadFile fs path of
        Inl e \<Rightarrow> Inl e
      | Inr data \<Rightarrow>
          if HasSuffix path ''.gz''
          then wrap_res ''open compressed file %s: %w'' [path] (gunzip data)
          else Inr data)"

text \<open>An operation on an open file that only fails or succeeds.\<close>

definition touch_file :: "sysop \<Rightarrow> string \<Rightarrow> (filesystem, unit) eff" where
  "touch_file what name fs =
     (map_sum id (\<lambda>_. ()) (must_exist fs what (resolve fs name False)), fs)"

text \<open>The steps of \<open>WriteFilePreservingMode\<close> on the open temporary file.\<close>

definition write_temporary :: "string \<Rightarrow> string \<Rightarrow> nat \<Rightarrow> string \<Rightarrow> (filesystem, unit) eff" where
  "write_temporary temporary resolvedPath perm data =
     bind_eff (\<lambda>s. change_file OpChmod (\<lambda>d _. RegularFile d perm) (resolve s temporary False) s) (\<lambda>_.
     bind_eff (\<lambda>s. change_file OpWrite (\<lambda>_ m. RegularFile data m) (resolve s temporary False) s) (\<lambda>_.
     bind_eff (touch_file OpSync temporary) (\<lambda>_.
     bind_eff (touch_file OpClose temporary) (\<lambda>_.
     os_Rename temporary resolvedPath))))"

definition WriteFilePreservingMode :: "string \<Rightarrow> string \<Rightarrow> (filesystem, unit) eff" where
  "WriteFilePreservingMode path data fs =
     (case EvalSymlinks fs path of
        Inl e \<Rightarrow> (Inl e, fs)
      | Inr resolvedPath \<Rightarrow>
          (case os_Stat fs resolvedPath of
             Inl e \<Rightarrow> (Inl e, fs)
           | Inr info \<Rightarrow>
               (case os_CreateTemp (path_Dir resolvedPath) (''.'' @ path_Base resolvedPath @ ''.tmp-'') fs of
                  (Inl e, fs1) \<Rightarrow> (Inl e, fs1)
                | (Inr temporary, fs1) \<Rightarrow>
                    (case write_temporary temporary resolvedPath (node_perm info) data fs1 of
                       (r, fs2) \<Rightarrow> (r, snd (os_Remove temporary fs2))))))"

definition editFile :: "string \<Rightarrow> (string \<Rightarrow> string) \<Rightarrow> (filesystem, unit) eff" where
  "editFile path edit fs =
     (if \<not> bootstrap_RegularFile fs path then (Inr (), fs)
      else (case os_ReadFile fs path of
              Inl e \<Rightarrow> (Inl e, fs)
            | Inr data \<Rightarrow> WriteFilePreservingMode path (edit data) fs))"

definition RemoveLinesContaining :: "string \<Rightarrow> string \<Rightarrow> (filesystem, unit) eff" where
  "RemoveLinesContaining path v =
     editFile path (\<lambda>content.
       Join (filter (\<lambda>line. \<not> Contains line v) (Split content (CHR 0x0A))) [CHR 0x0A])"

text \<open>The replacements of \<open>ReplaceInFile\<close> are a Go map; the list is the order of its
  iteration.\<close>

definition ReplaceInFile :: "string \<Rightarrow> (string \<times> string) list \<Rightarrow> (filesystem, unit) eff" where
  "ReplaceInFile path replacements =
     editFile path (\<lambda>content.
       fold (\<lambda>(old, new) text. ReplaceAll text old new) replacements content)"

section \<open>Replacing a file\<close>

text \<open>The steps between creating the temporary file and removing it.\<close>

lemma resolve_put_file:
  assumes "resolve fs name False = Inr (p, Some (RegularFile d m))" "p \<noteq> []"
  shows "resolve (put_node p (RegularFile d' m') fs) name False = Inr (p, Some (RegularFile d' m'))"
  using resolve_same_skeleton [OF assms(1), of "put_node p (RegularFile d' m') fs"] assms
  by (auto simp: fs_simps dest: resolve_node_at)

lemma touch_file_run: "touch_file what name fs = (r, fs') \<Longrightarrow> fs' = fs"
  by (auto simp: touch_file_def)

lemma write_temporary_Inr:
  assumes "write_temporary name target perm data fs = (Inr (), fs')"
    and "resolve fs name False = Inr (tp, Some (RegularFile d m))" "tp \<noteq> []"
  defines "full \<equiv> put_node tp (RegularFile data perm) fs"
  shows "\<exists>q found. resolve full target False = Inr (q, found) \<and>
           fs' = (if tp = q then full else put_node q (RegularFile data perm) (drop_node tp full))"
proof -
  let ?fs1 = "put_node tp (RegularFile d perm) fs"
  note r1 = resolve_put_file [OF assms(2,3), of d perm]
  have r2: "resolve full name False = Inr (tp, Some (RegularFile data perm))"
    using resolve_put_file [OF assms(2,3), of data perm] by (simp add: full_def)
  have "put_node tp (RegularFile data perm) ?fs1 = full" by (simp add: full_def)
  with assms(1) have "os_Rename name target full = (Inr (), fs')"
    unfolding write_temporary_def
    by (auto simp: bind_eff_Inr change_file_Inr assms(2) r1 dest!: touch_file_run)
  then show ?thesis unfolding os_Rename_def r2 rename_at_Inr by auto
qed

lemma write_temporary_Inl:
  assumes "write_temporary name target perm data fs = (Inl e, fs')"
    and "resolve fs name False = Inr (tp, Some (RegularFile d m))" "tp \<noteq> []"
  shows "fs' = fs \<or> (\<exists>d' m'. fs' = put_node tp (RegularFile d' m') fs)"
proof -
  define rest where "rest = bind_eff (touch_file OpSync name) (\<lambda>_. bind_eff (touch_file OpClose name) (\<lambda>_. os_Rename name target))"
  have rest: "s' = s" if "rest s = (Inl e, s')" for s s'
    using that by (auto simp: rest_def bind_eff_Inl os_Rename_def dest!: touch_file_run rename_at_Inl)
  define wr where "wr = (\<lambda>s. change_file OpWrite (\<lambda>_ m. RegularFile data m) (resolve s name False) s)"
  have wr: "s' = s \<or> s' = put_node tp (RegularFile data k) s"
    if "bind_eff wr (\<lambda>_. rest) s = (Inl e, s')" "resolve s name False = Inr (tp, Some (RegularFile c k))" for s s' c k
    using that rest by (auto simp: bind_eff_Inl wr_def change_file_Inr dest: change_file_Inl)
  from assms(1) consider "fs' = fs"
    | fs1 where "fs1 = put_node tp (RegularFile d perm) fs" "bind_eff wr (\<lambda>_. rest) fs1 = (Inl e, fs')"
    unfolding write_temporary_def rest_def wr_def
    by (subst (asm) bind_eff_Inl) (auto simp: change_file_Inr assms(2) dest: change_file_Inl)
  then show ?thesis
  proof cases
    case 2
    with wr [OF 2(2)] resolve_put_file [OF assms(2,3)] show ?thesis by fastforce
  qed simp
qed

lemma EvalSymlinks_Inr:
  "EvalSymlinks fs path = Inr rp \<Longrightarrow>
     \<exists>p n. path \<noteq> [] \<and> walk (nodes fs) None 255 (if IsAbs path then [] else workdir fs)
             (Split path (CHR ''/'')) True = Inr (p, Some n) \<and> rp = place_path p"
  by (auto simp: EvalSymlinks_def map_sum_Inr split: if_splits)

lemma EvalSymlinks_resolve:
  assumes "resolve fs path True = Inr (p, Some n)" "EvalSymlinks fs path = Inr rp"
  shows "rp = place_path p"
proof -
  from assms(1) have "walks (nodes fs) None True max_links (if IsAbs path then [] else workdir fs)
      (Split path (CHR ''/'')) p (Some n)" "path \<noteq> []"
    by (auto simp: resolve_def walk_iff split: if_splits)
  then have "walk (nodes fs) None 255 (if IsAbs path then [] else workdir fs)
      (Split path (CHR ''/'')) True = Inr (p, Some n)"
    by (intro walks_walk, elim walks_more_links) (simp add: max_links_def)
  with EvalSymlinks_Inr [OF assms(2)] show ?thesis by auto
qed

lemma WriteFilePreservingMode_steps:
  assumes "WriteFilePreservingMode path data fs = (r, fs')"
  obtains (early) e ts where "r = Inl e" "fs' = fs\<lparr>tokens := ts\<rparr>"
  | (steps) rp info name tp fs1 fs2 where
      "EvalSymlinks fs path = Inr rp" "os_Stat fs rp = Inr info"
      "resolve fs name False = Inr (tp, None)" "tp \<noteq> []" "node_at (nodes fs) tp = None"
      "\<And>q. node_at (nodes fs1) q = (if q = tp then Some (RegularFile [] 384) else node_at (nodes fs) q)"
      "workdir fs1 = workdir fs"
      "resolve fs1 name False = Inr (tp, Some (RegularFile [] 384))"
      "write_temporary name rp (node_perm info) data fs1 = (r, fs2)"
      "fs' = snd (os_Remove name fs2)"
proof (cases "EvalSymlinks fs path")
  case (Inl e)
  with assms early [of e "tokens fs"] show ?thesis by (simp add: WriteFilePreservingMode_def)
next
  case rp: (Inr rp)
  show ?thesis
  proof (cases "os_Stat fs rp")
    case (Inl e)
    with rp assms early [of e "tokens fs"] show ?thesis by (simp add: WriteFilePreservingMode_def)
  next
    case info: (Inr info)
    obtain c fs1 where c: "os_CreateTemp (path_Dir rp) (''.'' @ path_Base rp @ ''.tmp-'') fs = (c, fs1)"
      by fastforce
    show ?thesis
    proof (cases c)
      case (Inl e)
      with c create_temp_Inl obtain ts where "fs1 = fs\<lparr>tokens := ts\<rparr>" unfolding os_CreateTemp_def by blast
      moreover have "r = Inl e" "fs' = fs1"
        using assms rp info c Inl by (auto simp: WriteFilePreservingMode_def)
      ultimately show ?thesis using early by blast
    next
      case (Inr name)
      with c create_temp_Inr obtain tp ts where t: "resolve fs name False = Inr (tp, None)"
        "fs1 = put_node tp (RegularFile [] 384) fs\<lparr>tokens := ts\<rparr>" unfolding os_CreateTemp_def by blast
      obtain r2 fs2 where w: "write_temporary name rp (node_perm info) data fs1 = (r2, fs2)" by fastforce
      have "r = r2" "fs' = snd (os_Remove name fs2)"
        using assms rp info c Inr w by (auto simp: WriteFilePreservingMode_def)
      moreover have tp: "tp \<noteq> []" "node_at (nodes fs) tp = None"
        using t(1) resolve_missing_nonempty resolve_node_at by blast+
      moreover from tp have at1:
        "node_at (nodes fs1) q = (if q = tp then Some (RegularFile [] 384) else node_at (nodes fs) q)" for q
        by (simp add: t(2) fs_simps)
      moreover have "resolve fs1 name False = Inr (tp, Some (RegularFile [] 384))"
        by (rule resolve_insert [OF t(1) _ at1]) (simp_all add: t(2))
      moreover have "workdir fs1 = workdir fs" by (simp add: t(2))
      ultimately show ?thesis using steps rp info t(1) w by metis
    qed
  qed
qed

text \<open>Removing the temporary file at the end touches nothing else.\<close>

lemma os_Remove_at:
  assumes "resolve fs name False = Inr (tp, f)"
  shows "snd (os_Remove name fs) = fs \<or> snd (os_Remove name fs) = drop_node tp fs"
    and "f = None \<Longrightarrow> snd (os_Remove name fs) = fs"
  using assms by (auto simp: os_Remove_def remove_at_def split: option.splits)

text \<open>C9: a successful \<open>WriteFilePreservingMode\<close> replaces the contents of the regular file that
  the path leads to, through links, keeps its permission bits, and leaves every other entry of
  the tree as it was; the temporary file is gone.\<close>

theorem WriteFilePreservingMode_replaces:
  assumes "wf_tree (nodes fs)"
    and "resolve fs path True = Inr (p, Some (RegularFile d m))"
    and "WriteFilePreservingMode path data fs = (Inr (), fs')"
  shows "resolve fs' path True = Inr (p, Some (RegularFile data m)) \<and>
         (\<forall>q. q \<noteq> p \<longrightarrow> node_at (nodes fs') q = node_at (nodes fs) q)"
  using assms(3)
proof (cases rule: WriteFilePreservingMode_steps)
  case (steps rp info name tp fs1 fs2)
  have p: "node_at (nodes fs) p = Some (RegularFile d m)" using assms(2) by (rule resolve_node_at)
  then have ptp: "tp \<noteq> p" "p \<noteq> []" using steps(5) by auto
  have rp: "rp = place_path p" using EvalSymlinks_resolve assms(2) steps(1) by blast
  have target: "resolve fs rp follow = Inr (p, Some (RegularFile d m))" for follow
    using resolve_place_path [OF assms(1) p] rp by simp
  then have info: "node_perm info = m" using steps(2) by (auto simp: os_Stat_Inr)
  define full where "full = put_node tp (RegularFile data m) fs1"
  have "resolve full rp False = Inr (p, Some (RegularFile d m))"
    by (rule resolve_extend [OF target]) (use steps(4-7) in \<open>auto simp: full_def fs_simps\<close>)
  then have fs2: "fs2 = put_node p (RegularFile data m) (drop_node tp full)"
    using write_temporary_Inr [OF steps(9,8,4)] ptp info by (auto simp: full_def)
  have at2: "node_at (nodes fs2) q = (if q = p then Some (RegularFile data m) else node_at (nodes fs) q)" for q
    using ptp steps(4-6) by (auto simp: fs2 full_def fs_simps)
  have wd: "workdir fs2 = workdir fs" using steps(7) by (simp add: fs2 full_def)
  have skel: "map_option skeleton (node_at (nodes fs2) q) = map_option skeleton (node_at (nodes fs) q)" for q
    using p by (simp add: at2)
  have "resolve fs2 name False = Inr (tp, None)"
    using resolve_same_skeleton [OF steps(3) wd skel] at2 [of tp] ptp steps(5) by simp
  then have "fs' = fs2" using os_Remove_at(2) steps(10) by simp
  with resolve_same_skeleton [OF assms(2) wd skel] at2 show ?thesis by simp
qed simp

lemma WriteFilePreservingMode_replaces_witness:
  "let fs' = snd (WriteFilePreservingMode ''/etc/agent'' ''Server=b'' sample_fs) in
   resolve fs' ''/etc/agent'' True = Inr ([''etc'', ''zabbix'', ''agent.conf''], Some (RegularFile ''Server=b'' 416))"
proof -
  have 1: "wf_tree (nodes sample_fs)" by code_simp
  have 2: "resolve sample_fs ''/etc/agent'' True = Inr ([''etc'', ''zabbix'', ''agent.conf''], Some (RegularFile ''Server=a'' 416))"
    by code_simp
  have "fst (WriteFilePreservingMode ''/etc/agent'' ''Server=b'' sample_fs) = Inr ()" by code_simp
  then have 3: "WriteFilePreservingMode ''/etc/agent'' ''Server=b'' sample_fs =
      (Inr (), snd (WriteFilePreservingMode ''/etc/agent'' ''Server=b'' sample_fs))"
    by (metis prod.collapse)
  from WriteFilePreservingMode_replaces [OF 1 2 3] show ?thesis by (simp add: Let_def)
qed

text \<open>C10: when \<open>WriteFilePreservingMode\<close> fails, at whatever step, every file that existed is
  still there with its contents and mode.\<close>

theorem WriteFilePreservingMode_atomic:
  assumes "WriteFilePreservingMode path data fs = (Inl e, fs')"
    and "node_at (nodes fs) q = Some n"
  shows "node_at (nodes fs') q = Some n"
  using assms(1)
proof (cases rule: WriteFilePreservingMode_steps)
  case early
  with assms(2) show ?thesis by simp
next
  case (steps rp info name tp fs1 fs2)
  have "\<exists>d' m'. node_at (nodes fs2) q = (if q = tp then Some (RegularFile d' m') else node_at (nodes fs) q) \<and>
          resolve fs2 name False = Inr (tp, Some (RegularFile d' m'))" for q
    using write_temporary_Inl [OF steps(9,8,4)] resolve_put_file [OF steps(8,4)] steps(4,6,8)
    by (auto simp: fs_simps)
  then obtain d' m' where fs2: "node_at (nodes fs2) q = (if q = tp then Some (RegularFile d' m') else node_at (nodes fs) q)"
      "resolve fs2 name False = Inr (tp, Some (RegularFile d' m'))" by blast
  have "fs' = fs2 \<or> fs' = drop_node tp fs2"
    using os_Remove_at(1) [OF fs2(2)] steps(10) by simp
  with assms(2) steps(4,5) fs2(1) show ?thesis by (auto simp: fs_simps)
qed

lemma WriteFilePreservingMode_atomic_witness:
  "let fs = sample_fs\<lparr>denied := (\<lambda>what p. if what = OpSync then Some (SysError ''input/output error'') else None)\<rparr> in
   fst (WriteFilePreservingMode ''/etc/agent'' ''Server=b'' fs) = Inl (SysError ''input/output error'') \<and>
   node_at (nodes (snd (WriteFilePreservingMode ''/etc/agent'' ''Server=b'' fs))) [''etc'', ''zabbix'', ''agent.conf''] =
     Some (RegularFile ''Server=a'' 416)"
proof -
  let ?fs = "sample_fs\<lparr>denied := (\<lambda>what p. if what = OpSync then Some (SysError ''input/output error'') else None)\<rparr>"
  have 1: "fst (WriteFilePreservingMode ''/etc/agent'' ''Server=b'' ?fs) = Inl (SysError ''input/output error'')"
    by code_simp
  then have 2: "WriteFilePreservingMode ''/etc/agent'' ''Server=b'' ?fs =
      (Inl (SysError ''input/output error''), snd (WriteFilePreservingMode ''/etc/agent'' ''Server=b'' ?fs))"
    by (metis prod.collapse)
  have 3: "node_at (nodes ?fs) [''etc'', ''zabbix'', ''agent.conf''] = Some (RegularFile ''Server=a'' 416)"
    by code_simp
  from 1 WriteFilePreservingMode_atomic [OF 2 3] show ?thesis by (simp add: Let_def)
qed

section \<open>Resolving file names\<close>

lemma cleaned_relative_dots:
  assumes "\<not> IsAbs v" "Clean v \<noteq> ''.''" "Clean v \<noteq> ''..''" "\<not> HasPrefix (Clean v) ''../''"
  shows "cleaned v \<noteq> []" "''..'' \<notin> set (cleaned v)"
proof -
  show ne: "cleaned v \<noteq> []" using assms(1,2) by (auto simp: Clean_def)
  then have c: "Clean v = Join (cleaned v) ''/''" using assms(1) by (simp add: Clean_def)
  from clean_list_cleaned [of v] obtain n rest where
    cs: "cleaned v = replicate n ''..'' @ rest" "''..'' \<notin> set rest"
    unfolding clean_list_def by blast
  have "n = 0"
  proof (rule ccontr)
    assume "n \<noteq> 0"
    then obtain k where "n = Suc k" by (cases n) auto
    with cs obtain tl where tl: "cleaned v = ''..'' # tl" by simp
    with c assms(3,4) show False by (cases tl) (auto simp: HasPrefix_def Join_Cons)
  qed
  with cs show "''..'' \<notin> set (cleaned v)" by simp
qed

text \<open>\<open>ResolveFile\<close> never lets a relative name leave the default directory: what it returns
  has the directory's elements as a proper prefix and no parent reference after them.\<close>

theorem ResolveFile_confined:
  assumes "ResolveFile v dir = Inr path" "\<not> IsAbs v" "dir \<noteq> []"
  shows "\<exists>rest. rest \<noteq> [] \<and> ''..'' \<notin> set rest \<and> cleaned path = cleaned dir @ rest \<and> IsAbs path = IsAbs dir"
proof -
  from assms(1,2) have v: "Clean v \<noteq> ''.''" "Clean v \<noteq> ''..''" "\<not> HasPrefix (Clean v) ''../''"
    "path = path_Join [dir, Clean v]"
    by (auto simp: ResolveFile_def Let_def split: if_splits)
  note rest = cleaned_relative_dots [OF assms(2) v(1-3)]
  have c: "Clean v = Join (cleaned v) ''/''" using assms(2) rest(1) by (simp add: Clean_def)
  have "clean_list False (cleaned v)" using clean_list_cleaned [of v] assms(2) by simp
  note j = cleaned_path_Join [OF assms(3) this rest(2,1)]
  have "IsAbs path = IsAbs dir" unfolding v(4) c j(1) using assms(3) by simp
  with rest j(2) show ?thesis unfolding v(4) c by blast
qed

lemma ResolveFile_confined_witness:
  "cleaned ''/etc/zabbix/web/certs/sso/sp.key'' = cleaned WebCertsDir @ [''sso'', ''sp.key''] \<and>
   (\<exists>rest. rest \<noteq> [] \<and> ''..'' \<notin> set rest \<and>
     cleaned ''/etc/zabbix/web/certs/sso/sp.key'' = cleaned WebCertsDir @ rest \<and>
     IsAbs ''/etc/zabbix/web/certs/sso/sp.key'' = IsAbs WebCertsDir)"
proof
  show "cleaned ''/etc/zabbix/web/certs/sso/sp.key'' = cleaned WebCertsDir @ [''sso'', ''sp.key'']"
    by code_simp
  have 1: "ResolveFile ''./sso/x/../sp.key'' WebCertsDir = Inr ''/etc/zabbix/web/certs/sso/sp.key''"
    by code_simp
  have 2: "\<not> IsAbs ''./sso/x/../sp.key''" "WebCertsDir \<noteq> []" by (code_simp, simp add: WebCertsDir_def)
  show "\<exists>rest. rest \<noteq> [] \<and> ''..'' \<notin> set rest \<and>
     cleaned ''/etc/zabbix/web/certs/sso/sp.key'' = cleaned WebCertsDir @ rest \<and>
     IsAbs ''/etc/zabbix/web/certs/sso/sp.key'' = IsAbs WebCertsDir"
    by (rule ResolveFile_confined [OF 1 2])
qed

section \<open>Links\<close>

lemma os_Symlink_links:
  assumes "os_Symlink source target fs = (Inr (), fs')"
  shows "\<exists>p. resolve fs target False = Inr (p, None) \<and>
           resolve fs' target False = Inr (p, Some (SymLink source)) \<and>
           (\<forall>q. q \<noteq> p \<longrightarrow> node_at (nodes fs') q = node_at (nodes fs) q)"
proof -
  from assms obtain p where p: "resolve fs target False = Inr (p, None)" "fs' = put_node p (SymLink source) fs"
    by (auto simp: os_Symlink_def map_prod_def map_sum_Inr create_at_Inr split: if_splits prod.splits)
  then have "p \<noteq> []" using resolve_missing_nonempty by blast
  then have at: "node_at (nodes fs') q = (if q = p then Some (SymLink source) else node_at (nodes fs) q)" for q
    by (simp add: p(2) fs_simps)
  have "resolve fs' target False = Inr (p, Some (SymLink source))"
    by (rule resolve_insert [OF p(1) _ at]) (simp_all add: p(2))
  with p(1) at show ?thesis by auto
qed

lemma os_Remove_Inr:
  assumes "os_Remove path fs = (Inr (), fs')"
  obtains p n where "resolve fs path False = Inr (p, Some n)" "p \<noteq> []" "fs' = drop_node p fs"
  using assms by (auto simp: os_Remove_def remove_at_Inr)

lemma os_Symlink_over_links:
  assumes "os_Remove target fs = (Inr (), fs1)" "os_Symlink source target fs1 = (Inr (), fs')"
  shows "\<exists>p. resolve fs' target False = Inr (p, Some (SymLink source)) \<and>
           (\<forall>q. q \<noteq> p \<longrightarrow> node_at (nodes fs') q = node_at (nodes fs) q)"
proof -
  obtain p n where p: "resolve fs target False = Inr (p, Some n)" "p \<noteq> []" "fs1 = drop_node p fs"
    using os_Remove_Inr [OF assms(1)] by blast
  obtain p' where p': "resolve fs1 target False = Inr (p', None)"
    "resolve fs' target False = Inr (p', Some (SymLink source))"
    "\<forall>q. q \<noteq> p' \<longrightarrow> node_at (nodes fs') q = node_at (nodes fs1) q"
    using os_Symlink_links [OF assms(2)] by blast
  have "p' = p" using resolve_drop p p'(1) by blast
  with p(2,3) p'(2,3) show ?thesis by (auto simp: fs_simps)
qed

text \<open>A successful \<open>ReplaceSymlink\<close> leaves the target as a link to the source, which is a
  regular file; it fails with \<open>ErrMissingSymlinkSource\<close>, changing nothing, when the source does
  not exist, and no other entry of the tree is touched either way.\<close>

theorem ReplaceSymlink_links:
  assumes "ReplaceSymlink source target fs = (r, fs')"
  shows "(r = Inr () \<longrightarrow>
            bootstrap_RegularFile fs source \<and>
            (\<exists>p. resolve fs' target False = Inr (p, Some (SymLink source)) \<and>
               (\<forall>q. q \<noteq> p \<longrightarrow> node_at (nodes fs') q = node_at (nodes fs) q))) \<and>
         (os_Stat fs source = Inl ErrNotExist \<longrightarrow>
            r = Inl (Wrapf ''%w: %s'' [source] ErrMissingSymlinkSource) \<and> fs' = fs)"
proof (cases "os_Stat fs source")
  case (Inl e)
  with assms show ?thesis by (auto simp: ReplaceSymlink_def errors_Is_def split: if_splits)
next
  case info: (Inr info)
  have "bootstrap_RegularFile fs source \<and> (\<exists>p. resolve fs' target False = Inr (p, Some (SymLink source)) \<and>
      (\<forall>q. q \<noteq> p \<longrightarrow> node_at (nodes fs') q = node_at (nodes fs) q))" if r: "r = Inr ()"
  proof
    from assms info r have reg: "IsRegular info" by (auto simp: ReplaceSymlink_def split: if_splits)
    with info show "bootstrap_RegularFile fs source" by (simp add: bootstrap_RegularFile_def)
    show "\<exists>p. resolve fs' target False = Inr (p, Some (SymLink source)) \<and>
      (\<forall>q. q \<noteq> p \<longrightarrow> node_at (nodes fs') q = node_at (nodes fs) q)"
    proof (cases "os_Lstat fs target")
      case (Inl e)
      with assms info reg r have "os_Symlink source target fs = (Inr (), fs')"
        by (auto simp: ReplaceSymlink_def split: if_splits)
      then show ?thesis using os_Symlink_links by blast
    next
      case (Inr t)
      with assms info reg r obtain fs1 where "os_Remove target fs = (Inr (), fs1)"
        "os_Symlink source target fs1 = (Inr (), fs')"
        by (auto simp: ReplaceSymlink_def split: if_splits prod.splits sum.splits)
      then show ?thesis by (rule os_Symlink_over_links)
    qed
  qed
  with info show ?thesis by simp
qed

lemma ReplaceSymlink_links_witness:
  "let fs' = snd (ReplaceSymlink ''/conf/agent.conf'' ''/etc/agent'' sample_fs) in
   \<exists>p. resolve fs' ''/etc/agent'' False = Inr (p, Some (SymLink ''/conf/agent.conf''))"
proof -
  have "fst (ReplaceSymlink ''/conf/agent.conf'' ''/etc/agent'' sample_fs) = Inr ()" by code_simp
  then have 1: "ReplaceSymlink ''/conf/agent.conf'' ''/etc/agent'' sample_fs =
      (Inr (), snd (ReplaceSymlink ''/conf/agent.conf'' ''/etc/agent'' sample_fs))"
    by (metis prod.collapse)
  from ReplaceSymlink_links [OF 1] show ?thesis by (auto simp: Let_def)
qed

text \<open>\<open>RemoveMatchingSymlink\<close> removes at most the entry that the target names, and only when
  it is a link to exactly the given source; a missing target is not an error.\<close>

theorem RemoveMatchingSymlink_only_matching:
  assumes "RemoveMatchingSymlink source target fs = (r, fs')"
  shows "(fs' = fs \<or> (\<exists>p. resolve fs target False = Inr (p, Some (SymLink source)) \<and> fs' = drop_node p fs)) \<and>
         (os_Lstat fs target = Inl ErrNotExist \<longrightarrow> r = Inr ())"
proof (cases "os_Lstat fs target")
  case (Inl e)
  with assms show ?thesis by (auto simp: RemoveMatchingSymlink_def)
next
  case (Inr info)
  show ?thesis
  proof (cases "os_Readlink fs target = Inr source")
    case True
    then obtain p where p: "resolve fs target False = Inr (p, Some (SymLink source))"
      by (auto simp: os_Readlink_Inr)
    with Inr have "info = SymLink source" by (auto simp: os_Lstat_Inr)
    with True Inr assms have "os_Remove target fs = (r, fs')" by (simp add: RemoveMatchingSymlink_def)
    then show ?thesis using os_Remove_at(1) [OF p] Inr p by auto
  next
    case False
    with Inr assms show ?thesis
      by (auto simp: RemoveMatchingSymlink_def split: if_splits sum.splits)
  qed
qed

lemma RemoveMatchingSymlink_only_matching_witness:
  "let (r, fs') = RemoveMatchingSymlink ''../conf/other.conf'' ''/etc/agent'' sample_fs in
   fs' = sample_fs \<or> (\<exists>p. resolve sample_fs ''/etc/agent'' False = Inr (p, Some (SymLink ''../conf/other.conf'')) \<and>
     fs' = drop_node p sample_fs)"
  using RemoveMatchingSymlink_only_matching [of "''../conf/other.conf''" "''/etc/agent''" sample_fs]
  by (auto split: prod.splits)

section \<open>Editing lines\<close>

text \<open>A successful \<open>RemoveLinesContaining\<close> on a regular file leaves exactly the lines of the
  file that do not contain the text, in their order, under the same permission bits, and touches
  no other entry.  When every line goes, the file is left empty.\<close>

theorem RemoveLinesContaining_lines:
  assumes "wf_tree (nodes fs)"
    and "resolve fs path True = Inr (p, Some (RegularFile content m))" "denied fs OpStat p = None"
    and "RemoveLinesContaining path v fs = (Inr (), fs')"
  defines "kept \<equiv> filter (\<lambda>line. \<not> Contains line v) (Split content (CHR 0x0A))"
  shows "\<exists>content'. resolve fs' path True = Inr (p, Some (RegularFile content' m)) \<and>
           (if kept = [] then content' = [] else Split content' (CHR 0x0A) = kept) \<and>
           (\<forall>q. q \<noteq> p \<longrightarrow> node_at (nodes fs') q = node_at (nodes fs) q)"
proof -
  have "bootstrap_RegularFile fs path"
    using assms(2,3) by (simp add: bootstrap_RegularFile_def os_Stat_def)
  with assms(2,4) have w: "WriteFilePreservingMode path (Join kept [CHR 0x0A]) fs = (Inr (), fs')"
    by (auto simp: RemoveLinesContaining_def editFile_def os_ReadFile_Inr kept_def split: sum.splits)
  have "Split (Join kept [CHR 0x0A]) (CHR 0x0A) = kept" if "kept \<noteq> []"
    using that by (intro Split_Join) (auto simp: kept_def dest: Split_no_sep)
  then have "if kept = [] then Join kept [CHR 0x0A] = [] else Split (Join kept [CHR 0x0A]) (CHR 0x0A) = kept"
    by simp
  with WriteFilePreservingMode_replaces [OF assms(1,2) w] show ?thesis by blast
qed

lemma RemoveLinesContaining_lines_witness:
  "let fs = quiet_fs [([''f''], RegularFile (''a=1'' @ CHR 0x0A # ''b=2'' @ CHR 0x0A # ''a=3'') 420)];
       fs' = snd (RemoveLinesContaining ''/f'' ''b='' fs) in
   \<exists>content'. resolve fs' ''/f'' True = Inr ([''f''], Some (RegularFile content' 420)) \<and>
     Split content' (CHR 0x0A) = [''a=1'', ''a=3'']"
proof -
  let ?c = "''a=1'' @ CHR 0x0A # ''b=2'' @ CHR 0x0A # ''a=3''"
  let ?fs = "quiet_fs [([''f''], RegularFile ?c 420)]"
  have 1: "wf_tree (nodes ?fs)" by code_simp
  have 2: "resolve ?fs ''/f'' True = Inr ([''f''], Some (RegularFile ?c 420))" by code_simp
  have 3: "denied ?fs OpStat [''f''] = None" by (simp add: quiet_fs_def)
  have "fst (RemoveLinesContaining ''/f'' ''b='' ?fs) = Inr ()" by code_simp
  then have 4: "RemoveLinesContaining ''/f'' ''b='' ?fs = (Inr (), snd (RemoveLinesContaining ''/f'' ''b='' ?fs))"
    by (metis prod.collapse)
  have "filter (\<lambda>line. \<not> Contains line ''b='') (Split ?c (CHR 0x0A)) = [''a=1'', ''a=3'']" by code_simp
  with RemoveLinesContaining_lines [OF 1 2 3 4] show ?thesis by (auto simp: Let_def)
qed

end
