(* ===== verification/Parameters.thy ===== *)
theory Parameters
  imports Indexed Files
begin

text \<open>
  Zabbix configuration files: \<open>internal/config\<close>.  A file is read into lines, edited as a list
  of lines and written back when its bytes changed.  The maps that Go builds only to test
  membership are lists here.
\<close>

section \<open>Definitions\<close>

abbreviation LF :: char where "LF \<equiv> CHR 0x0A"
abbreviation CR :: char where "CR \<equiv> CHR 0x0D"

record indexedParam =
  ip_param :: string
  ip_variable :: string

definition linesOf :: "string \<Rightarrow> string list" where
  "linesOf original = Split (TrimSuffix (ReplaceAll original [CR, LF] [LF]) [LF]) LF"

definition readLines :: "filesystem \<Rightarrow> string \<Rightarrow> (string \<times> string list) result" where
  "readLines fs configPath =
     (case os_ReadFile fs configPath of
        Inl e \<Rightarrow> Inl (Wrapf ''missing configuration file %s: %w'' [configPath] e)
      | Inr original \<Rightarrow> Inr (original, linesOf original))"

definition textOf :: "string list \<Rightarrow> string" where
  "textOf lines = Join lines [LF] @ [LF]"

definition writeLines :: "string \<Rightarrow> string \<Rightarrow> string list \<Rightarrow> (filesystem, unit) eff" where
  "writeLines configPath original lines fs =
     (if original = textOf lines then (Inr (), fs)
      else wrap_eff ''update configuration file %s: %w'' [configPath]
             (WriteFilePreservingMode configPath (textOf lines)) fs)"

definition commentPrefixes :: "string \<Rightarrow> string list" where
  "commentPrefixes activePrefix = [''# '' @ activePrefix, ''; '' @ activePrefix]"

text \<open>The loop of \<open>rewriteParameter\<close>: the lines kept, the values of the parameter seen, and
  \<open>insertAt\<close>.\<close>

fun scanParameter :: "string \<Rightarrow> bool \<Rightarrow> string list \<Rightarrow> string list \<Rightarrow> string list \<Rightarrow> nat option
    \<Rightarrow> string list \<times> string list \<times> nat option" where
  "scanParameter activePrefix preserve [] updated existing insertAt = (updated, existing, insertAt)"
| "scanParameter activePrefix preserve (line # lines) updated existing insertAt =
     (if HasPrefix line activePrefix
      then (if preserve
            then scanParameter activePrefix preserve lines (updated @ [line])
                   (TrimPrefix line activePrefix # existing) (Some (Suc (length updated)))
            else scanParameter activePrefix preserve lines updated existing insertAt)
      else scanParameter activePrefix preserve lines (updated @ [line]) existing
             (if insertAt = None \<and> list_ex (HasPrefix line) (commentPrefixes activePrefix)
              then Some (Suc (length updated)) else insertAt))"

definition rewrittenLines :: "string \<Rightarrow> string list \<Rightarrow> bool \<Rightarrow> string list \<Rightarrow> string list" where
  "rewrittenLines param values preserve lines =
     (let activePrefix = param @ ''='' in
      case scanParameter activePrefix preserve lines [] [] None of
        (updated, existing, insertAt) \<Rightarrow>
          (let paramLines = map (\<lambda>v. activePrefix @ v)
                 (filter (\<lambda>v. v \<noteq> [] \<and> \<not> List.member existing v) values) in
           case insertAt of
             Some i \<Rightarrow> take i updated @ paramLines @ drop i updated
           | None \<Rightarrow>
               if paramLines \<noteq> []
               then (if updated \<noteq> [] \<and> last updated \<noteq> [] then updated @ [[]] else updated) @ paramLines
               else updated))"

definition rewriteParameter :: "string \<Rightarrow> string \<Rightarrow> string list \<Rightarrow> bool \<Rightarrow> (filesystem, unit) eff" where
  "rewriteParameter configPath param values preserve fs =
     (case readLines fs configPath of
        Inl e \<Rightarrow> (Inl e, fs)
      | Inr (original, lines) \<Rightarrow>
          writeLines configPath original (rewrittenLines param values preserve lines) fs)"

definition MergeParameterValues :: "string \<Rightarrow> string \<Rightarrow> string \<Rightarrow> (filesystem, unit) eff" where
  "MergeParameterValues configPath param rawValue =
     (let v = Trim (TrimSpace rawValue) [CHR 0x22] in
      if v = [] then rewriteParameter configPath param [] False
      else rewriteParameter configPath param (filter (\<lambda>part. part \<noteq> []) (Split v (CHR '',''))) True)"

definition SetParameter :: "string \<Rightarrow> string \<Rightarrow> string \<Rightarrow> (filesystem, unit) eff" where
  "SetParameter configPath param v = rewriteParameter configPath param [v] False"

definition collectIndexedParams ::
  "environment \<Rightarrow> (string \<times> string) list \<Rightarrow> bool \<Rightarrow> indexedParam list result" where
  "collectIndexedParams env paramByPrefix strict =
     bind_res (CollectIndexed env (map fst paramByPrefix) strict) (\<lambda>variables.
       Inr (map (\<lambda>v. \<lparr>ip_param = (case map_of paramByPrefix (Prefix v) of None \<Rightarrow> [] | Some p \<Rightarrow> p),
                      ip_variable = Name v\<rparr>) variables))"

definition UpdateIndexedParameter ::
  "environment \<Rightarrow> string \<Rightarrow> string \<Rightarrow> string \<Rightarrow> (filesystem, unit) eff" where
  "UpdateIndexedParameter env configPath param pre fs =
     (case collectIndexedParams env [(pre, param)] False of
        Inl e \<Rightarrow> (Inl e, fs)
      | Inr params \<Rightarrow>
          if params = [] then (Inr (), fs)
          else rewriteParameter configPath param (map (\<lambda>e. ''${'' @ ip_variable e @ ''}'') params) False fs)"

definition lineParam :: "string \<Rightarrow> string option" where
  "lineParam line = (case Cut (TrimSpace line) (CHR ''='') of (p, _, found) \<Rightarrow> if found then Some p else None)"

definition replacedLines :: "string list \<Rightarrow> indexedParam list \<Rightarrow> string list \<Rightarrow> string list" where
  "replacedLines names params lines =
     (let kept = filter (\<lambda>line. case lineParam line of None \<Rightarrow> True | Some p \<Rightarrow> \<not> List.member names p) lines;
          kept = rev (dropWhile (\<lambda>line. TrimSpace line = []) (rev kept)) in
      if params = [] then kept
      else (if kept = [] then [] else kept @ [[]]) @
           map (\<lambda>e. ip_param e @ ''=${'' @ ip_variable e @ ''}'') params)"

definition replaceIndexedParamsAtEnd ::
  "string \<Rightarrow> (string \<times> string) list \<Rightarrow> indexedParam list \<Rightarrow> (filesystem, unit) eff" where
  "replaceIndexedParamsAtEnd configPath paramByPrefix params fs =
     (case readLines fs configPath of
        Inl e \<Rightarrow> (Inl e, fs)
      | Inr (original, lines) \<Rightarrow>
          writeLines configPath original (replacedLines (map snd paramByPrefix) params lines) fs)"

definition itemKeyRuleParamByPrefix :: "(string \<times> string) list" where
  "itemKeyRuleParamByPrefix =
     [(''ZBX_ALLOWKEY'', ''AllowKey''), (''ZBX_DENYKEY'', ''DenyKey''),
      (''ZBX_ALLOWKEY_REGEXP'', ''AllowKeyRegexp''), (''ZBX_DENYKEY_REGEXP'', ''DenyKeyRegexp'')]"

definition ConfigureItemKeyRules :: "environment \<Rightarrow> string \<Rightarrow> string \<Rightarrow> (filesystem, unit) eff" where
  "ConfigureItemKeyRules env configDir fileName fs =
     (case collectIndexedParams env itemKeyRuleParamByPrefix True of
        Inl e \<Rightarrow> (Inl e, fs)
      | Inr rules \<Rightarrow>
          replaceIndexedParamsAtEnd (path_Join [configDir, fileName]) itemKeyRuleParamByPrefix rules fs)"

definition toolAccessRuleParamByPrefix :: "(string \<times> string) list" where
  "toolAccessRuleParamByPrefix =
     [(''ZBX_ALLOWTOOL'', ''AllowTool''), (''ZBX_DENYTOOL'', ''DenyTool''),
      (''ZBX_ALLOWTOOL_REGEXP'', ''AllowToolRegexp''), (''ZBX_DENYTOOL_REGEXP'', ''DenyToolRegexp'')]"

definition ConfigureToolAccessRules :: "environment \<Rightarrow> string \<Rightarrow> string \<Rightarrow> (filesystem, unit) eff" where
  "ConfigureToolAccessRules env templatePath runtimePath fs =
     (case collectIndexedParams env toolAccessRuleParamByPrefix True of
        Inl e \<Rightarrow> (Inl e, fs)
      | Inr rules \<Rightarrow>
          (case os_ReadFile fs templatePath of
             Inl e \<Rightarrow> (Inl (Wrapf ''read tool access template %s: %w'' [templatePath] e), fs)
           | Inr data \<Rightarrow>
               (case os_WriteFile runtimePath data 420 fs of
                  (Inl e, fs') \<Rightarrow>
                    (Inl (Wrapf ''write runtime tool access configuration %s: %w'' [runtimePath] e), fs')
                | (Inr _, fs') \<Rightarrow>
                    if rules = [] then (Inr (), fs')
                    else replaceIndexedParamsAtEnd runtimePath toolAccessRuleParamByPrefix rules fs')))"

definition prependServer :: "string \<Rightarrow> string \<Rightarrow> string" where
  "prependServer server servers = (if servers = [] then server else server @ '','' @ servers)"

definition allowedSwitch :: "string \<Rightarrow> bool" where
  "allowedSwitch v = (v = [] \<or> EqualFold v ''true'')"

text \<open>One of the two switches at the end of \<open>ConfigureServers\<close>.\<close>

definition switchServers :: "environment \<Rightarrow> string \<Rightarrow> string \<Rightarrow> string \<Rightarrow> environment" where
  "switchServers env allow name servers =
     (if allowedSwitch (env_get env allow) \<and> servers \<noteq> []
      then env_set env name servers else env_delete env name)"

definition ConfigureServers :: "environment \<Rightarrow> environment" where
  "ConfigureServers env =
     (let serverHost = ValueOrDefault env ''ZBX_SERVER_HOST'' ''zabbix-server'';
          passive = env_get env ''ZBX_PASSIVESERVERS'';
          active = env_get env ''ZBX_ACTIVESERVERS'';
          port = env_get env ''ZBX_SERVER_PORT'';
          activeServer = (if port \<noteq> [] \<and> port \<noteq> ''10051'' then serverHost @ '':'' @ port else serverHost);
          passive = (if serverHost \<noteq> [] then prependServer serverHost passive else passive);
          active = (if serverHost \<noteq> [] then prependServer activeServer active else active);
          env = switchServers env ''ZBX_PASSIVE_ALLOW'' ''ZBX_PASSIVESERVERS'' passive;
          env = switchServers env ''ZBX_ACTIVE_ALLOW'' ''ZBX_ACTIVESERVERS'' active;
          env = env_delete env ''ZBX_SERVER_HOST''
      in env_delete env ''ZBX_SERVER_PORT'')"

definition config_ClearPrivateEnv :: "environment \<Rightarrow> environment" where
  "config_ClearPrivateEnv env = ClearPrivateEnv env [''ZABBIX_'']"

section \<open>Rewriting one parameter\<close>

abbreviation active :: "string \<Rightarrow> string \<Rightarrow> bool" where
  "active param line \<equiv> HasPrefix line (param @ ''='')"

lemma scanParameter_updated:
  "scanParameter act pr lines u ex i = (u', ex', i') \<Longrightarrow>
     u' = u @ (if pr then lines else filter (\<lambda>l. \<not> HasPrefix l act) lines)"
  by (induction act pr lines u ex i rule: scanParameter.induct) (auto split: if_splits)

lemma scanParameter_existing:
  "scanParameter act pr lines u ex i = (u', ex', i') \<Longrightarrow>
     set ex' = set ex \<union> (if pr then {v. act @ v \<in> set lines} else {})"
  by (induction act pr lines u ex i rule: scanParameter.induct)
    (auto simp: HasPrefix_def prefix_def split: if_splits)

text \<open>The insertion point lies behind every active line that was kept.\<close>

definition insert_inv :: "string \<Rightarrow> string list \<Rightarrow> nat option \<Rightarrow> bool" where
  "insert_inv act u i =
     (case i of None \<Rightarrow> \<forall>l \<in> set u. \<not> HasPrefix l act
      | Some k \<Rightarrow> k \<le> length u \<and> (\<forall>l \<in> set (drop k u). \<not> HasPrefix l act))"

lemma scanParameter_insert:
  "scanParameter act pr lines u ex i = (u', ex', i') \<Longrightarrow> insert_inv act u i \<Longrightarrow> insert_inv act u' i'"
proof (induction act pr lines u ex i rule: scanParameter.induct)
  case (2 act pr line lines u ex i)
  then show ?case
    by (auto simp: insert_inv_def split: if_splits option.splits)
qed simp

lemma filter_split:
  "filter P (take k u) @ filter P (drop k u) = filter P u"
  by (metis append_take_drop_id filter_append)

lemma rewrittenLines_cases:
  obtains u ex i where "scanParameter (param @ ''='') pr lines [] [] None = (u, ex, i)"
    "u = (if pr then lines else filter (\<lambda>l. \<not> active param l) lines)"
    "set ex = (if pr then {v. (param @ ''='') @ v \<in> set lines} else {})"
    "insert_inv (param @ ''='') u i"
proof -
  obtain u ex i where s: "scanParameter (param @ ''='') pr lines [] [] None = (u, ex, i)"
    by (metis prod_cases3)
  show thesis
    by (rule that [OF s])
      (use scanParameter_updated [OF s] scanParameter_existing [OF s] scanParameter_insert [OF s]
       in \<open>simp_all add: insert_inv_def split: if_splits\<close>)
qed

definition newValues :: "string \<Rightarrow> bool \<Rightarrow> string list \<Rightarrow> string list \<Rightarrow> string list" where
  "newValues param pr lines values =
     filter (\<lambda>v. v \<noteq> [] \<and> \<not> (pr \<and> List.member lines (param @ ''='' @ v))) values"

lemma rewrittenLines_parts:
  "\<exists>a b sep. rewrittenLines param values pr lines =
      a @ sep @ map (\<lambda>v. param @ ''='' @ v) (newValues param pr lines values) @ b \<and>
    a @ b = (if pr then lines else filter (\<lambda>l. \<not> active param l) lines) \<and>
    (\<forall>l \<in> set b. \<not> active param l) \<and> (sep = [] \<or> sep = [[]] \<and> b = [] \<and> a \<noteq> [] \<and> last a \<noteq> [])"
proof -
  obtain u ex i where s: "scanParameter (param @ ''='') pr lines [] [] None = (u, ex, i)"
    "u = (if pr then lines else filter (\<lambda>l. \<not> active param l) lines)"
    "set ex = (if pr then {v. (param @ ''='') @ v \<in> set lines} else {})"
    "insert_inv (param @ ''='') u i"
    by (rule rewrittenLines_cases)
  let ?P = "map (\<lambda>v. param @ ''='' @ v) (newValues param pr lines values)"
  have new: "map (\<lambda>v. (param @ ''='') @ v) (filter (\<lambda>v. v \<noteq> [] \<and> \<not> List.member ex v) values) = ?P"
    using s(3) unfolding newValues_def
    by (auto intro!: filter_cong)
  have r: "rewrittenLines param values pr lines =
      (case i of Some k \<Rightarrow> take k u @ ?P @ drop k u
       | None \<Rightarrow> if ?P \<noteq> [] then (if u \<noteq> [] \<and> last u \<noteq> [] then u @ [[]] else u) @ ?P else u)"
    by (simp only: rewrittenLines_def Let_def s(1) prod.case new)
  show ?thesis
  proof (cases i)
    case (Some k)
    then show ?thesis
      using s(4) r by (intro exI [of _ "take k u"] exI [of _ "drop k u"] exI [of _ "[]"])
        (simp add: insert_inv_def s(2) [symmetric])
  next
    case None
    show ?thesis
    proof (cases "?P \<noteq> [] \<and> u \<noteq> [] \<and> last u \<noteq> []")
      case True
      with None r s(2) show ?thesis
        by (intro exI [of _ u] exI [of _ "[]"] exI [of _ "[[]]"]) simp
    next
      case False
      with None r have "rewrittenLines param values pr lines = u @ ?P" by auto
      with None s(2,4) show ?thesis
        by (intro exI [of _ u] exI [of _ "[]"] exI [of _ "[]"]) simp
    qed
  qed
qed

lemma active_param [simp]: "active param (param @ CHR ''='' # v)"
  by (simp add: HasPrefix_def prefix_def)

lemma active_Nil [simp]: "\<not> active param []"
  by (simp add: HasPrefix_def)

lemma rewrittenLines_active:
  "filter (active param) (rewrittenLines param values pr lines) =
     (if pr then filter (active param) lines else []) @
     map (\<lambda>v. param @ ''='' @ v) (newValues param pr lines values)"
proof -
  obtain a b sep where p: "rewrittenLines param values pr lines =
      a @ sep @ map (\<lambda>v. param @ ''='' @ v) (newValues param pr lines values) @ b"
    "a @ b = (if pr then lines else filter (\<lambda>l. \<not> active param l) lines)"
    "\<forall>l \<in> set b. \<not> active param l" "sep = [] \<or> sep = [[]] \<and> b = [] \<and> a \<noteq> [] \<and> last a \<noteq> []"
    using rewrittenLines_parts [of param "values" pr lines]
    by (elim exE conjE) (rule that)
  have "filter (active param) b = []" using p(3) by (simp add: filter_empty_conv)
  moreover have "filter (active param) a @ filter (active param) b = (if pr then filter (active param) lines else [])"
    using arg_cong [OF p(2), of "filter (active param)"] by (simp split: if_splits)
  moreover have "filter (active param) sep = []" using p(4) by auto
  ultimately show ?thesis using p(1) by (simp add: filter_map comp_def)
qed

lemma rewrittenLines_other:
  "\<exists>sep. filter (\<lambda>l. \<not> active param l) (rewrittenLines param values pr lines) =
     filter (\<lambda>l. \<not> active param l) lines @ sep \<and> (sep = [] \<or> sep = [[]])"
proof -
  obtain a b sep where p: "rewrittenLines param values pr lines =
      a @ sep @ map (\<lambda>v. param @ ''='' @ v) (newValues param pr lines values) @ b"
    "a @ b = (if pr then lines else filter (\<lambda>l. \<not> active param l) lines)"
    "\<forall>l \<in> set b. \<not> active param l" "sep = [] \<or> sep = [[]] \<and> b = [] \<and> a \<noteq> [] \<and> last a \<noteq> []"
    using rewrittenLines_parts [of param "values" pr lines]
    by (elim exE conjE) (rule that)
  have "filter (\<lambda>l. \<not> active param l) a @ filter (\<lambda>l. \<not> active param l) b = filter (\<lambda>l. \<not> active param l) lines"
    using arg_cong [OF p(2), of "filter (\<lambda>l. \<not> active param l)"] by (simp split: if_splits)
  moreover have "filter (\<lambda>l. \<not> active param l) sep = sep" using p(4) by auto
  ultimately show ?thesis using p(1,4)
    by (intro exI [of _ sep]) (auto simp: filter_map comp_def)
qed

text \<open>Without \<open>preserveExisting\<close> the scan does not see the active lines at all.\<close>

lemma scanParameter_filter:
  "scanParameter act False (filter (\<lambda>l. \<not> HasPrefix l act) lines) u ex i = scanParameter act False lines u ex i"
  by (induction act "False" lines u ex i rule: scanParameter.induct) auto

lemma scanParameter_blank:
  "scanParameter act False lines u ex None = (u', ex', None) \<Longrightarrow> act \<noteq> [] \<Longrightarrow>
     scanParameter act False (lines @ [[]]) u ex None = (u' @ [[]], ex', None)"
proof (induction lines arbitrary: u)
  case Nil
  then show ?case by (simp add: HasPrefix_def commentPrefixes_def)
next
  case (Cons line lines)
  have "i = None" if "scanParameter act False lines v ex i = (u', ex', None)" for v i
    using that by (induction act "False" lines v ex i rule: scanParameter.induct) (auto split: if_splits)
  with Cons show ?case by (auto split: if_splits)
qed

lemma rewrittenLines_idem:
  "rewrittenLines param values False (rewrittenLines param values False lines) =
     rewrittenLines param values False lines"
proof -
  let ?act = "param @ ''=''"
  let ?P = "map (\<lambda>v. ?act @ v) (filter (\<lambda>v. v \<noteq> []) values)"
  let ?R = "rewrittenLines param values False lines"
  obtain u ex i where s: "scanParameter ?act False lines [] [] None = (u, ex, i)"
    "u = filter (\<lambda>l. \<not> active param l) lines" "set ex = {}" "insert_inv ?act u i"
    by (rule rewrittenLines_cases [of param False lines]) simp
  then have ex: "ex = []" by simp
  have run: "rewrittenLines param values False ls =
      (case j of Some k \<Rightarrow> take k w @ ?P @ drop k w
       | None \<Rightarrow> if ?P \<noteq> [] then (if w \<noteq> [] \<and> last w \<noteq> [] then w @ [[]] else w) @ ?P else w)"
    if "scanParameter ?act False ls [] [] None = (w, [], j)" for ls w j
  proof -
    have "filter (\<lambda>v. v \<noteq> [] \<and> \<not> List.member [] v) values = filter (\<lambda>v. v \<noteq> []) values" by simp
    then show ?thesis by (simp only: rewrittenLines_def Let_def that prod.case)
  qed
  have fP: "filter (\<lambda>l. \<not> active param l) ?P = []" by (simp add: filter_empty_conv)
  have fu: "filter (\<lambda>l. \<not> active param l) u = u" by (simp add: s(2))
  have su: "scanParameter ?act False u [] [] None = (u, [], i)"
    using scanParameter_filter [of ?act lines] s(1,2) ex by simp
  note R = run [OF s(1) [unfolded ex]]
  show ?thesis
  proof (cases i)
    case (Some k)
    then have "filter (\<lambda>l. \<not> active param l) ?R = u"
      using R fP fu filter_split [of "\<lambda>l. \<not> active param l" k u] by simp
    then have "scanParameter ?act False ?R [] [] None = (u, [], i)"
      using scanParameter_filter [of ?act ?R "[]" "[]" None] su by simp
    from run [OF this] R show ?thesis by simp
  next
    case None
    show ?thesis
    proof (cases "?P \<noteq> [] \<and> u \<noteq> [] \<and> last u \<noteq> []")
      case True
      with None R fP fu have "filter (\<lambda>l. \<not> active param l) ?R = u @ [[]]" by simp
      then have "scanParameter ?act False ?R [] [] None = (u @ [[]], [], None)"
        using scanParameter_filter [of ?act ?R "[]" "[]" None] scanParameter_blank su None by simp
      from run [OF this] R None True show ?thesis by simp
    next
      case False
      with None R have R': "?R = u @ ?P" by (cases "?P = []") simp_all
      with fP fu have "filter (\<lambda>l. \<not> active param l) ?R = u" by simp
      then have "scanParameter ?act False ?R [] [] None = (u, [], i)"
        using scanParameter_filter [of ?act ?R "[]" "[]" None] su by simp
      from run [OF this] R show ?thesis by simp
    qed
  qed
qed

text \<open>With it, values that are all present change nothing.\<close>

lemma rewrittenLines_present:
  assumes "newValues param True lines values = []"
  shows "rewrittenLines param values True lines = lines"
proof -
  obtain a b sep where p: "rewrittenLines param values True lines =
      a @ sep @ map (\<lambda>v. param @ ''='' @ v) (newValues param True lines values) @ b"
    "a @ b = lines" "sep = [] \<or> sep = [[]] \<and> b = [] \<and> a \<noteq> [] \<and> last a \<noteq> []"
    using rewrittenLines_parts [of param "values" True lines] by (elim exE conjE) (rule that, simp_all)
  obtain u ex i where s: "scanParameter (param @ ''='') True lines [] [] None = (u, ex, i)"
    "u = lines" "set ex = {v. (param @ ''='') @ v \<in> set lines}"
    by (rule rewrittenLines_cases [of param True lines]) simp
  have none: "filter (\<lambda>v. v \<noteq> [] \<and> \<not> List.member ex v) values = []"
    using assms s(3) by (auto simp: newValues_def filter_empty_conv)
  show ?thesis
    using s(1,2) none by (simp add: rewrittenLines_def split: option.splits)
qed

section \<open>Files\<close>

lemma TrimSuffix_LF: "TrimSuffix (s @ [LF]) [LF] = s"
  using TrimSuffix_append [of s "[LF]"] by simp

lemma not_sublist_absent: "c \<notin> set s \<Longrightarrow> \<not> sublist (c # cs) s"
  by (meson list.set_intros(1) set_mono_sublist subsetD)

lemma linesOf_textOf:
  assumes "lines \<noteq> []" "\<forall>l \<in> set lines. LF \<notin> set l \<and> CR \<notin> set l"
  shows "linesOf (textOf lines) = lines"
proof -
  have "CR \<notin> set (Join lines [LF])"
    using assms(2) by (induction lines rule: induct_list012) auto
  then have "ReplaceAll (textOf lines) [CR, LF] [LF] = textOf lines"
    by (intro ReplaceAll_absent) (auto simp: textOf_def intro!: not_sublist_absent)
  with assms show ?thesis
    by (simp add: linesOf_def textOf_def TrimSuffix_LF Split_Join)
qed

lemma linesOf_no_LF: "l \<in> set (linesOf s) \<Longrightarrow> LF \<notin> set l"
  by (auto simp: linesOf_def dest: Split_no_sep)

lemma linesOf_no_CR:
  assumes "CR \<notin> set s" "l \<in> set (linesOf s)"
  shows "CR \<notin> set l"
proof -
  have r: "ReplaceAll s [CR, LF] [LF] = s"
    using assms(1) by (intro ReplaceAll_absent) (auto intro!: not_sublist_absent)
  have "set (TrimSuffix s [LF]) \<subseteq> set s"
    by (auto simp: TrimSuffix_def dest: in_set_takeD)
  moreover have "set l \<subseteq> set (TrimSuffix s [LF])" if "l \<in> set (Split (TrimSuffix s [LF]) LF)" for l
  proof -
    have "set x \<subseteq> set t" if "x \<in> set (Split t c)" for x t and c :: char
      using that by (induction t arbitrary: x) (auto split: if_splits list.splits, blast+)
    then show ?thesis using that by blast
  qed
  ultimately show ?thesis using assms r by (auto simp: linesOf_def)
qed

text \<open>What a successful rewrite of a regular file leaves behind.\<close>

lemma writeLines_file:
  assumes "wf_tree (nodes fs)" "resolve fs path True = Inr (p, Some (RegularFile content m))"
    and "writeLines path content lines fs = (Inr (), fs')"
  shows "resolve fs' path True = Inr (p, Some (RegularFile (textOf lines) m)) \<and>
         (\<forall>q. q \<noteq> p \<longrightarrow> node_at (nodes fs') q = node_at (nodes fs) q)"
proof (cases "content = textOf lines")
  case True
  with assms show ?thesis by (simp add: writeLines_def)
next
  case False
  with assms(3) have "WriteFilePreservingMode path (textOf lines) fs = (Inr (), fs')"
    by (simp add: writeLines_def)
  then show ?thesis by (rule WriteFilePreservingMode_replaces [OF assms(1,2)])
qed

lemma readLines_file:
  "resolve fs path True = Inr (p, Some (RegularFile content m)) \<Longrightarrow> readLines fs path = Inr (original, lines) \<Longrightarrow>
     original = content \<and> lines = linesOf content"
  by (auto simp: readLines_def os_ReadFile_Inr split: sum.splits)

lemma rewriteParameter_file:
  assumes "wf_tree (nodes fs)" "resolve fs path True = Inr (p, Some (RegularFile content m))"
    and "rewriteParameter path param values pr fs = (Inr (), fs')"
  shows "resolve fs' path True = Inr (p, Some (RegularFile (textOf (rewrittenLines param values pr (linesOf content))) m)) \<and>
         (\<forall>q. q \<noteq> p \<longrightarrow> node_at (nodes fs') q = node_at (nodes fs) q)"
proof (cases "readLines fs path")
  case (Inl e)
  with assms(3) show ?thesis by (simp add: rewriteParameter_def)
next
  case (Inr r)
  obtain original lines where "r = (original, lines)" by fastforce
  with Inr readLines_file [OF assms(2)] have "readLines fs path = Inr (content, linesOf content)" by metis
  with assms(3) have "writeLines path content (rewrittenLines param values pr (linesOf content)) fs = (Inr (), fs')"
    by (simp add: rewriteParameter_def)
  then show ?thesis by (rule writeLines_file [OF assms(1,2)])
qed



text \<open>\<open>SetParameter\<close> is idempotent: on the file that a successful call left, the same call
  succeeds or fails without writing anything, provided the file has no carriage returns and the
  value is one line.\<close>

theorem SetParameter_idempotent:
  assumes "wf_tree (nodes fs)" "resolve fs path True = Inr (p, Some (RegularFile content m))"
    and "SetParameter path param v fs = (Inr (), fs')"
    and "CR \<notin> set content" "LF \<notin> set (param @ v)" "CR \<notin> set (param @ v)"
    and "v \<noteq> []"
  shows "snd (SetParameter path param v fs') = fs' \<and>
         (denied fs' OpOpen p = None \<longrightarrow> fst (SetParameter path param v fs') = Inr ())"
proof -
  let ?lines = "rewrittenLines param [v] False (linesOf content)"
  have f: "resolve fs' path True = Inr (p, Some (RegularFile (textOf ?lines) m))"
    using rewriteParameter_file [OF assms(1,2)] assms(3) by (simp add: SetParameter_def)
  have act: "filter (active param) ?lines = [param @ ''='' @ v]"
    unfolding rewrittenLines_active using assms(7) by (simp add: newValues_def)
  then have ne: "?lines \<noteq> []" by auto
  have "LF \<notin> set l \<and> CR \<notin> set l" if l: "l \<in> set ?lines" for l
  proof (cases "active param l")
    case True
    with l have "l \<in> set (filter (active param) ?lines)" by simp
    then have "l = param @ ''='' @ v" unfolding act by simp
    with assms(5,6) show ?thesis by auto
  next
    case False
    with l have "l \<in> set (filter (\<lambda>l. \<not> active param l) ?lines)" by simp
    with rewrittenLines_other [of param "[v]" False "linesOf content"]
    have "l \<in> set (linesOf content) \<or> l = []" by fastforce
    then show ?thesis using linesOf_no_LF linesOf_no_CR [OF assms(4)] by auto
  qed
  then have lines: "linesOf (textOf ?lines) = ?lines" using linesOf_textOf [OF ne] by blast
  show ?thesis
  proof (cases "readLines fs' path")
    case (Inl e)
    with f have "denied fs' OpOpen p \<noteq> None"
      by (auto simp: readLines_def os_ReadFile_regular split: option.splits)
    with Inl show ?thesis by (simp add: SetParameter_def rewriteParameter_def)
  next
    case (Inr r)
    obtain original ls where r: "r = (original, ls)" by fastforce
    with Inr readLines_file [OF f] lines have "readLines fs' path = Inr (textOf ?lines, ?lines)" by metis
    then show ?thesis
      by (simp add: SetParameter_def rewriteParameter_def rewrittenLines_idem writeLines_def)
  qed
qed

lemma SetParameter_idempotent_witness:
  "let fs = quiet_fs [([''f''], RegularFile (''Server=a'' @ [LF]) 384)];
       fs' = snd (SetParameter ''/f'' ''Timeout'' ''7'' fs) in
   snd (SetParameter ''/f'' ''Timeout'' ''7'' fs') = fs'"
proof -
  let ?fs = "quiet_fs [([''f''], RegularFile (''Server=a'' @ [LF]) 384)]"
  have 1: "wf_tree (nodes ?fs)" by code_simp
  have 2: "resolve ?fs ''/f'' True = Inr ([''f''], Some (RegularFile (''Server=a'' @ [LF]) 384))" by code_simp
  have "fst (SetParameter ''/f'' ''Timeout'' ''7'' ?fs) = Inr ()" by code_simp
  then have 3: "SetParameter ''/f'' ''Timeout'' ''7'' ?fs = (Inr (), snd (SetParameter ''/f'' ''Timeout'' ''7'' ?fs))"
    by (metis prod.collapse)
  have 4: "CR \<notin> set (''Server=a'' @ [LF])" "LF \<notin> set (''Timeout'' @ ''7'')" "CR \<notin> set (''Timeout'' @ ''7'')"
    "''7'' \<noteq> ([] :: string)" by simp_all
  from SetParameter_idempotent [OF 1 2 3 4] show ?thesis by (simp add: Let_def)
qed



section \<open>Rules at the end of a file\<close>

definition ruleLine :: "(string \<times> string) list \<Rightarrow> IndexedVariable \<Rightarrow> string" where
  "ruleLine paramByPrefix v =
     (case map_of paramByPrefix (Prefix v) of None \<Rightarrow> [] | Some p \<Rightarrow> p) @ ''=${'' @ Name v @ ''}''"

lemma replacedLines_parts:
  "\<exists>kept sep. replacedLines names params lines =
      kept @ sep @ map (\<lambda>e. ip_param e @ ''=${'' @ ip_variable e @ ''}'') params \<and>
    subseq kept lines \<and> (\<forall>l \<in> set kept. \<forall>p. lineParam l = Some p \<longrightarrow> p \<notin> set names) \<and>
    (\<forall>l \<in> set lines. l \<in> set kept \<or> TrimSpace l = [] \<or> (\<exists>p \<in> set names. lineParam l = Some p)) \<and>
    (sep = [] \<or> sep = [[]])"
proof -
  define all where "all = filter (\<lambda>line. case lineParam line of None \<Rightarrow> True | Some p \<Rightarrow> \<not> List.member names p) lines"
  define kept where "kept = rev (dropWhile (\<lambda>line. TrimSpace line = []) (rev all))"
  have pre: "prefix kept all"
    unfolding kept_def by (metis rev_rev_ident suffix_dropWhile suffix_to_prefix)
  then have sub: "subseq kept lines"
    unfolding all_def by (meson prefix_imp_subseq subseq_filter_left subseq_order.order_trans)
  have names: "\<forall>l \<in> set kept. \<forall>p. lineParam l = Some p \<longrightarrow> p \<notin> set names"
    using set_mono_prefix [OF pre] unfolding all_def by auto
  have rest: "l \<in> set kept \<or> TrimSpace l = [] \<or> (\<exists>p \<in> set names. lineParam l = Some p)" if "l \<in> set lines" for l
  proof (cases "l \<in> set all")
    case True
    have "rev all = takeWhile (\<lambda>line. TrimSpace line = []) (rev all) @ dropWhile (\<lambda>line. TrimSpace line = []) (rev all)"
      by simp
    then have "l \<in> set (takeWhile (\<lambda>line. TrimSpace line = []) (rev all)) \<or> l \<in> set kept"
      unfolding kept_def using True by (metis Un_iff set_append set_rev)
    then show ?thesis by (auto dest: set_takeWhileD)
  next
    case False
    with that show ?thesis by (auto simp: all_def split: option.splits)
  qed
  have r: "replacedLines names params lines =
      (if params = [] then kept
       else (if kept = [] then [] else kept @ [[]]) @ map (\<lambda>e. ip_param e @ ''=${'' @ ip_variable e @ ''}'') params)"
    unfolding replacedLines_def Let_def kept_def all_def by (rule refl)
  have "\<exists>sep. replacedLines names params lines =
      kept @ sep @ map (\<lambda>e. ip_param e @ ''=${'' @ ip_variable e @ ''}'') params \<and> (sep = [] \<or> sep = [[]])"
    unfolding r by (auto intro: exI [of _ "[]"] exI [of _ "[[]]"])
  with sub names rest show ?thesis by blast
qed

lemma collectIndexedParams_lines:
  assumes "collectIndexedParams env byPrefix strict = Inr params"
  shows "\<exists>vars. CollectIndexed env (map fst byPrefix) strict = Inr vars \<and>
    map (\<lambda>e. ip_param e @ ''=${'' @ ip_variable e @ ''}'') params = map (ruleLine byPrefix) vars \<and>
    length params = length vars"
  using assms by (auto simp: collectIndexedParams_def ruleLine_def)

lemma replaceIndexed_file:
  assumes "wf_tree (nodes fs)" "resolve fs path True = Inr (p, Some (RegularFile content m))"
    and "replaceIndexedParamsAtEnd path byPrefix params fs = (Inr (), fs')"
  shows "resolve fs' path True = Inr (p, Some (RegularFile (textOf (replacedLines (map snd byPrefix) params (linesOf content))) m)) \<and>
         (\<forall>q. q \<noteq> p \<longrightarrow> node_at (nodes fs') q = node_at (nodes fs) q)"
proof (cases "readLines fs path")
  case (Inl e)
  with assms(3) show ?thesis by (simp add: replaceIndexedParamsAtEnd_def)
next
  case (Inr r)
  obtain original lines where "r = (original, lines)" by fastforce
  with Inr readLines_file [OF assms(2)] have "readLines fs path = Inr (content, linesOf content)" by metis
  with assms(3) have "writeLines path content (replacedLines (map snd byPrefix) params (linesOf content)) fs = (Inr (), fs')"
    by (simp add: replaceIndexedParamsAtEnd_def)
  then show ?thesis by (rule writeLines_file [OF assms(1,2)])
qed

text \<open>C33: \<open>ConfigureItemKeyRules\<close> validates before it writes, and what it writes is the file
  without its old rules followed by one rule per indexed variable in the order of the indices:
  the kept lines are lines of the file in their order, none of them sets one of the four rule
  parameters, and nothing but old rules and trailing blank lines is dropped.\<close>

theorem ConfigureItemKeyRules_rules:
  assumes "wf_tree (nodes fs)"
    and "resolve fs (path_Join [dir, file]) True = Inr (p, Some (RegularFile content m))"
    and "ConfigureItemKeyRules env dir file fs = (r, fs')"
  shows "(\<forall>e. CollectIndexed env (map fst itemKeyRuleParamByPrefix) True = Inl e \<longrightarrow> r = Inl e \<and> fs' = fs) \<and>
         (r = Inr () \<longrightarrow>
           (\<exists>vars kept sep.
              CollectIndexed env (map fst itemKeyRuleParamByPrefix) True = Inr vars \<and>
              map Index vars = map int [0..<length vars] \<and>
              resolve fs' (path_Join [dir, file]) True =
                Inr (p, Some (RegularFile (textOf (kept @ sep @ map (ruleLine itemKeyRuleParamByPrefix) vars)) m)) \<and>
              subseq kept (linesOf content) \<and> (sep = [] \<or> sep = [[]]) \<and>
              (\<forall>l \<in> set kept. \<forall>q. lineParam l = Some q \<longrightarrow> q \<notin> set (map snd itemKeyRuleParamByPrefix)) \<and>
              (\<forall>l \<in> set (linesOf content). l \<in> set kept \<or> TrimSpace l = [] \<or>
                 (\<exists>q \<in> set (map snd itemKeyRuleParamByPrefix). lineParam l = Some q))))"
proof (cases "collectIndexedParams env itemKeyRuleParamByPrefix True")
  case (Inl e)
  with assms(3) show ?thesis
    by (auto simp: ConfigureItemKeyRules_def collectIndexedParams_def bind_res_def split: sum.splits)
next
  case (Inr params)
  obtain vars where v: "CollectIndexed env (map fst itemKeyRuleParamByPrefix) True = Inr vars"
    "map (\<lambda>e. ip_param e @ ''=${'' @ ip_variable e @ ''}'') params = map (ruleLine itemKeyRuleParamByPrefix) vars"
    using collectIndexedParams_lines [OF Inr] by blast
  have idx: "map Index vars = map int [0..<length vars]" using v(1) unfolding CollectIndexed_Inr by blast
  have run: "replaceIndexedParamsAtEnd (path_Join [dir, file]) itemKeyRuleParamByPrefix params fs = (r, fs')"
    using assms(3) Inr by (simp add: ConfigureItemKeyRules_def)
  show ?thesis
  proof (cases "r = Inr ()")
    case True
    note f = replaceIndexed_file [OF assms(1,2) run [unfolded True], THEN conjunct1]
    obtain kept sep where k: "replacedLines (map snd itemKeyRuleParamByPrefix) params (linesOf content) =
        kept @ sep @ map (ruleLine itemKeyRuleParamByPrefix) vars" "subseq kept (linesOf content)"
      "\<forall>l \<in> set kept. \<forall>q. lineParam l = Some q \<longrightarrow> q \<notin> set (map snd itemKeyRuleParamByPrefix)"
      "\<forall>l \<in> set (linesOf content). l \<in> set kept \<or> TrimSpace l = [] \<or>
         (\<exists>q \<in> set (map snd itemKeyRuleParamByPrefix). lineParam l = Some q)"
      "sep = [] \<or> sep = [[]]"
      using replacedLines_parts [of "map snd itemKeyRuleParamByPrefix" params "linesOf content"]
      unfolding v(2) by (elim exE conjE) (rule that)
    have "r = Inr () \<longrightarrow> (\<exists>vars kept sep.
              CollectIndexed env (map fst itemKeyRuleParamByPrefix) True = Inr vars \<and>
              map Index vars = map int [0..<length vars] \<and>
              resolve fs' (path_Join [dir, file]) True =
                Inr (p, Some (RegularFile (textOf (kept @ sep @ map (ruleLine itemKeyRuleParamByPrefix) vars)) m)) \<and>
              subseq kept (linesOf content) \<and> (sep = [] \<or> sep = [[]]) \<and>
              (\<forall>l \<in> set kept. \<forall>q. lineParam l = Some q \<longrightarrow> q \<notin> set (map snd itemKeyRuleParamByPrefix)) \<and>
              (\<forall>l \<in> set (linesOf content). l \<in> set kept \<or> TrimSpace l = [] \<or>
                 (\<exists>q \<in> set (map snd itemKeyRuleParamByPrefix). lineParam l = Some q)))"
      by (intro impI exI [of _ vars] exI [of _ kept] exI [of _ sep] conjI v(1) idx f [unfolded k(1)] k(2-5))
    then show ?thesis using v(1) by simp
  next
    case False
    with v(1) show ?thesis by simp
  qed
qed

lemma ConfigureItemKeyRules_rules_witness:
  "let content = ''AllowKey=old'' @ LF # ''m'' @ [LF];
       fs = quiet_fs [([''k''], RegularFile content 384)];
       fs' = snd (ConfigureItemKeyRules [(''HOME'', ''b'')] ''/'' ''k'' fs) in
   \<exists>vars kept sep m. CollectIndexed [(''HOME'', ''b'')] (map fst itemKeyRuleParamByPrefix) True = Inr vars \<and>
     resolve fs' (path_Join [''/'', ''k'']) True =
       Inr ([''k''], Some (RegularFile (textOf (kept @ sep @ map (ruleLine itemKeyRuleParamByPrefix) vars)) m))"
proof -
  let ?c = "''AllowKey=old'' @ LF # ''m'' @ [LF]"
  let ?fs = "quiet_fs [([''k''], RegularFile ?c 384)]"
  let ?env = "[(''HOME'', ''b'')]"
  have 1: "wf_tree (nodes ?fs)" by code_simp
  have 2: "resolve ?fs (path_Join [''/'', ''k'']) True = Inr ([''k''], Some (RegularFile ?c 384))" by code_simp
  have "fst (ConfigureItemKeyRules ?env ''/'' ''k'' ?fs) = Inr ()" by code_simp
  then have 3: "ConfigureItemKeyRules ?env ''/'' ''k'' ?fs = (Inr (), snd (ConfigureItemKeyRules ?env ''/'' ''k'' ?fs))"
    by (metis prod.collapse)
  from ConfigureItemKeyRules_rules [OF 1 2 3] show ?thesis unfolding Let_def by blast
qed

section \<open>Server lists\<close>

lemma switchServers_get:
  "env_get (switchServers env allow name servers) n =
     (if n = name then if allowedSwitch (env_get env allow) then servers else [] else env_get env n)"
  by (auto simp: switchServers_def env.get_put env.get_del)

lemma switchServers_has:
  "n \<noteq> name \<Longrightarrow> env_has (switchServers env allow name servers) n = env_has env n"
  by (auto simp: switchServers_def env.has_put env.has_del)

text \<open>What \<open>ConfigureServers\<close> does to the environment: the server host goes first in both
  lists, with its port in the active list unless the port is the default; a list is dropped when
  its checks are switched off or it is empty; the host and port variables are consumed and no
  other variable changes.\<close>

theorem ConfigureServers_lists:
  fixes env :: environment
  defines "host \<equiv> ValueOrDefault env ''ZBX_SERVER_HOST'' ''zabbix-server''"
    and "port \<equiv> env_get env ''ZBX_SERVER_PORT''"
    and "out \<equiv> ConfigureServers env"
  shows "env_get out ''ZBX_PASSIVESERVERS'' =
           (if allowedSwitch (env_get env ''ZBX_PASSIVE_ALLOW'')
            then if host = [] then env_get env ''ZBX_PASSIVESERVERS''
                 else prependServer host (env_get env ''ZBX_PASSIVESERVERS'') else []) \<and>
         env_get out ''ZBX_ACTIVESERVERS'' =
           (if allowedSwitch (env_get env ''ZBX_ACTIVE_ALLOW'')
            then if host = [] then env_get env ''ZBX_ACTIVESERVERS''
                 else prependServer (if port = [] \<or> port = ''10051'' then host else host @ '':'' @ port)
                        (env_get env ''ZBX_ACTIVESERVERS'') else []) \<and>
         \<not> env_has out ''ZBX_SERVER_HOST'' \<and> \<not> env_has out ''ZBX_SERVER_PORT'' \<and>
         (\<forall>n. n \<notin> {''ZBX_PASSIVESERVERS'', ''ZBX_ACTIVESERVERS'', ''ZBX_SERVER_HOST'', ''ZBX_SERVER_PORT''} \<longrightarrow>
              env_get out n = env_get env n \<and> env_has out n = env_has env n)"
  unfolding out_def ConfigureServers_def Let_def host_def [symmetric] port_def [symmetric]
  by (intro conjI allI impI)
    (auto simp: env.get_del env.has_del switchServers_get switchServers_has prependServer_def)

lemma ConfigureServers_lists_witness:
  "env_get (ConfigureServers [(''ZBX_SERVER_HOST'', ''s''), (''ZBX_SERVER_PORT'', ''10061''), (''A'', ''b'')]) ''ZBX_ACTIVESERVERS'' = ''s:10061'' \<and>
   env_get (ConfigureServers [(''ZBX_SERVER_HOST'', ''s''), (''ZBX_SERVER_PORT'', ''10061''), (''A'', ''b'')]) ''A'' = ''b''"
proof
  show "env_get (ConfigureServers [(''ZBX_SERVER_HOST'', ''s''), (''ZBX_SERVER_PORT'', ''10061''), (''A'', ''b'')]) ''ZBX_ACTIVESERVERS'' = ''s:10061''"
    by code_simp
  show "env_get (ConfigureServers [(''ZBX_SERVER_HOST'', ''s''), (''ZBX_SERVER_PORT'', ''10061''), (''A'', ''b'')]) ''A'' = ''b''"
    using ConfigureServers_lists [of "[(''ZBX_SERVER_HOST'', ''s''), (''ZBX_SERVER_PORT'', ''10061''), (''A'', ''b'')]"]
    by (simp add: env_get_def)
qed

end
