(* ===== verification/Command.thy ===== *)
theory Command
  imports Environment OS
begin

text \<open>
  The command line of an entrypoint: \<open>internal/bootstrap/command.go\<close>, \<open>exec_unix.go\<close>,
  \<open>identity_unix.go\<close> and \<open>system.go\<close>.  An entrypoint runs in a process, whose environment and
  file system it changes; it ends by returning an error value or by being replaced by the program
  it executes, or it does not end (\<open>None\<close>).  The kernel's \<open>execve\<close>, the search of \<open>PATH\<close>, the user database and the resolver
  are arguments.
\<close>

section \<open>Definitions\<close>

record process =
  environ :: environment
  files :: filesystem

datatype outcome =
    Returned "error option"
  | Replaced string "string list" "string list"

type_synonym 'w entrypoint = "string list \<Rightarrow> 'w process_scheme \<Rightarrow> (outcome \<times> 'w process_scheme) option"

definition returned :: "unit result \<Rightarrow> outcome" where
  "returned r = (case r of Inl e \<Rightarrow> Returned (Some e) | Inr _ \<Rightarrow> Returned None)"

text \<open>\<open>errors.As\<close> for an \<open>exec.ExitError\<close>: the first one in the chain.\<close>

fun exit_status_in :: "error list \<Rightarrow> int option" where
  "exit_status_in [] = None"
| "exit_status_in (ExitError n # es) = Some n"
| "exit_status_in (_ # es) = exit_status_in es"

definition exitCode :: "error option \<Rightarrow> int" where
  "exitCode err =
     (case err of None \<Rightarrow> 0
      | Some e \<Rightarrow> (case exit_status_in (error_chain e) of Some n \<Rightarrow> n | None \<Rightarrow> 1))"

text \<open>The exit status of the process when its entrypoint ends, \<open>None\<close> when it goes on as another
  program.\<close>

definition exit_status :: "outcome \<Rightarrow> int option" where
  "exit_status out = (case out of Returned err \<Rightarrow> Some (exitCode err) | Replaced _ _ _ \<Rightarrow> None)"

definition bootstrap_Main :: "'w entrypoint \<Rightarrow> string list \<Rightarrow> 'w process_scheme \<Rightarrow> int option option" where
  "bootstrap_Main entrypoint args s = map_option (\<lambda>(out, _). exit_status out) (entrypoint args s)"

definition ServiceArgs :: "string list \<Rightarrow> string \<Rightarrow> string list \<times> bool" where
  "ServiceArgs args service =
     (case args of
        [] \<Rightarrow> ([], True)
      | a # rest \<Rightarrow>
          if a = service then (rest, True)
          else if HasPrefix a ''-'' then (args, True)
          else ([], False))"

definition resolveCommand :: "string list \<Rightarrow> string \<Rightarrow> string list" where
  "resolveCommand args binary =
     (case ServiceArgs args binary of
        (serviceArgs, startsService) \<Rightarrow> if startsService then binary # serviceArgs else args)"

record kernel =
  LookPath :: "string \<Rightarrow> string result"
  execve :: "string \<Rightarrow> string list \<Rightarrow> string list \<Rightarrow> error option"

definition executeProcess :: "kernel \<Rightarrow> string list \<Rightarrow> environment \<Rightarrow> outcome" where
  "executeProcess k args env =
     (let path = hd args in
      case (if CHR ''/'' \<in> set path then Inr path else LookPath k path) of
        Inl e \<Rightarrow> Returned (Some e)
      | Inr path \<Rightarrow>
          (case execve k path args (env_List env) of
             Some e \<Rightarrow> Returned (Some e)
           | None \<Rightarrow> Replaced path args (env_List env)))"

definition Execute :: "kernel \<Rightarrow> 'w entrypoint" where
  "Execute k args s =
     Some (if args = [] then (Returned (Some (Errorf ''execute: empty command'' [])), s)
      else (case executeProcess k args (environ s) of
              Returned (Some e) \<Rightarrow> (Returned (Some (Wrapf ''execute %s: %w'' [hd args] e)), s)
            | out \<Rightarrow> (out, s)))"

text \<open>An entrypoint that goes on after a preparation that succeeded.\<close>

definition prepared ::
  "('w process_scheme, 'a) run \<Rightarrow> ('a \<Rightarrow> 'w process_scheme \<Rightarrow> (outcome \<times> 'w process_scheme) option) \<Rightarrow>
   'w process_scheme \<Rightarrow> (outcome \<times> 'w process_scheme) option" where
  "prepared prepare k s =
     (case prepare s of
        None \<Rightarrow> None
      | Some (Inl e, s') \<Rightarrow> Some (Returned (Some e), s')
      | Some (Inr x, s') \<Rightarrow> k x s')"

definition Service :: "kernel \<Rightarrow> string \<Rightarrow> ('w process_scheme, unit) run \<Rightarrow> 'w entrypoint" where
  "Service k binary prepare args =
     (let command = resolveCommand args binary in
      if hd command = binary then prepared prepare (\<lambda>_. Execute k command)
      else Execute k command)"

definition initDBCommand :: string where "initDBCommand = ''init_db_only''"
definition initHistoryProvidersCommand :: string where
  "initHistoryProvidersCommand = ''init_db_history_providers''"
definition initTelemetryCommand :: string where "initTelemetryCommand = ''init_db_telemetry''"

definition DBService ::
  "kernel \<Rightarrow> string \<Rightarrow> ('w process_scheme, unit) run \<Rightarrow> ('w process_scheme, unit) run \<Rightarrow> 'w entrypoint" where
  "DBService k binary prepare initDB args =
     (let command = resolveCommand args binary in
      if hd command = binary then prepared prepare (\<lambda>_. Execute k command)
      else if hd command = initDBCommand then prepared initDB (\<lambda>_ s. Some (Returned None, s))
      else Execute k command)"

definition StorageInitEntrypoint ::
  "'w entrypoint \<Rightarrow> ('w process_scheme, nat) run option \<Rightarrow> ('w process_scheme, nat) run option \<Rightarrow> 'w entrypoint" where
  "StorageInitEntrypoint next_entrypoint history telemetry args s =
     (case args of
        [] \<Rightarrow> next_entrypoint args s
      | a # rest \<Rightarrow>
          if a \<noteq> initHistoryProvidersCommand \<and> a \<noteq> initTelemetryCommand then next_entrypoint args s
          else
            (case (if a = initHistoryProvidersCommand then history else telemetry) of
               None \<Rightarrow> Some (Returned (Some (Errorf ''%s is not supported by this image'' [a])), s)
             | Some prepare \<Rightarrow>
                 if rest \<noteq> [] then Some (Returned (Some (Errorf ''%s takes no arguments'' [a])), s)
                 else
                   prepared prepare (\<lambda>count s'. Some
                     (Returned
                       (if count = 0
                        then Some (Errorf
                          (if a = initHistoryProvidersCommand
                           then ''no history schemas initialized: set ZBX_HISTORYPROVIDER_<N>_SCHEMA for the providers to initialize''
                           else ''no telemetry schemas initialized: ZBX_TELEMETRYPROVIDER_0_SCHEMA is not set'') [])
                        else None), s')) s))"

definition configureRunUser :: "int \<Rightarrow> (string \<Rightarrow> string result) \<Rightarrow> environment \<Rightarrow> environment" where
  "configureRunUser uid lookup env =
     (if uid = 0 then env_set env ''ZBX_ALLOWROOT'' ''1''
      else (case lookup (Itoa uid) of
              Inl _ \<Rightarrow> env_set env ''ZBX_USER'' (Itoa uid)
            | Inr username \<Rightarrow> env_set env ''ZBX_USER'' username))"

record resolver =
  os_Hostname :: "string result"
  LookupCNAME :: "string \<Rightarrow> string result"
  LookupHost :: "string \<Rightarrow> string list result"
  LookupAddr :: "string \<Rightarrow> string list result"

fun qualifiedName :: "(string \<Rightarrow> string list result) \<Rightarrow> string list \<Rightarrow> string option" where
  "qualifiedName lookupAddr [] = None"
| "qualifiedName lookupAddr (address # rest) =
     (case lookupAddr address of
        Inr (n # ns) \<Rightarrow>
          (let name = TrimSuffix n ''.'' in
           if Contains name ''.'' then Some name else qualifiedName lookupAddr rest)
      | _ \<Rightarrow> qualifiedName lookupAddr rest)"

definition Hostname :: "resolver \<Rightarrow> bool \<Rightarrow> string result" where
  "Hostname net fqdn =
     (case os_Hostname net of
        Inl e \<Rightarrow> Inl (Wrapf ''determine hostname: %w'' [] e)
      | Inr hostname \<Rightarrow>
          if \<not> fqdn \<or> Contains hostname ''.'' then Inr hostname
          else
            (let canonical = (case LookupCNAME net hostname of
                                Inl _ \<Rightarrow> None
                              | Inr c \<Rightarrow> (let c = TrimSuffix c ''.'' in if Contains c ''.'' then Some c else None)) in
             case canonical of
               Some c \<Rightarrow> Inr c
             | None \<Rightarrow>
                 (case qualifiedName (LookupAddr net)
                         (case LookupHost net hostname of Inl _ \<Rightarrow> [] | Inr as \<Rightarrow> as) of
                    Some name \<Rightarrow> Inr name
                  | None \<Rightarrow> Inr hostname)))"

section \<open>Dispatch\<close>

lemma resolveCommand_nonempty [simp]: "resolveCommand args binary \<noteq> []"
  by (auto simp: resolveCommand_def ServiceArgs_def split: list.splits)

text \<open>When the service is meant: no argument, its own name first, or an option first.\<close>

definition startsService :: "string list \<Rightarrow> string \<Rightarrow> bool" where
  "startsService args binary \<longleftrightarrow> args = [] \<or> hd args = binary \<or> HasPrefix (hd args) ''-''"

lemma resolveCommand_service:
  "startsService args binary \<Longrightarrow>
     resolveCommand args binary = binary # (if args \<noteq> [] \<and> hd args = binary then tl args else args)"
  by (cases args) (auto simp: startsService_def resolveCommand_def ServiceArgs_def)

lemma resolveCommand_custom:
  "\<not> startsService args binary \<Longrightarrow> resolveCommand args binary = args \<and> hd args \<noteq> binary"
  by (cases args) (auto simp: startsService_def resolveCommand_def ServiceArgs_def)

lemma Execute_keeps: "Execute k args s = Some (out, s') \<Longrightarrow> s' = s"
  by (auto simp: Execute_def split: outcome.splits option.splits if_splits)

lemma Execute_Replaced:
  "Execute k args s = Some (Replaced path argv envp, s') \<Longrightarrow>
     args \<noteq> [] \<and> argv = args \<and> envp = env_List (environ s) \<and>
     (if CHR ''/'' \<in> set (hd args) then path = hd args else LookPath k (hd args) = Inr path)"
  by (auto simp: Execute_def executeProcess_def Let_def
      split: if_splits sum.splits option.splits outcome.splits)

lemma prepared_Some:
  "prepared m k s = Some (out, s') \<longleftrightarrow>
     (\<exists>e. m s = Some (Inl e, s') \<and> out = Returned (Some e)) \<or>
     (\<exists>x t. m s = Some (Inr x, t) \<and> k x t = Some (out, s'))"
  by (auto simp: prepared_def split: option.splits prod.splits sum.splits)

text \<open>C26: the dispatch of \<open>DBService\<close>.  The service is prepared exactly when no argument, its own
  name or an option comes first; it then runs as the binary with the remaining arguments, in the
  environment that the preparation left, and never after a failed preparation.  The database
  initialisation command runs only its handler and never executes anything.  Any other command is
  executed as it was given, in the environment the container was started with.\<close>

theorem DBService_dispatch:
  assumes "binary \<noteq> initDBCommand"
  shows "(startsService args binary \<longrightarrow>
            (prepare s = None \<longrightarrow> DBService k binary prepare initDB args s = None) \<and>
            (\<forall>e s'. prepare s = Some (Inl e, s') \<longrightarrow> DBService k binary prepare initDB args s = Some (Returned (Some e), s')) \<and>
            (\<forall>s'. prepare s = Some (Inr (), s') \<longrightarrow>
               DBService k binary prepare initDB args s =
                 Execute k (binary # (if args \<noteq> [] \<and> hd args = binary then tl args else args)) s')) \<and>
         (\<not> startsService args binary \<and> hd args = initDBCommand \<longrightarrow>
            DBService k binary prepare initDB args s = map_option (\<lambda>(r, s'). (returned r, s')) (initDB s)) \<and>
         (\<not> startsService args binary \<and> hd args \<noteq> initDBCommand \<longrightarrow>
            DBService k binary prepare initDB args s = Execute k args s) \<and>
         (\<forall>path argv envp s'. DBService k binary prepare initDB args s = Some (Replaced path argv envp, s') \<longrightarrow>
            envp = env_List (environ s') \<and> argv \<noteq> [])"
proof (intro conjI impI allI)
  show "DBService k binary prepare initDB args s = None"
    if "startsService args binary" "prepare s = None"
    using that by (simp add: DBService_def resolveCommand_service prepared_def)
  show "DBService k binary prepare initDB args s = Some (Returned (Some e), s')"
    if "startsService args binary" "prepare s = Some (Inl e, s')" for e s'
    using that by (simp add: DBService_def resolveCommand_service prepared_def)
  show "DBService k binary prepare initDB args s =
      Execute k (binary # (if args \<noteq> [] \<and> hd args = binary then tl args else args)) s'"
    if "startsService args binary" "prepare s = Some (Inr (), s')" for s'
    using that by (simp add: DBService_def resolveCommand_service prepared_def)
  show "DBService k binary prepare initDB args s = map_option (\<lambda>(r, s'). (returned r, s')) (initDB s)"
    if "\<not> startsService args binary \<and> hd args = initDBCommand"
    using that resolveCommand_custom [of args binary]
    by (auto simp: DBService_def prepared_def returned_def split: prod.splits option.splits sum.splits)
  show "DBService k binary prepare initDB args s = Execute k args s"
    if "\<not> startsService args binary \<and> hd args \<noteq> initDBCommand"
    using that resolveCommand_custom [of args binary] by (simp add: DBService_def)
  fix path argv envp s'
  assume r: "DBService k binary prepare initDB args s = Some (Replaced path argv envp, s')"
  then obtain t where "Execute k (resolveCommand args binary) t = Some (Replaced path argv envp, s')"
    by (auto simp: DBService_def Let_def prepared_Some split: if_splits)
  from Execute_keeps [OF this] Execute_Replaced [OF this]
  show "envp = env_List (environ s')" "argv \<noteq> []" by simp_all
qed

definition sample_kernel :: kernel where
  "sample_kernel = \<lparr>LookPath = (\<lambda>name. Inr (''/usr/sbin/'' @ name)), execve = (\<lambda>_ _ _. None)\<rparr>"

lemma DBService_dispatch_witness:
  "DBService sample_kernel ''zabbix_server'' (\<lambda>s. Some (Inr (), s\<lparr>environ := [(''A'', ''1'')]\<rparr>)) (\<lambda>s. Some (Inr (), s))
     [''-f''] \<lparr>environ = [], files = sample_fs\<rparr> =
   Execute sample_kernel [''zabbix_server'', ''-f''] \<lparr>environ = [(''A'', ''1'')], files = sample_fs\<rparr>"
proof -
  have 1: "''zabbix_server'' \<noteq> initDBCommand" by (simp add: initDBCommand_def)
  have 2: "startsService [''-f''] ''zabbix_server''" by (simp add: startsService_def HasPrefix_def)
  show ?thesis
    using DBService_dispatch [OF 1, of "[''-f'']" "\<lambda>s. Some (Inr (), s\<lparr>environ := [(''A'', ''1'')]\<rparr>)"
        "\<lparr>environ = [], files = sample_fs\<rparr>" sample_kernel "\<lambda>s. Some (Inr (), s)"] 2
    by simp
qed

text \<open>The storage initialisation commands never start the service or run a custom command:
  each returns, when its handler does, with success only when its handler is supported by the image,
  was called without further arguments, succeeded, and initialised at least one schema; the other
  handler is not run.  Every other command line goes to the next entrypoint untouched.\<close>

theorem StorageInitEntrypoint_dispatch:
  fixes next_entrypoint :: "'w entrypoint"
  defines "handler a h t \<equiv> (if a = initHistoryProvidersCommand then h else t)"
  shows "(if args \<noteq> [] \<and> (hd args = initHistoryProvidersCommand \<or> hd args = initTelemetryCommand)
          then (\<forall>out s'. StorageInitEntrypoint next_entrypoint history telemetry args s = Some (out, s') \<longrightarrow>
                  (\<exists>err. out = Returned err \<and>
                    (err = None \<longleftrightarrow>
                     (\<exists>prepare count. handler (hd args) history telemetry = Some prepare \<and> args = [hd args] \<and>
                        prepare s = Some (Inr count, s') \<and> 0 < count))) \<and>
                  (handler (hd args) history telemetry = None \<or> tl args \<noteq> [] \<longrightarrow> s' = s))
          else StorageInitEntrypoint next_entrypoint history telemetry args s = next_entrypoint args s)"
proof (cases args)
  case Nil
  then show ?thesis by (simp add: StorageInitEntrypoint_def)
next
  case (Cons a rest)
  show ?thesis
  proof (cases "a = initHistoryProvidersCommand \<or> a = initTelemetryCommand")
    case False
    with Cons show ?thesis by (simp add: StorageInitEntrypoint_def)
  next
    case True
    with Cons show ?thesis
      unfolding handler_def
      by (cases "if a = initHistoryProvidersCommand then history else telemetry")
        (auto simp: StorageInitEntrypoint_def prepared_Some split: if_splits)
  qed
qed

end
