(* ===== verification/Json.thy ===== *)
theory Json
  imports Strings
begin

text \<open>
  \<open>internal/bootstrap/json.go\<close> and what the program uses of Go's \<open>encoding/json\<close>: decoding a text
  into an untyped value or into a struct, and encoding strings.  A number keeps its literal;
  decoding it into an untyped value fails when the literal overflows a \<open>float64\<close>, as Go's does.
  Error texts of the decoder are not modelled.
\<close>

datatype json =
    JNull
  | JBool bool
  | JNumber string
  | JString string
  | JArray "json list"
  | JObject "(string \<times> json) list"

section \<open>Tokens\<close>

datatype token =
    TOpenObject | TCloseObject | TOpenArray | TCloseArray | TColon | TComma
  | TString string | TNumber string | TTrue | TFalse | TNull

definition hex_val :: "char \<Rightarrow> nat option" where
  "hex_val c =
     (if is_digit c then Some (digit_val c)
      else if CHR ''a'' \<le> c \<and> c \<le> CHR ''f'' then Some (of_char c - 87)
      else if CHR ''A'' \<le> c \<and> c \<le> CHR ''F'' then Some (of_char c - 55)
      else None)"

fun hex4 :: "string \<Rightarrow> (nat \<times> string) option" where
  "hex4 (a # b # c # d # rest) =
     (case (hex_val a, hex_val b, hex_val c, hex_val d) of
        (Some a, Some b, Some c, Some d) \<Rightarrow> Some (((a * 16 + b) * 16 + c) * 16 + d, rest)
      | _ \<Rightarrow> None)"
| "hex4 _ = None"

definition replacement_rune :: string where
  "replacement_rune = [CHR 0xEF, CHR 0xBF, CHR 0xBD]"

definition utf8_encode :: "nat \<Rightarrow> string" where
  "utf8_encode r =
     (if r < 128 then [char_of r]
      else if r < 2048 then [char_of (192 + r div 64), char_of (128 + r mod 64)]
      else if 55296 \<le> r \<and> r < 57344 \<or> 1114111 < r then replacement_rune
      else if r < 65536 then [char_of (224 + r div 4096), char_of (128 + r div 64 mod 64), char_of (128 + r mod 64)]
      else [char_of (240 + r div 262144), char_of (128 + r div 4096 mod 64),
            char_of (128 + r div 64 mod 64), char_of (128 + r mod 64)])"

text \<open>The length of the well-formed UTF-8 sequence at the start of a text, 0 when there is none.\<close>

definition in_range :: "nat \<Rightarrow> nat \<Rightarrow> char \<Rightarrow> bool" where
  "in_range lo hi c = (let b = of_char c in lo \<le> b \<and> b \<le> (hi :: nat))"

fun utf8_length :: "string \<Rightarrow> nat" where
  "utf8_length [] = 0"
| "utf8_length (a # s) =
     (if in_range 0 127 a then 1
      else
        (let b = (case s of x # _ \<Rightarrow> x | _ \<Rightarrow> CHR 0x00);
             c = (case s of _ # x # _ \<Rightarrow> x | _ \<Rightarrow> CHR 0x00);
             d = (case s of _ # _ # x # _ \<Rightarrow> x | _ \<Rightarrow> CHR 0x00);
             cont = in_range 128 191 in
         if in_range 194 223 a \<and> cont b then 2
         else if (in_range 224 224 a \<and> in_range 160 191 b \<or> in_range 237 237 a \<and> in_range 128 159 b \<or>
                  (in_range 225 236 a \<or> in_range 238 239 a) \<and> cont b) \<and> cont c then 3
         else if (in_range 240 240 a \<and> in_range 144 191 b \<or> in_range 244 244 a \<and> in_range 128 143 b \<or>
                  in_range 241 243 a \<and> cont b) \<and> cont c \<and> cont d then 4
         else 0))"

text \<open>The escape behind a backslash: the bytes it stands for and what follows it.  A surrogate
  half without its other half is the replacement rune.\<close>

definition read_escape :: "string \<Rightarrow> (string \<times> string) option" where
  "read_escape s =
     (case s of
        [] \<Rightarrow> None
      | c # rest \<Rightarrow>
          if c = CHR 0x22 \<or> c = CHR 0x5C \<or> c = CHR ''/'' then Some ([c], rest)
          else if c = CHR ''b'' then Some ([CHR 0x08], rest)
          else if c = CHR ''f'' then Some ([CHR 0x0C], rest)
          else if c = CHR ''n'' then Some ([CHR 0x0A], rest)
          else if c = CHR ''r'' then Some ([CHR 0x0D], rest)
          else if c = CHR ''t'' then Some ([CHR 0x09], rest)
          else if c = CHR ''u'' then
            (case hex4 rest of
               None \<Rightarrow> None
             | Some (u, rest1) \<Rightarrow>
                 if 55296 \<le> u \<and> u < 56320 \<and> prefix [CHR 0x5C, CHR ''u''] rest1 then
                   (case hex4 (drop 2 rest1) of
                      Some (v, rest2) \<Rightarrow>
                        if 56320 \<le> v \<and> v < 57344
                        then Some (utf8_encode (65536 + (u - 55296) * 1024 + (v - 56320)), rest2)
                        else Some (replacement_rune, rest1)
                    | None \<Rightarrow> Some (replacement_rune, rest1))
                 else Some (utf8_encode u, rest1))
          else None)"

lemma hex4_length: "hex4 s = Some (n, rest) \<Longrightarrow> length rest < length s"
  by (cases s rule: hex4.cases) (auto split: option.splits)

lemma read_escape_length: "read_escape s = Some (out, rest) \<Longrightarrow> length rest < length s"
proof (cases s)
  case (Cons c r)
  assume *: "read_escape s = Some (out, rest)"
  show ?thesis
  proof (cases "c = CHR ''u''")
    case False
    with * Cons show ?thesis by (auto simp: read_escape_def split: if_splits)
  next
    case True
    with * Cons obtain u r1 where u: "hex4 r = Some (u, r1)"
      by (auto simp: read_escape_def split: option.splits)
    then have "length r1 < length r" by (rule hex4_length)
    moreover have "length rest \<le> length r1"
      using * Cons True u
      by (auto simp: read_escape_def dest!: hex4_length split: if_splits option.splits)
    ultimately show ?thesis using Cons by simp
  qed
qed (simp add: read_escape_def)

text \<open>The rest of a string literal, its opening quote read.\<close>

function read_string :: "string \<Rightarrow> (string \<times> string) option" where
  "read_string s =
     (case s of
        [] \<Rightarrow> None
      | c # rest \<Rightarrow>
          if c = CHR 0x22 then Some ([], rest)
          else if c = CHR 0x5C then
            (case read_escape rest of
               None \<Rightarrow> None
             | Some (out, rest1) \<Rightarrow> map_option (map_prod ((@) out) id) (read_string rest1))
          else if in_range 0 31 c then None
          else
            (let n = utf8_length s in
             if n = 0 then map_option (map_prod ((@) replacement_rune) id) (read_string rest)
             else map_option (map_prod ((@) (take n s)) id) (read_string (drop n s))))"
  by pat_completeness auto
termination
  by (relation "measure length") (auto dest: read_escape_length)

declare read_string.simps [simp del]

fun span_digits :: "string \<Rightarrow> string \<times> string" where
  "span_digits s = (takeWhile is_digit s, dropWhile is_digit s)"

text \<open>A number literal: an optional sign, an integer without leading zeros, an optional fraction
  and an optional exponent.\<close>

definition read_int :: "string \<Rightarrow> string \<times> string" where
  "read_int s = (if prefix ''0'' s then (''0'', drop 1 s) else span_digits s)"

definition read_frac :: "string \<Rightarrow> string \<times> string" where
  "read_frac s = (if prefix ''.'' s then map_prod ((@) ''.'') id (span_digits (drop 1 s)) else ([], s))"

definition read_exp :: "string \<Rightarrow> string \<times> string" where
  "read_exp s =
     (if prefix ''e'' s \<or> prefix ''E'' s
      then (let k = (if prefix ''+'' (tl s) \<or> prefix ''-'' (tl s) then 2 else 1) in
            map_prod ((@) (take k s)) id (span_digits (drop k s)))
      else ([], s))"

definition read_number :: "string \<Rightarrow> (string \<times> string) option" where
  "read_number s =
     (let neg = prefix ''-'' s in
      case read_int (if neg then drop 1 s else s) of (ip, s2) \<Rightarrow>
      case read_frac s2 of (fr, s3) \<Rightarrow>
      case read_exp s3 of (ex, s4) \<Rightarrow>
      if ip = [] \<or> fr = ''.'' \<or> (ex \<noteq> [] \<and> \<not> is_digit (last ex)) then None
      else Some ((if neg then ''-'' else []) @ ip @ fr @ ex, s4))"

text \<open>The value of a literal as an integer times a power of ten, and whether it rounds to
  infinity.\<close>

definition number_parts :: "string \<Rightarrow> nat \<times> int" where
  "number_parts lit =
     (let body = TrimPrefix lit ''-'';
          mant = takeWhile (\<lambda>c. c \<noteq> CHR ''e'' \<and> c \<noteq> CHR ''E'') body;
          ex = drop (Suc (length mant)) body;
          ip = takeWhile (\<lambda>c. c \<noteq> CHR ''.'') mant;
          fp = drop (Suc (length ip)) mant;
          e = (if prefix ''-'' ex then - int (nat_of_dec (drop 1 ex))
               else int (nat_of_dec (TrimPrefix ex ''+'')))
      in (nat_of_dec (ip @ fp), e - int (length fp)))"

definition number_overflows :: "string \<Rightarrow> bool" where
  "number_overflows lit =
     (case number_parts lit of
        (m, e) \<Rightarrow>
          (let limit = 2 ^ 1024 - 2 ^ 970 :: nat in
           if m = 0 then False
           else if 0 \<le> e then (if 400 < e then True else limit \<le> m * 10 ^ nat e)
           else limit * 10 ^ nat (- e) \<le> m))"

definition read_token :: "string \<Rightarrow> (token \<times> string) option" where
  "read_token s =
     (case s of
        [] \<Rightarrow> None
      | c # rest \<Rightarrow>
          if c = CHR ''{'' then Some (TOpenObject, rest)
          else if c = CHR ''}'' then Some (TCloseObject, rest)
          else if c = CHR ''['' then Some (TOpenArray, rest)
          else if c = CHR '']'' then Some (TCloseArray, rest)
          else if c = CHR '':'' then Some (TColon, rest)
          else if c = CHR '','' then Some (TComma, rest)
          else if c = CHR 0x22 then map_option (map_prod TString id) (read_string rest)
          else if prefix ''true'' s then Some (TTrue, drop 4 s)
          else if prefix ''false'' s then Some (TFalse, drop 5 s)
          else if prefix ''null'' s then Some (TNull, drop 4 s)
          else map_option (map_prod TNumber id) (read_number s))"

definition json_space :: "char \<Rightarrow> bool" where
  "json_space c = (c = CHR 0x20 \<or> c = CHR 0x09 \<or> c = CHR 0x0A \<or> c = CHR 0x0D)"

declare utf8_length.simps [simp del]

lemma read_string_length: "read_string s = Some (out, rest) \<Longrightarrow> length rest < length s"
proof (induction s arbitrary: out rule: read_string.induct)
  case (1 s)
  note run = "1.prems" [unfolded read_string.simps [of s]]
  show ?case
  proof (cases s)
    case Nil
    with run show ?thesis by simp
  next
    case (Cons c r)
    consider (close) "c = CHR 0x22" | (esc) "c = CHR 0x5C" | (raw) "c \<noteq> CHR 0x22" "c \<noteq> CHR 0x5C" by blast
    then show ?thesis
    proof cases
      case close
      with run Cons show ?thesis by simp
    next
      case esc
      with run Cons obtain o1 r1 o2 where e: "read_escape r = Some (o1, r1)" "read_string r1 = Some (o2, rest)"
        by (auto split: option.splits)
      with "1.IH"(1) [OF Cons _ _ e(1)] esc have "length rest < length r1" by auto
      with read_escape_length [OF e(1)] Cons show ?thesis by simp
    next
      case raw
      show ?thesis
      proof (cases "utf8_length s = 0")
        case True
        with run Cons raw obtain o2 where "read_string r = Some (o2, rest)"
          by (auto split: if_splits)
        with "1.IH"(2) [OF Cons] raw True run Cons have "length rest < length r"
          by (auto split: if_splits)
        with Cons show ?thesis by simp
      next
        case False
        with run Cons raw obtain o2 where "read_string (drop (utf8_length s) s) = Some (o2, rest)"
          by (auto simp: Let_def split: if_splits)
        with "1.IH"(3) [OF Cons] raw False run Cons show ?thesis by (fastforce split: if_splits)
      qed
    qed
  qed
qed

declare span_digits.simps [simp del]

lemma span_digits_length: "span_digits s = (a, b) \<Longrightarrow> length b + length a = length s"
  by (metis add.commute length_append prod.inject span_digits.elims takeWhile_dropWhile_id)

lemma read_int_length: "read_int s = (a, b) \<Longrightarrow> length b + length a = length s"
  by (auto simp: read_int_def dest: span_digits_length prefix_length_le split: if_splits)

lemma read_frac_length: "read_frac s = (a, b) \<Longrightarrow> length b \<le> length s"
  using span_digits_length [of "drop 1 s"]
  by (cases "span_digits (drop 1 s)") (auto simp: read_frac_def split: if_splits)

lemma read_exp_length: "read_exp s = (a, b) \<Longrightarrow> length b \<le> length s"
  using span_digits_length [of "drop 1 s"] span_digits_length [of "drop 2 s"]
  by (cases "span_digits (drop 1 s)"; cases "span_digits (drop 2 s)")
    (auto simp: read_exp_def Let_def split: if_splits)

lemma read_number_length:
  assumes "read_number s = Some (lit, rest)"
  shows "length rest < length s"
proof -
  let ?s1 = "if prefix ''-'' s then drop 1 s else s"
  obtain ip s2 where ip: "read_int ?s1 = (ip, s2)" by fastforce
  obtain fr s3 where fr: "read_frac s2 = (fr, s3)" by fastforce
  obtain ex s4 where ex: "read_exp s3 = (ex, s4)" by fastforce
  have "ip \<noteq> []" "rest = s4"
    using assms by (auto simp: read_number_def Let_def ip fr ex split: if_splits)
  moreover have "length ?s1 \<le> length s" by simp
  ultimately show ?thesis
    using read_int_length [OF ip] read_frac_length [OF fr] read_exp_length [OF ex]
    by (cases ip) (simp_all split: if_splits)
qed

lemma read_token_length: "read_token s = Some (t, rest) \<Longrightarrow> length rest < length s"
proof (cases s)
  case (Cons c r)
  assume *: "read_token s = Some (t, rest)"
  then consider "rest = r" | out where "read_string r = Some (out, rest)"
    | "prefix ''true'' s" "rest = drop 4 s" | "prefix ''false'' s" "rest = drop 5 s"
    | "prefix ''null'' s" "rest = drop 4 s" | lit where "read_number s = Some (lit, rest)"
    using Cons by (auto simp: read_token_def split: if_splits)
  then show ?thesis
    by cases (auto simp: Cons dest: read_string_length read_number_length)
qed (simp add: read_token_def)

function json_tokens :: "string \<Rightarrow> token list option" where
  "json_tokens s =
     (let s = dropWhile json_space s in
      if s = [] then Some []
      else (case read_token s of
              None \<Rightarrow> None
            | Some (t, rest) \<Rightarrow> map_option ((#) t) (json_tokens rest)))"
  by pat_completeness auto
termination
  by (relation "measure length") (auto dest!: read_token_length intro: less_le_trans length_dropWhile_le)

declare json_tokens.simps [simp del]

section \<open>Values\<close>

text \<open>The scanner as a machine that reads tokens: the open arrays and objects, innermost first,
  and what may come next.  A document keeps every member of an object in order.\<close>

datatype frame = ArrayFrame "json list" | ObjectFrame "(string \<times> json) list" string

datatype expect = NeedValue | ValueOrClose | KeyOrClose | NeedKey | NeedColon | CommaOrClose

datatype scanner = Running "frame list" expect | Complete json | Broken

definition max_depth :: nat where "max_depth = 10000"

fun put_value :: "json \<Rightarrow> frame list \<Rightarrow> scanner" where
  "put_value v [] = Complete v"
| "put_value v (ArrayFrame vs # st) = Running (ArrayFrame (vs @ [v]) # st) CommaOrClose"
| "put_value v (ObjectFrame kvs k # st) = Running (ObjectFrame (kvs @ [(k, v)]) [] # st) CommaOrClose"

definition open_frame :: "frame \<Rightarrow> frame list \<Rightarrow> expect \<Rightarrow> scanner" where
  "open_frame f st e = (if length st < max_depth then Running (f # st) e else Broken)"

fun begin_value :: "frame list \<Rightarrow> token \<Rightarrow> scanner" where
  "begin_value st TOpenObject = open_frame (ObjectFrame [] []) st KeyOrClose"
| "begin_value st TOpenArray = open_frame (ArrayFrame []) st ValueOrClose"
| "begin_value st (TString s) = put_value (JString s) st"
| "begin_value st (TNumber n) = put_value (JNumber n) st"
| "begin_value st TTrue = put_value (JBool True) st"
| "begin_value st TFalse = put_value (JBool False) st"
| "begin_value st TNull = put_value JNull st"
| "begin_value st _ = Broken"

fun close_frame :: "frame list \<Rightarrow> token \<Rightarrow> scanner" where
  "close_frame (ArrayFrame vs # st) TCloseArray = put_value (JArray vs) st"
| "close_frame (ObjectFrame kvs k # st) TCloseObject = put_value (JObject kvs) st"
| "close_frame _ _ = Broken"

fun read_key :: "frame list \<Rightarrow> token \<Rightarrow> scanner" where
  "read_key (ObjectFrame kvs _ # st) (TString k) = Running (ObjectFrame kvs k # st) NeedColon"
| "read_key _ _ = Broken"

fun after_comma :: "frame list \<Rightarrow> scanner" where
  "after_comma (ArrayFrame vs # st) = Running (ArrayFrame vs # st) NeedValue"
| "after_comma (ObjectFrame kvs k # st) = Running (ObjectFrame kvs k # st) NeedKey"
| "after_comma [] = Broken"

fun json_step :: "token \<Rightarrow> scanner \<Rightarrow> scanner" where
  "json_step t (Running st NeedValue) = begin_value st t"
| "json_step t (Running st ValueOrClose) = (if t = TCloseArray then close_frame st t else begin_value st t)"
| "json_step t (Running st KeyOrClose) = (if t = TCloseObject then close_frame st t else read_key st t)"
| "json_step t (Running st NeedKey) = read_key st t"
| "json_step t (Running st NeedColon) = (if t = TColon then Running st NeedValue else Broken)"
| "json_step t (Running st CommaOrClose) = (if t = TComma then after_comma st else close_frame st t)"
| "json_step t (Complete v) = Broken"
| "json_step t Broken = Broken"

definition json_document :: "string \<Rightarrow> json option" where
  "json_document raw =
     (case json_tokens raw of
        None \<Rightarrow> None
      | Some ts \<Rightarrow> (case fold json_step ts (Running [] NeedValue) of Complete v \<Rightarrow> Some v | _ \<Rightarrow> None))"

text \<open>A document as an untyped value: numbers must fit, and the last member of a name counts.\<close>

function (sequential) any_value :: "json \<Rightarrow> json option"
  and any_values :: "json list \<Rightarrow> json list option"
  and any_members :: "(string \<times> json) list \<Rightarrow> (string \<times> json) list option" where
  "any_value (JNumber n) = (if number_overflows n then None else Some (JNumber n))"
| "any_value (JArray vs) = map_option JArray (any_values vs)"
| "any_value (JObject ms) = map_option JObject (any_members ms)"
| "any_value v = Some v"
| "any_values [] = Some []"
| "any_values (v # vs) =
     (case (any_value v, any_values vs) of (Some v', Some vs') \<Rightarrow> Some (v' # vs') | _ \<Rightarrow> None)"
| "any_members [] = Some []"
| "any_members (m # ms) =
     (case (any_value (snd m), any_members ms) of
        (Some v, Some ms') \<Rightarrow> Some (if map_of ms' (fst m) = None then (fst m, v) # ms' else ms')
      | _ \<Rightarrow> None)"
  by pat_completeness auto
termination
  by (relation "measure (\<lambda>x. case x of Inl v \<Rightarrow> size v
      | Inr (Inl vs) \<Rightarrow> size_list size vs
      | Inr (Inr ms) \<Rightarrow> size_list (\<lambda>m. Suc (size (snd m))) ms)")
    (auto simp: size_prod_simp)

definition Unmarshal :: "string \<Rightarrow> json option" where
  "Unmarshal raw = (case json_document raw of None \<Rightarrow> None | Some v \<Rightarrow> any_value v)"

definition DecodeJSON :: "string \<Rightarrow> json option" where
  "DecodeJSON raw =
     (case Unmarshal raw of
        Some v \<Rightarrow> Some v
      | None \<Rightarrow> Unmarshal (ReplaceAll raw [CHR 0x27] [CHR 0x22]))"

section \<open>Decoding into a struct\<close>

text \<open>
  \<open>json.Unmarshal\<close> into a struct: each member of an object that names a field, up to the case of
  letters, is decoded into it, in order; \<open>null\<close> changes nothing and unknown members are skipped.
  A value of a wrong kind is an error.
\<close>

definition TypeMismatch :: error where
  "TypeMismatch = SysError ''json: cannot unmarshal''"

fun decode_fields :: "(string \<times> (json \<Rightarrow> 'r \<Rightarrow> 'r result)) list \<Rightarrow> (string \<times> json) list \<Rightarrow> 'r \<Rightarrow> 'r result" where
  "decode_fields decoders [] r = Inr r"
| "decode_fields decoders ((k, v) # ms) r =
     (case find (\<lambda>(name, _). EqualFold name k) decoders of
        None \<Rightarrow> decode_fields decoders ms r
      | Some (_, f) \<Rightarrow> bind_res (f v r) (decode_fields decoders ms))"

definition decode_struct :: "(string \<times> (json \<Rightarrow> 'r \<Rightarrow> 'r result)) list \<Rightarrow> json \<Rightarrow> 'r \<Rightarrow> 'r result" where
  "decode_struct decoders v r =
     (case v of JNull \<Rightarrow> Inr r | JObject ms \<Rightarrow> decode_fields decoders ms r | _ \<Rightarrow> Inl TypeMismatch)"

definition decode_string :: "(string \<Rightarrow> 'r \<Rightarrow> 'r) \<Rightarrow> json \<Rightarrow> 'r \<Rightarrow> 'r result" where
  "decode_string upd v r =
     (case v of JNull \<Rightarrow> Inr r | JString s \<Rightarrow> Inr (upd s r) | _ \<Rightarrow> Inl TypeMismatch)"

definition decode_string_pointer :: "(string option \<Rightarrow> 'r \<Rightarrow> 'r) \<Rightarrow> json \<Rightarrow> 'r \<Rightarrow> 'r result" where
  "decode_string_pointer upd v r =
     (case v of JNull \<Rightarrow> Inr (upd None r) | JString s \<Rightarrow> Inr (upd (Some s) r) | _ \<Rightarrow> Inl TypeMismatch)"

definition decode_strings :: "(string list \<Rightarrow> 'r \<Rightarrow> 'r) \<Rightarrow> json \<Rightarrow> 'r \<Rightarrow> 'r result" where
  "decode_strings upd v r =
     (case v of
        JNull \<Rightarrow> Inr (upd [] r)
      | JArray vs \<Rightarrow>
          bind_res (for_res vs (\<lambda>v. case v of JNull \<Rightarrow> Inr [] | JString s \<Rightarrow> Inr s | _ \<Rightarrow> Inl TypeMismatch))
            (\<lambda>ss. Inr (upd ss r))
      | _ \<Rightarrow> Inl TypeMismatch)"

definition unmarshal_into :: "(string \<times> (json \<Rightarrow> 'r \<Rightarrow> 'r result)) list \<Rightarrow> string \<Rightarrow> 'r \<Rightarrow> 'r result" where
  "unmarshal_into decoders data zero =
     (case json_document data of
        None \<Rightarrow> Inl (SysError ''json: invalid document'')
      | Some v \<Rightarrow> decode_struct decoders v zero)"

section \<open>Encoding strings\<close>

text \<open>\<open>json.Marshal\<close> of a string: control characters, quotes and the characters that HTML treats
  specially are escaped, malformed UTF-8 becomes the replacement character.\<close>

definition hex_digit :: "nat \<Rightarrow> char" where
  "hex_digit d = (if d < 10 then char_of (48 + d) else char_of (87 + d))"

definition escape_byte :: "char \<Rightarrow> string" where
  "escape_byte c =
     (if c = CHR 0x22 \<or> c = CHR 0x5C then [CHR 0x5C, c]
      else if c = CHR 0x08 then [CHR 0x5C, CHR ''b'']
      else if c = CHR 0x0C then [CHR 0x5C, CHR ''f'']
      else if c = CHR 0x0A then [CHR 0x5C, CHR ''n'']
      else if c = CHR 0x0D then [CHR 0x5C, CHR ''r'']
      else if c = CHR 0x09 then [CHR 0x5C, CHR ''t'']
      else if in_range 0 31 c \<or> c = CHR ''<'' \<or> c = CHR ''>'' \<or> c = CHR ''&''
      then CHR 0x5C # ''u00'' @ [hex_digit (of_char c div 16), hex_digit (of_char c mod 16)]
      else [c])"

function escape_string :: "string \<Rightarrow> string" where
  "escape_string s =
     (if s = [] then []
      else
        (let n = utf8_length s in
         if n = 0 then CHR 0x5C # ''ufffd'' @ escape_string (tl s)
         else if n = 1 then escape_byte (hd s) @ escape_string (tl s)
         else if take n s = [CHR 0xE2, CHR 0x80, CHR 0xA8] then CHR 0x5C # ''u2028'' @ escape_string (drop n s)
         else if take n s = [CHR 0xE2, CHR 0x80, CHR 0xA9] then CHR 0x5C # ''u2029'' @ escape_string (drop n s)
         else take n s @ escape_string (drop n s)))"
  by pat_completeness auto
termination by (relation "measure length") auto

declare escape_string.simps [simp del]

definition marshal_string :: "string \<Rightarrow> string" where
  "marshal_string s = CHR 0x22 # escape_string s @ [CHR 0x22]"

section \<open>Encoded strings read back\<close>

text \<open>A text with every malformed byte replaced; well-formed text stays as it is.\<close>

function to_valid :: "string \<Rightarrow> string" where
  "to_valid s =
     (if s = [] then []
      else if utf8_length s = 0 then replacement_rune @ to_valid (tl s)
      else take (utf8_length s) s @ to_valid (drop (utf8_length s) s))"
  by pat_completeness auto
termination by (relation "measure length") auto

declare to_valid.simps [simp del]

lemma utf8_length_le: "utf8_length s \<le> 4"
  by (cases s) (simp_all add: utf8_length.simps Let_def)

lemma utf8_length_one: "utf8_length (c # s) = 1 \<longleftrightarrow> in_range 0 127 c"
  by (simp add: utf8_length.simps Let_def)

lemma in_range_NUL: "\<not> in_range 128 191 (CHR 0x00)" "\<not> in_range 160 191 (CHR 0x00)"
  "\<not> in_range 128 159 (CHR 0x00)" "\<not> in_range 144 191 (CHR 0x00)" "\<not> in_range 128 143 (CHR 0x00)"
  by code_simp+

lemma utf8_length_take:
  assumes "utf8_length s = n" "n \<noteq> 0"
  shows "n \<le> length s" "utf8_length (take n s @ r) = n"
proof -
  have "n \<le> length s \<and> utf8_length (take n s @ r) = n"
  proof (cases s)
    case (Cons a t)
    show ?thesis
    proof (cases "in_range 0 127 a")
      case True
      with assms Cons have "n = 1" by (simp add: utf8_length.simps)
      with True Cons show ?thesis by (simp add: utf8_length.simps)
    next
      case False
      note hi = this
      show ?thesis
      proof (cases t)
        case Nil
        with assms Cons hi show ?thesis by (simp add: utf8_length.simps Let_def in_range_NUL split: if_splits)
      next
        case t: (Cons b t')
        show ?thesis
        proof (cases t')
          case Nil
          with assms Cons t hi show ?thesis by (auto simp: utf8_length.simps Let_def in_range_NUL split: if_splits)
        next
          case t': (Cons c t'')
          show ?thesis
          proof (cases t'')
            case Nil
            with assms Cons t t' hi show ?thesis by (auto simp: utf8_length.simps Let_def in_range_NUL split: if_splits)
          next
            case t'': (Cons d u)
            with assms Cons t t' hi show ?thesis by (auto simp: utf8_length.simps Let_def split: if_splits)
          qed
        qed
      qed
    qed
  qed (use assms in \<open>simp add: utf8_length.simps\<close>)
  then show "n \<le> length s" "utf8_length (take n s @ r) = n" by simp_all
qed

lemma hex_val_digit: "d < 16 \<Longrightarrow> hex_val (hex_digit d) = Some d"
proof -
  have "\<forall>d \<in> set [0 ..< 16]. hex_val (hex_digit d) = Some d" by code_simp
  then show "d < 16 \<Longrightarrow> hex_val (hex_digit d) = Some d" by simp
qed

lemma utf8_length_ascii: "in_range 0 127 c \<Longrightarrow> utf8_length (c # s) = 1"
  by (simp only: utf8_length_one)

lemma read_string_escape:
  assumes "read_escape (e @ r) = Some (out, r)"
  shows "read_string (CHR 0x5C # e @ r) = map_option (map_prod ((@) out) id) (read_string r)"
  using assms by (subst read_string.simps) simp

lemma read_string_raw:
  assumes "utf8_length s = n" "n \<noteq> 0" "hd s \<noteq> CHR 0x22" "hd s \<noteq> CHR 0x5C" "\<not> in_range 0 31 (hd s)"
  shows "read_string (take n s @ r) = map_option (map_prod ((@) (take n s)) id) (read_string r)"
proof -
  note n = utf8_length_take [OF assms(1,2)]
  from n(1) assms(2) obtain c t where s: "s = c # t" by (cases s) auto
  define w where "w = take n s @ r"
  have w: "w = c # tl w" "utf8_length w = n" "take n w = take n s" "drop n w = r"
    using n(1) n(2) [of r] assms(2) by (auto simp: w_def s) (cases n; simp)+
  from w(1) obtain v where v: "w = c # v" by metis
  have c: "c \<noteq> CHR 0x22" "c \<noteq> CHR 0x5C" "\<not> in_range 0 31 c" using assms(3-5) s by simp_all
  show ?thesis
    unfolding w_def [symmetric] using w(2-4) assms(2) c
    by (subst read_string.simps) (simp add: v Let_def)
qed

lemma read_escape_short:
  "read_escape (CHR 0x22 # r) = Some ([CHR 0x22], r)" "read_escape (CHR 0x5C # r) = Some ([CHR 0x5C], r)"
  "read_escape (CHR ''b'' # r) = Some ([CHR 0x08], r)" "read_escape (CHR ''f'' # r) = Some ([CHR 0x0C], r)"
  "read_escape (CHR ''n'' # r) = Some ([CHR 0x0A], r)" "read_escape (CHR ''r'' # r) = Some ([CHR 0x0D], r)"
  "read_escape (CHR ''t'' # r) = Some ([CHR 0x09], r)"
  by (simp_all add: read_escape_def)

lemma read_escape_u:
  assumes "hex4 (ds @ r) = Some (u, r)" "\<not> (55296 \<le> u \<and> u < 56320)"
  shows "read_escape (CHR ''u'' # ds @ r) = Some (utf8_encode u, r)"
  using assms by (auto simp: read_escape_def)

lemma read_escape_byte:
  assumes "in_range 0 127 c"
  shows "read_string (escape_byte c @ r) = map_option (map_prod ((@) [c]) id) (read_string r)"
proof -
  define special where "special = (in_range 0 31 c \<or> c = CHR ''<'' \<or> c = CHR ''>'' \<or> c = CHR ''&'')"
  define named where "named = (c = CHR 0x08 \<or> c = CHR 0x0C \<or> c = CHR 0x0A \<or> c = CHR 0x0D \<or> c = CHR 0x09)"
  define q where "q = (c = CHR 0x22 \<or> c = CHR 0x5C)"
  consider (q) q | (named) named | (hex) "\<not> q" "\<not> named" special | (plain) "\<not> q" "\<not> named" "\<not> special" by blast
  then show ?thesis
  proof cases
    case q
    then show ?thesis
      using read_string_escape [of "[c]" r "[c]"] by (auto simp: q_def escape_byte_def read_escape_short)
  next
    case named
    then show ?thesis
      using read_string_escape [of "''b''" r] read_string_escape [of "''f''" r] read_string_escape [of "''n''" r]
        read_string_escape [of "''r''" r] read_string_escape [of "''t''" r]
      by (auto simp: named_def escape_byte_def read_escape_short)
  next
    case hex
    let ?c = "of_char c :: nat"
    have c: "?c < 128" using assms by (simp add: in_range_def Let_def)
    have "hex4 ((''00'' @ [hex_digit (?c div 16), hex_digit (?c mod 16)]) @ r) = Some (?c, r)"
      using c hex_val_digit [of "?c div 16"] hex_val_digit [of "?c mod 16"]
      by (simp add: hex_val_def [of "CHR ''0''"] is_digit_def digit_val_def)
    from read_escape_u [OF this] c
    have "read_escape ((CHR ''u'' # ''00'' @ [hex_digit (?c div 16), hex_digit (?c mod 16)]) @ r) = Some ([c], r)"
      by (simp add: utf8_encode_def)
    moreover have "escape_byte c = CHR 0x5C # CHR ''u'' # ''00'' @ [hex_digit (?c div 16), hex_digit (?c mod 16)]"
      using hex by (simp add: escape_byte_def q_def named_def special_def)
    ultimately show ?thesis
      using read_string_escape [of "CHR ''u'' # ''00'' @ [hex_digit (?c div 16), hex_digit (?c mod 16)]" r "[c]"]
      by simp
  next
    case plain
    have "utf8_length [c] = 1" using assms by (rule utf8_length_ascii)
    from read_string_raw [OF this, of r] plain show ?thesis
      by (simp add: escape_byte_def q_def named_def special_def)
  qed
qed

lemma escape_byte_apostrophe:
  assumes "in_range 0 127 c"
  shows "escape_byte c = [CHR 0x27] \<or> CHR 0x27 \<notin> set (escape_byte c)"
proof -
  have "\<forall>b \<in> set [0 ..< 128]. escape_byte (char_of (b :: nat)) = [CHR 0x27] \<or> CHR 0x27 \<notin> set (escape_byte (char_of b))"
    by code_simp
  moreover have "(of_char c :: nat) < 128" using assms by (simp add: in_range_def Let_def)
  ultimately have "escape_byte (char_of (of_char c :: nat)) = [CHR 0x27] \<or>
      CHR 0x27 \<notin> set (escape_byte (char_of (of_char c :: nat)))"
    by (metis atLeastLessThan_iff le0 set_upt)
  then show ?thesis by simp
qed

lemma read_escape_fffd: "read_escape (''ufffd'' @ r) = Some (replacement_rune, r)"
proof -
  have hex: "hex_val (CHR ''f'') = Some 15" "hex_val (CHR ''d'') = Some 13" by code_simp+
  have "hex4 (''fffd'' @ r) = Some (65533, r)" by (simp add: hex)
  moreover have "utf8_encode 65533 = replacement_rune" by code_simp
  ultimately show ?thesis using read_escape_u [of "''fffd''" r 65533] by simp
qed

lemma utf8_length_two_le:
  assumes "2 \<le> utf8_length (a # t)"
  shows "\<not> in_range 0 127 a"
  using assms by (auto simp: utf8_length.simps)

text \<open>A text that stands for some characters wherever it is in a string.\<close>

definition reads_as :: "string \<Rightarrow> string \<Rightarrow> bool" where
  "reads_as p out \<longleftrightarrow> (\<forall>r. read_string (p @ r) = map_option (map_prod ((@) out) id) (read_string r))"

lemma reads_as_Nil: "reads_as [] []"
proof -
  have "map_prod ((@) []) id = (id :: string \<times> string \<Rightarrow> _)" by (auto simp: fun_eq_iff)
  then show ?thesis by (simp add: reads_as_def option.map_id)
qed

lemma reads_as_append: "reads_as p a \<Longrightarrow> reads_as q b \<Longrightarrow> reads_as (p @ q) (a @ b)"
  unfolding reads_as_def
proof
  fix r
  assume "\<forall>r. read_string (p @ r) = map_option (map_prod ((@) a) id) (read_string r)"
    "\<forall>r. read_string (q @ r) = map_option (map_prod ((@) b) id) (read_string r)"
  then show "read_string ((p @ q) @ r) = map_option (map_prod ((@) (a @ b)) id) (read_string r)"
    by (cases "read_string r") auto
qed

lemma reads_as_escape: "(\<And>r. read_escape (e @ r) = Some (out, r)) \<Longrightarrow> reads_as (CHR 0x5C # e) out"
  by (simp add: reads_as_def read_string_escape)

lemma reads_as_u:
  "(\<And>r. hex4 (ds @ r) = Some (u, r)) \<Longrightarrow> \<not> (55296 \<le> u \<and> u < 56320) \<Longrightarrow> utf8_encode u = out \<Longrightarrow>
     reads_as (CHR 0x5C # CHR ''u'' # ds) out"
  by (rule reads_as_escape) (use read_escape_u in simp)

lemma in_range_high: "in_range lo hi c \<Longrightarrow> 128 \<le> lo \<Longrightarrow> \<not> in_range 0 127 c"
  by (simp add: in_range_def Let_def)

lemma multibyte_high:
  assumes more: "2 \<le> utf8_length s" and c: "c \<in> set (take (utf8_length s) s)"
  shows "\<not> in_range 0 127 c"
proof -
  note high = in_range_high [of 128 191] in_range_high [of 160 191] in_range_high [of 128 159]
    in_range_high [of 144 191] in_range_high [of 128 143]
  obtain a t where s: "s = a # t" using c by (cases s) auto
  have a: "\<not> in_range 0 127 a" using more s utf8_length_two_le by simp
  show ?thesis
  proof (cases t)
    case Nil
    with c s a show ?thesis by (auto dest: in_set_takeD)
  next
    case t: (Cons b t')
    with s a more have b: "\<not> in_range 0 127 b"
      by (auto simp: utf8_length.simps Let_def high split: if_splits)
    show ?thesis
    proof (cases "utf8_length s = 2")
      case True
      with c s t a b show ?thesis by (auto simp: numeral_2_eq_2)
    next
      case False
      with more have three: "3 \<le> utf8_length s" by simp
      show ?thesis
      proof (cases t')
        case Nil
        with c s t a b show ?thesis by (auto dest: in_set_takeD)
      next
        case t': (Cons d t'')
        with s t a three have d: "\<not> in_range 0 127 d"
          by (auto simp: utf8_length.simps Let_def high split: if_splits)
        show ?thesis
        proof (cases t'')
          case Nil
          with c s t t' a b d show ?thesis by (auto dest: in_set_takeD)
        next
          case t'': (Cons e u)
          show ?thesis
          proof (cases "utf8_length s = 3")
            case True
            with c s t t' a b d show ?thesis by (auto simp: numeral_3_eq_3)
          next
            case False
            with three have four: "utf8_length s = 4" using utf8_length_le [of s] by simp
            with s t t' t'' a have e: "\<not> in_range 0 127 e"
              by (auto simp: utf8_length.simps Let_def high split: if_splits)
            have "take 4 s = [a, b, d, e]" using s t t' t'' by (simp add: numeral_eq_Suc)
            with c four a b d e show ?thesis by auto
          qed
        qed
      qed
    qed
  qed
qed

text \<open>The pieces of an encoded string, one for each rune; a map of the text that goes piece by piece
  and keeps what the pieces stand for keeps what the whole stands for.\<close>

lemma escape_string_reads:
  assumes g: "g [] = []" "\<And>p q. g (p @ q) = g p @ g q"
    and piece: "\<And>p out. reads_as p out \<Longrightarrow> p = [CHR 0x27] \<or> CHR 0x27 \<notin> set p \<Longrightarrow> reads_as (g p) out"
  shows "reads_as (g (escape_string s)) (to_valid s)"
proof (induction s rule: escape_string.induct)
  case (1 s)
  have hex: "hex_val (CHR ''2'') = Some 2" "hex_val (CHR ''0'') = Some 0" "hex_val (CHR ''8'') = Some 8"
    "hex_val (CHR ''9'') = Some 9" by code_simp+
  have enc: "utf8_encode 8232 = [CHR 0xE2, CHR 0x80, CHR 0xA8]" "utf8_encode 8233 = [CHR 0xE2, CHR 0x80, CHR 0xA9]"
    by code_simp+
  show ?case
  proof (cases s)
    case Nil
    then show ?thesis
      by (subst escape_string.simps, subst to_valid.simps) (simp add: g reads_as_Nil)
  next
    case (Cons c t)
    let ?n = "utf8_length s"
    consider (zero) "?n = 0" | (one) "?n = 1" | (more) "2 \<le> ?n" by linarith
    then show ?thesis
    proof cases
      case zero
      with 1(1) [OF _ refl] Cons have IH: "reads_as (g (escape_string t)) (to_valid t)" by simp
      have "reads_as (CHR 0x5C # ''ufffd'') replacement_rune"
        by (rule reads_as_escape) (rule read_escape_fffd)
      from reads_as_append [OF piece [OF this] IH] have
        "reads_as (g ((CHR 0x5C # ''ufffd'') @ escape_string t)) (replacement_rune @ to_valid t)"
        by (simp only: g) simp
      with zero Cons show ?thesis by (subst escape_string.simps, subst to_valid.simps) simp
    next
      case one
      with Cons have c: "in_range 0 127 c" using utf8_length_one [of c t] by blast
      from one 1(2) [OF _ refl] Cons have IH: "reads_as (g (escape_string t)) (to_valid t)" by simp
      have "reads_as (escape_byte c) [c]" by (simp add: reads_as_def read_escape_byte [OF c])
      moreover have "escape_byte c = [CHR 0x27] \<or> CHR 0x27 \<notin> set (escape_byte c)"
        using c by (rule escape_byte_apostrophe)
      ultimately have "reads_as (g (escape_byte c @ escape_string t)) ([c] @ to_valid t)"
        using reads_as_append [OF piece IH, of "escape_byte c" "[c]"] by (simp only: g)
      with one Cons show ?thesis by (subst escape_string.simps, subst to_valid.simps) simp
    next
      case more
      let ?d = "drop ?n s"
      from more Cons have IH: "reads_as (g (escape_string ?d)) (to_valid ?d)"
        using 1(3) [OF _ refl] 1(4) [OF _ refl] 1(5) [OF _ refl] by fastforce
      have c: "\<not> in_range 0 127 c" using more Cons utf8_length_two_le by simp
      have "c \<noteq> CHR 0x22" "c \<noteq> CHR 0x5C" "\<not> in_range 0 31 c" using c by (auto simp: in_range_def Let_def)
      then have raw: "reads_as (take ?n s) (take ?n s)"
        using read_string_raw [OF refl, of s] more Cons by (simp add: reads_as_def)
      have "CHR 0x27 \<notin> set (take ?n s)"
        using multibyte_high [OF more] by (force simp: in_range_def)
      with raw have "reads_as (g (take ?n s)) (take ?n s)" using piece by blast
      then have plain: "reads_as (g (take ?n s @ escape_string ?d)) (take ?n s @ to_valid ?d)"
        using reads_as_append [OF _ IH] by (simp only: g)
      have line: "reads_as (g ((CHR 0x5C # CHR ''u'' # ds) @ escape_string ?d)) (take ?n s @ to_valid ?d)"
        if "\<And>r. hex4 (ds @ r) = Some (v, r)" "v < 55296" "utf8_encode v = take ?n s" "CHR 0x27 \<notin> set ds" for ds v
        using reads_as_append [OF piece [OF reads_as_u [OF that(1) _ that(3)]] IH] that(2,4) by (simp only: g) simp
      have lines: "take ?n s = [CHR 0xE2, CHR 0x80, CHR 0xA8] \<Longrightarrow>
          reads_as (g ((CHR 0x5C # CHR ''u'' # ''2028'') @ escape_string ?d)) (take ?n s @ to_valid ?d)"
        "take ?n s = [CHR 0xE2, CHR 0x80, CHR 0xA9] \<Longrightarrow>
          reads_as (g ((CHR 0x5C # CHR ''u'' # ''2029'') @ escape_string ?d)) (take ?n s @ to_valid ?d)"
        by (rule line [of _ 8232]; simp add: hex enc) (rule line [of _ 8233]; simp add: hex enc)
      show ?thesis
        using more Cons plain lines
        by (subst escape_string.simps, subst to_valid.simps) (simp add: Let_def)
    qed
  qed
qed

lemma read_string_end: "read_string (CHR 0x22 # rest) = Some ([], rest)"
  by (subst read_string.simps) simp

lemma read_escape_string:
  "read_string (escape_string s @ CHR 0x22 # rest) = Some (to_valid s, rest)"
  using escape_string_reads [of "\<lambda>p. p" s] by (simp add: reads_as_def read_string_end)

text \<open>An apostrophe may as well be written as an escape.\<close>

lemma read_escape_apostrophe:
  "read_string (ReplaceAll (escape_string s) [CHR 0x27] (CHR 0x5C # ''u0027'') @ CHR 0x22 # rest) =
     Some (to_valid s, rest)"
proof -
  let ?g = "\<lambda>p. ReplaceAll p [CHR 0x27] (CHR 0x5C # ''u0027'')"
  have "hex4 (''0027'' @ r) = Some (39, r)" for r
    by (simp add: hex_val_def is_digit_def digit_val_def)
  moreover have "utf8_encode 39 = [CHR 0x27]" by code_simp
  ultimately have u: "reads_as (CHR 0x5C # CHR ''u'' # ''0027'') [CHR 0x27]" by (intro reads_as_u) simp_all
  have a: "reads_as [CHR 0x27] out \<Longrightarrow> out = [CHR 0x27]" for out
  proof -
    assume "reads_as [CHR 0x27] out"
    moreover have "reads_as [CHR 0x27] [CHR 0x27]"
      using read_escape_byte [of "CHR 0x27"] by (simp add: reads_as_def in_range_def escape_byte_def)
    ultimately show "out = [CHR 0x27]"
      by (auto simp: reads_as_def read_string_end dest: spec [of _ "[CHR 0x22]"])
  qed
  have "reads_as (?g (escape_string s)) (to_valid s)"
  proof (rule escape_string_reads)
    fix p out assume p: "reads_as p out" "p = [CHR 0x27] \<or> CHR 0x27 \<notin> set p"
    show "reads_as (?g p) out"
    proof (cases "p = [CHR 0x27]")
      case True
      with p(1) have "out = [CHR 0x27]" using a by blast
      with True u show ?thesis by (simp add: ReplaceAll_char)
    next
      case False
      with p(2) have "CHR 0x27 \<notin> set p" by blast
      then have "?g p = p" unfolding ReplaceAll_char by (induction p) auto
      with p(1) show ?thesis by simp
    qed
  qed (simp_all add: ReplaceAll_char)
  then show ?thesis by (simp add: reads_as_def read_string_end)
qed

text \<open>A string that the code encodes as JSON is read back by the decoder as the same string,
  whatever bytes it has, except that malformed UTF-8 comes back as replacement characters.\<close>

theorem marshal_string_roundtrip: "json_document (marshal_string s) = Some (JString (to_valid s))"
proof -
  have space: "dropWhile json_space (marshal_string s) = marshal_string s"
    by (simp add: marshal_string_def json_space_def)
  have "json_tokens (marshal_string s) = Some [TString (to_valid s)]"
    using read_escape_string [of s "[]"]
    by (subst json_tokens.simps, subst json_tokens.simps)
      (simp add: space Let_def, simp add: marshal_string_def read_token_def)
  then show ?thesis by (simp add: json_document_def)
qed

end
