(* ===== verification/SecretRegistry.thy ===== *)
theory SecretRegistry
  imports Indexed Files Json
begin

text \<open>
  Which secrets a component needs for a command: \<open>internal/bootstrap/secret_registry.go\<close>,
  \<open>provider_secrets.go\<close> and the component tests of \<open>secrets.go\<close>.  Everything here only reads the
  environment.  The category of a secret is its relative directory with forward slashes.
\<close>

section \<open>Components, commands and specifications\<close>

datatype SecretComponent =
    SecretsAgent | SecretsAgent2 | SecretsServerMySQL | SecretsServerPgSQL | SecretsProxyMySQL
  | SecretsProxySQLite | SecretsWebMySQL | SecretsWebPgSQL | SecretsWebService | SecretsMCPServer
  | SecretsBridge

datatype SecretCommand = SecretsService | SecretsInitDB | SecretsInitHistory | SecretsInitTelemetry

record fileSecretSpec =
  inlineVar :: string
  fileVar :: string
  file_category :: string
  legacyDir :: string
  standard :: bool
  file_active :: bool

record valueSecretSpec =
  value_name :: string
  value_category :: string
  value_active :: bool

record secretAlias =
  legacy :: string
  canonical :: string

definition isServer :: "SecretComponent \<Rightarrow> bool" where
  "isServer c = (c = SecretsServerMySQL \<or> c = SecretsServerPgSQL)"

definition isProxy :: "SecretComponent \<Rightarrow> bool" where
  "isProxy c = (c = SecretsProxyMySQL \<or> c = SecretsProxySQLite)"

definition isServerOrProxy :: "SecretComponent \<Rightarrow> bool" where
  "isServerOrProxy c = (isServer c \<or> isProxy c)"

definition isWeb :: "SecretComponent \<Rightarrow> bool" where
  "isWeb c = (c = SecretsWebMySQL \<or> c = SecretsWebPgSQL)"

section \<open>Provider secrets\<close>

datatype ProviderSecretKind = ProviderValueSecret | ProviderFileSecret

record ProviderSecretDefinition =
  Suffix :: string
  Field :: string
  Kind :: ProviderSecretKind
  ManagedLocation :: bool

definition providerSecretDefinitions :: "ProviderSecretDefinition list" where
  "providerSecretDefinitions =
     [\<lparr>Suffix = ''_USERNAME'', Field = ''username'', Kind = ProviderValueSecret, ManagedLocation = False\<rparr>,
      \<lparr>Suffix = ''_PASSWORD'', Field = ''password'', Kind = ProviderValueSecret, ManagedLocation = False\<rparr>,
      \<lparr>Suffix = ''_SSL_KEY_PASSWORD'', Field = ''ssl_key_password'', Kind = ProviderValueSecret, ManagedLocation = False\<rparr>,
      \<lparr>Suffix = ''_SSL_CERT'', Field = ''ssl_cert_file'', Kind = ProviderFileSecret, ManagedLocation = False\<rparr>,
      \<lparr>Suffix = ''_SSL_KEY'', Field = ''ssl_key_file'', Kind = ProviderFileSecret, ManagedLocation = False\<rparr>,
      \<lparr>Suffix = ''_SSL_CA'', Field = ''ssl_ca_location'', Kind = ProviderFileSecret, ManagedLocation = True\<rparr>]"

definition longestFirst :: "string list \<Rightarrow> string list" where
  "longestFirst xs = sort_key (\<lambda>s. - int (length s)) xs"

definition buildProviderSecretSuffixes :: "string list" where
  "buildProviderSecretSuffixes =
     longestFirst (concat (map (\<lambda>d.
       if Kind d = ProviderValueSecret then [Suffix d, Suffix d @ ''_FILE'']
       else [Suffix d, Suffix d @ ''FILE''] @ (if ManagedLocation d then [Suffix d @ ''LOCATION''] else []))
       providerSecretDefinitions))"

definition buildProviderFileSecretSuffixes :: "string list" where
  "buildProviderFileSecretSuffixes =
     longestFirst (concat (map (\<lambda>d.
       if Kind d \<noteq> ProviderFileSecret then []
       else [Suffix d, Suffix d @ ''FILE''] @ (if ManagedLocation d then [Suffix d @ ''LOCATION''] else []))
       providerSecretDefinitions))"

definition buildProviderLocationSuffixes :: "string list" where
  "buildProviderLocationSuffixes =
     longestFirst (concat (map (\<lambda>d. if Kind d = ProviderFileSecret then [Suffix d @ ''LOCATION''] else [])
       providerSecretDefinitions))"

fun configuredSource :: "environment \<Rightarrow> string \<Rightarrow> bool \<Rightarrow> ProviderSecretDefinition list \<Rightarrow> string" where
  "configuredSource env base includeFiles [] = []"
| "configuredSource env base includeFiles (d # ds) =
     (if Kind d = ProviderFileSecret \<and> \<not> includeFiles then configuredSource env base includeFiles ds
      else
        (let name = base @ Suffix d;
             fileSuffix = (if Kind d = ProviderValueSecret then ''_FILE'' else ''FILE'') in
         if env_get env name \<noteq> [] then name
         else if env_get env (name @ fileSuffix) \<noteq> [] then name @ fileSuffix
         else configuredSource env base includeFiles ds))"

definition configuredProviderSecretSource :: "environment \<Rightarrow> string \<Rightarrow> bool \<Rightarrow> string" where
  "configuredProviderSecretSource env base includeFiles =
     configuredSource env base includeFiles providerSecretDefinitions"

definition hasProviderSecretSuffix :: "string \<Rightarrow> string list \<Rightarrow> bool" where
  "hasProviderSecretSuffix name suffs = list_ex (HasSuffix name) suffs"

definition dropProviderSecretSources :: "string \<Rightarrow> string list \<Rightarrow> environment \<Rightarrow> environment" where
  "dropProviderSecretSources pre suffs env =
     fold (\<lambda>name e. if HasPrefix name pre \<and> hasProviderSecretSuffix name suffs then env_delete e name else e)
       (env_names env) env"

definition historyPrefix :: string where "historyPrefix = ''ZBX_HISTORYPROVIDER_''"
definition telemetryPrefix :: string where "telemetryPrefix = ''ZBX_TELEMETRYPROVIDER_''"

text \<open>What one variable adds to the provider bases: nothing, an error, or a base with its
  category.\<close>

definition providerBase :: "bool \<Rightarrow> bool \<Rightarrow> string \<Rightarrow> string \<Rightarrow> (string \<times> string) option result" where
  "providerBase includeHistory includeHistoryFiles name pre =
     (if \<not> HasPrefix name pre then Inr None
      else if hasProviderSecretSuffix name buildProviderLocationSuffixes then Inr None
      else if pre = historyPrefix \<and> \<not> includeHistory then Inr None
      else if pre = historyPrefix \<and> \<not> includeHistoryFiles \<and>
              hasProviderSecretSuffix name buildProviderFileSecretSuffixes then Inr None
      else
        (case Cut (TrimPrefix name pre) (CHR ''_'') of
           (index, _, found) \<Rightarrow>
             if index = [] then Inr None
             else if parseIndexedNumber index = None
             then Inl (Errorf ''invalid indexed variable %s'' [name])
             else
               (let base = pre @ index;
                    family = (if pre = telemetryPrefix then ''telemetry'' else ''history'') in
                if found \<or> name = base
                then Inr (Some (base, ''providers/'' @ family @ ''-'' @ index))
                else Inr None)))"

fun providerBases :: "bool \<Rightarrow> bool \<Rightarrow> string list \<Rightarrow> (string \<times> string) list \<Rightarrow> (string \<times> string) list result" where
  "providerBases ih ihf [] bases = Inr bases"
| "providerBases ih ihf (name # names) bases =
     (case for_res [historyPrefix, telemetryPrefix] (providerBase ih ihf name) of
        Inl e \<Rightarrow> Inl e
      | Inr found \<Rightarrow>
          providerBases ih ihf names
            (fold (\<lambda>b bs. case b of None \<Rightarrow> bs | Some (k, c) \<Rightarrow> AList.update k c bs) found bases))"

text \<open>The secrets of one provider.\<close>

definition providerSpecs :: "environment \<Rightarrow> bool \<Rightarrow> (string \<times> string)
    \<Rightarrow> (fileSecretSpec list \<times> valueSecretSpec list) result" where
  "providerSpecs env includeHistoryFiles bc =
     (case bc of (base, category) \<Rightarrow>
        (let historyWithoutFiles = HasPrefix base historyPrefix \<and> \<not> includeHistoryFiles;
             source = (if env_get env base = []
                       then configuredProviderSecretSource env base (\<not> historyWithoutFiles) else []);
             isActive = env_get env base \<noteq> [];
             secrets = filter (\<lambda>d. \<not> (historyWithoutFiles \<and> Kind d = ProviderFileSecret)) providerSecretDefinitions in
         if source \<noteq> []
         then Inl (Errorf ''%s requires a matching non-empty provider variable %s'' [source, base])
         else Inr
           (map (\<lambda>d. \<lparr>inlineVar = base @ Suffix d, fileVar = base @ Suffix d @ ''FILE'', file_category = category,
                      legacyDir = [], standard = False, file_active = isActive\<rparr>)
              (filter (\<lambda>d. Kind d = ProviderFileSecret) secrets),
            map (\<lambda>d. \<lparr>value_name = base @ Suffix d, value_category = category, value_active = isActive\<rparr>)
              (filter (\<lambda>d. Kind d = ProviderValueSecret) secrets))))"

definition providerSecretPlan :: "environment \<Rightarrow> SecretComponent \<Rightarrow> SecretCommand
    \<Rightarrow> (fileSecretSpec list \<times> valueSecretSpec list) result" where
  "providerSecretPlan env component command =
     bind_res (providerBases (isServer component \<or> isWeb component) (isServer component) (env_names env) []) (\<lambda>bases.
       (let keys = sort (filter (\<lambda>base.
               (command = SecretsInitHistory \<longrightarrow> HasPrefix base historyPrefix) \<and>
               (command = SecretsInitTelemetry \<longrightarrow> HasPrefix base telemetryPrefix)) (map fst bases)) in
        bind_res (for_res keys (\<lambda>base.
            providerSpecs env (isServer component)
              (base, case map_of bases base of None \<Rightarrow> [] | Some c \<Rightarrow> c))) (\<lambda>specs.
          Inr (concat (map fst specs), concat (map snd specs)))))"

section \<open>The plan\<close>

definition envEnabled :: "string \<Rightarrow> bool" where
  "envEnabled v = List.member [''1'', ''true'', ''yes'', ''on''] (ToLower (TrimSpace v))"

definition secretModeEnabled :: "environment \<Rightarrow> string \<Rightarrow> string list \<Rightarrow> bool" where
  "secretModeEnabled env mode names =
     list_ex (\<lambda>name. list_ex (\<lambda>v. EqualFold (TrimSpace v) mode) (Split (env_get env name) (CHR '',''))) names"

definition telemetryProviderUsesVault :: "environment \<Rightarrow> bool" where
  "telemetryProviderUsesVault env =
     list_ex (\<lambda>(name, v).
       HasPrefix name telemetryPrefix \<and>
       parseIndexedNumber (TrimPrefix name telemetryPrefix) \<noteq> None \<and>
       (case DecodeJSON v of
          Some (JObject members) \<Rightarrow>
            (case map_of members ''vault_path'' of Some (JString p) \<Rightarrow> p \<noteq> [] | _ \<Rightarrow> False)
        | _ \<Rightarrow> False)) env"

definition addFiles :: "string \<Rightarrow> string \<Rightarrow> bool \<Rightarrow> bool \<Rightarrow> string list \<Rightarrow> fileSecretSpec list" where
  "addFiles category legacyd std act names =
     map (\<lambda>name. \<lparr>inlineVar = name, fileVar = name @ ''FILE'', file_category = category, legacyDir = legacyd,
                  standard = std, file_active = act\<rparr>) names"

definition addValues :: "string \<Rightarrow> bool \<Rightarrow> string list \<Rightarrow> valueSecretSpec list" where
  "addValues category act names =
     map (\<lambda>name. \<lparr>value_name = name, value_category = category, value_active = act\<rparr>) names"

record vaultTLSFile =
  vt_inline :: string
  vt_file :: string
  vt_location :: string
  vt_category :: string

definition vaultTLSFileDefinitions :: "vaultTLSFile list" where
  "vaultTLSFileDefinitions =
     [\<lparr>vt_inline = ''ZBX_VAULTTLSCERT'', vt_file = ''ZBX_VAULTTLSCERTFILE'',
       vt_location = ''ZBX_SSLCERTLOCATION'', vt_category = ''ssl/certs''\<rparr>,
      \<lparr>vt_inline = ''ZBX_VAULTTLSKEY'', vt_file = ''ZBX_VAULTTLSKEYFILE'',
       vt_location = ''ZBX_SSLKEYLOCATION'', vt_category = ''ssl/keys''\<rparr>]"

type_synonym secret_plan = "fileSecretSpec list \<times> valueSecretSpec list \<times> secretAlias list"

text \<open>The files that a component's service needs, before the database, Vault and providers.\<close>

definition serviceFiles :: "environment \<Rightarrow> SecretComponent \<Rightarrow> fileSecretSpec list" where
  "serviceFiles env component =
     (let enc = path_Join [env_get env ''ZABBIX_USER_HOME_DIR'', ''enc''];
          tlsMode = env_get env ''ZBX_TLSMODE'';
          apiMode = env_get env ''ZBX_ZABBIXAPITLSCONNECT'' in
      (if component = SecretsAgent \<or> component = SecretsAgent2
       then addFiles ''tls'' enc False True [''ZBX_TLSCA'', ''ZBX_TLSCRL'', ''ZBX_TLSCERT'', ''ZBX_TLSKEY'', ''ZBX_TLSPSK'']
       else if component = SecretsWebService
       then addFiles ''tls'' enc False (secretModeEnabled env ''cert'' [''ZBX_TLSACCEPT''])
              [''ZBX_TLSCA'', ''ZBX_TLSCERT'', ''ZBX_TLSKEY'']
       else if component = SecretsMCPServer
       then addFiles ''tls'' enc False (secretModeEnabled env ''cert'' [''ZBX_TLSACCEPT'']) [''ZBX_TLSCERT'', ''ZBX_TLSKEY'']
       else if component = SecretsBridge
       then addFiles ''tls'' enc False (EqualFold tlsMode ''mtls'') [''ZBX_TLSCA''] @
            addFiles ''tls'' enc False (EqualFold tlsMode ''tls'' \<or> EqualFold tlsMode ''mtls'') [''ZBX_TLSCERT'', ''ZBX_TLSKEY''] @
            addFiles ''tls'' enc False (EqualFold apiMode ''verify_ca'' \<or> EqualFold apiMode ''verify_full'') [''ZBX_ZABBIXAPITLSCA'']
       else []) @
      (if isServer component
       then addFiles ''tls'' enc False True [''ZBX_TLSCA'', ''ZBX_TLSCRL'', ''ZBX_TLSCERT'', ''ZBX_TLSKEY''] else []) @
      (if isProxy component
       then addFiles ''tls'' enc False True [''ZBX_TLSCA'', ''ZBX_TLSCRL'', ''ZBX_TLSCERT'', ''ZBX_TLSKEY'', ''ZBX_TLSPSK''] @
            addFiles ''apm'' [] False (envEnabled (env_get env ''ZBX_STARTAPMCOLLECTOR''))
              [''ZBX_APMTLSCA'', ''ZBX_APMTLSCERT'', ''ZBX_APMTLSKEY''] else []) @
      (if isWeb component
       then addFiles ''tls'' enc False (envEnabled (env_get env ''ZBX_SERVER_TLS_ACTIVE''))
              [''ZBX_SERVER_TLS_CA'', ''ZBX_SERVER_TLS_CERT'', ''ZBX_SERVER_TLS_KEY''] @
            addFiles ''sso'' WebCertsDir False True [''ZBX_SSO_SP_KEY'', ''ZBX_SSO_SP_CERT'', ''ZBX_SSO_IDP_CERT''] @
            addFiles ''apm'' [] False
              (env_get env ''ZBX_APM_CA'' \<noteq> [] \<or> env_get env ''ZBX_APM_CAFILE'' \<noteq> [] \<or> env_get env ''ZBX_APM_CA_LOCATION'' \<noteq> [])
              [''ZBX_APM_CA''] else []))"

definition databaseFiles :: "environment \<Rightarrow> SecretComponent \<Rightarrow> fileSecretSpec list" where
  "databaseFiles env component =
     (if isServer component \<or> component = SecretsProxyMySQL \<or> isWeb component
      then addFiles ''database'' [] True
             (if isWeb component then envEnabled (env_get env ''ZBX_DB_ENCRYPTION'')
              else env_get env ''ZBX_DBTLSCONNECT'' \<noteq> [])
             [''ZBX_DBTLSCA'', ''ZBX_DBTLSCERT'', ''ZBX_DBTLSKEY'']
      else [])"

definition databaseValues :: "environment \<Rightarrow> SecretComponent \<Rightarrow> valueSecretSpec list" where
  "databaseValues env component =
     (let localDBCredentials = env_get env ''ZBX_VAULTDBPATH'' = [] in
      (if component = SecretsServerMySQL \<or> component = SecretsProxyMySQL \<or> component = SecretsWebMySQL
       then addValues ''database'' localDBCredentials [''MYSQL_USER'', ''MYSQL_PASSWORD''] @
            addValues ''database'' True [''MYSQL_ROOT_USER'', ''MYSQL_ROOT_PASSWORD''] else []) @
      (if component = SecretsServerPgSQL \<or> component = SecretsWebPgSQL
       then addValues ''database'' localDBCredentials [''POSTGRES_USER'', ''POSTGRES_PASSWORD''] else []))"

definition vaultPlan :: "environment \<Rightarrow> SecretComponent \<Rightarrow> SecretCommand \<Rightarrow> secret_plan" where
  "vaultPlan env component command =
     (let legacyd = (if isWeb component then WebCertsDir
                     else path_Join [env_get env ''ZABBIX_USER_HOME_DIR'', ''enc'']);
          vaultActive = (env_get env ''ZBX_VAULT'' \<noteq> [] \<or>
                         command = SecretsInitTelemetry \<and> telemetryProviderUsesVault env) in
      (map (\<lambda>f. \<lparr>inlineVar = vt_inline f, fileVar = vt_file f,
                 file_category = (if isServerOrProxy component then vt_category f else ''vault''),
                 legacyDir = legacyd, standard = False, file_active = vaultActive\<rparr>) vaultTLSFileDefinitions,
       addValues ''vault'' vaultActive [''VAULT_TOKEN'', ''ZBX_VAULTAPPROLEID'', ''ZBX_VAULTAPPSECRETID''],
       [\<lparr>legacy = ''ZBX_VAULTCERTFILE'', canonical = ''ZBX_VAULTTLSCERTFILE''\<rparr>,
        \<lparr>legacy = ''ZBX_VAULTKEYFILE'', canonical = ''ZBX_VAULTTLSKEYFILE''\<rparr>]))"

definition webAliases :: "secretAlias list" where
  "webAliases =
     [\<lparr>legacy = ''ZBX_DB_CA_FILE'', canonical = ''ZBX_DBTLSCAFILE''\<rparr>,
      \<lparr>legacy = ''ZBX_DB_CERT_FILE'', canonical = ''ZBX_DBTLSCERTFILE''\<rparr>,
      \<lparr>legacy = ''ZBX_DB_KEY_FILE'', canonical = ''ZBX_DBTLSKEYFILE''\<rparr>]"

definition secretPlan :: "environment \<Rightarrow> SecretComponent \<Rightarrow> SecretCommand \<Rightarrow> secret_plan result" where
  "secretPlan env component command =
     (let service = (command = SecretsService);
          server = isServer component; proxy = isProxy component; web = isWeb component;
          database = (service \<or> command = SecretsInitDB);
          vault = ((server \<or> proxy \<or> web) \<and> (service \<or> command = SecretsInitDB \<or> command = SecretsInitTelemetry));
          (vaultFiles, vaultValues, vaultAliases) = (if vault then vaultPlan env component command else ([], [], []));
          files = (if service then serviceFiles env component else []) @
                  (if database then databaseFiles env component else []) @ vaultFiles;
          values = (if database then databaseValues env component else []) @ vaultValues;
          aliases = vaultAliases @ (if web \<and> service then webAliases else []);
          providers = (server \<and> (service \<or> command = SecretsInitHistory \<or> command = SecretsInitTelemetry) \<or>
                       proxy \<and> (service \<or> command = SecretsInitTelemetry) \<or> web \<and> service) in
      if providers
      then bind_res (providerSecretPlan env component command) (\<lambda>(providerFiles, providerValues).
             Inr (files @ providerFiles, values @ providerValues, aliases))
      else Inr (files, values, aliases))"

end
