(* ===== verification/SecretFiles.thy ===== *)
theory SecretFiles
  imports SecretRegistry Command
begin

text \<open>
  Finding the secrets that were mounted, and the tree of secrets that the entrypoint generates:
  \<open>internal/bootstrap/secret_files.go\<close>.  The generated tree is reached only through an
  \<open>os.Root\<close>, which is the place it was opened at; the file operations on it are those of \<open>OS\<close>
  confined to that place.  Warnings are not modelled.
\<close>

section \<open>State\<close>

record managed = process +
  root :: "place option"

definition on_files :: "(filesystem, 'a) eff \<Rightarrow> (managed, 'a) eff" where
  "on_files m s = (case m (files s) of (r, fs) \<Rightarrow> (r, s\<lparr>files := fs\<rparr>))"

definition on_env :: "(environment \<Rightarrow> environment) \<Rightarrow> (managed, unit) eff" where
  "on_env f s = (Inr (), s\<lparr>environ := f (environ s)\<rparr>)"

definition then_eff :: "('s, unit) eff \<Rightarrow> ('s, 'a) eff \<Rightarrow> ('s, 'a) eff" where
  "then_eff m k = bind_eff m (\<lambda>_. k)"

section \<open>Roots\<close>

definition externalSecretsRoot :: string where "externalSecretsRoot = ''/run/zabbix/secrets''"
definition internalSecretsRoot :: string where "internalSecretsRoot = ''/run/zabbix/secrets_internal''"
definition dockerSecretsRoot :: string where "dockerSecretsRoot = SecretsDir"

section \<open>Mounted secrets\<close>

definition regularFileWithin :: "filesystem \<Rightarrow> string \<Rightarrow> string \<Rightarrow> bool result" where
  "regularFileWithin fs base relative =
     (if \<not> IsLocal relative then Inl (Errorf ''relative path %q escapes %q'' [relative, base])
      else
        (let candidate = path_Join [base, relative] in
         case os_Stat fs candidate of
           Inl e \<Rightarrow>
             if errors_Is e ErrNotExist then Inr False
             else Inl (Wrapf ''access secret file %q: %w'' [candidate] e)
         | Inr info \<Rightarrow>
             if \<not> IsRegular info then Inr False
             else
               (case (case EvalSymlinks fs base of
                        Inl e \<Rightarrow> if errors_Is e ErrNotExist then Inr (path_Abs fs base) else Inl e
                      | Inr b \<Rightarrow> Inr b) of
                  Inl e \<Rightarrow> Inl (Wrapf ''resolve secret directory %q: %w'' [base] e)
                | Inr resolvedBase \<Rightarrow>
                    (case EvalSymlinks fs candidate of
                       Inl e \<Rightarrow> Inl (Wrapf ''resolve secret file %q: %w'' [candidate] e)
                     | Inr resolvedCandidate \<Rightarrow>
                         (case Rel resolvedBase resolvedCandidate of
                            Inl _ \<Rightarrow> Inl (Errorf ''secret file %q resolves outside %q'' [candidate, base])
                          | Inr rel \<Rightarrow>
                              if IsLocal rel then Inr True
                              else Inl (Errorf ''secret file %q resolves outside %q'' [candidate, base]))))))"

definition locateSecret :: "filesystem \<Rightarrow> string \<Rightarrow> string \<Rightarrow> string \<Rightarrow> bool \<Rightarrow> string \<Rightarrow> string result" where
  "locateSecret fs variable path category std legacyd =
     (if IsAbs path then Inr (Clean path)
      else if \<not> IsLocal path
      then Inl (Errorf ''%s: relative path %q escapes its secret directory'' [variable, path])
      else
        (let newBase = path_Join [externalSecretsRoot, category];
             newPath = path_Join [newBase, path];
             within = (\<lambda>base. wrap_res ''%s: %w'' [variable] (regularFileWithin fs base path)) in
         if std then
           bind_res (within dockerSecretsRoot) (\<lambda>standardExists.
           bind_res (within newBase) (\<lambda>newExists.
             let standardPath = path_Join [dockerSecretsRoot, path] in
             if standardExists then Inr standardPath
             else if newExists then Inr newPath
             else Inl (Errorf ''%s: secret file %q was not found (checked %q and %q)''
                    [variable, path, standardPath, newPath])))
         else
           (let legacyPath = (if legacyd \<noteq> [] then path_Join [legacyd, path] else []) in
            bind_res (within newBase) (\<lambda>newExists.
            bind_res (if legacyPath \<noteq> [] then within legacyd else Inr False) (\<lambda>legacyExists.
              if newExists \<and> legacyExists
              then Inl (Errorf ''%s: secret file exists in both %q and deprecated location %q''
                     [variable, newPath, legacyPath])
              else if newExists then Inr newPath
              else if legacyExists then Inr legacyPath
              else if legacyPath = []
              then Inl (Errorf ''%s: secret file %q was not found (checked %q)'' [variable, path, newPath])
              else Inl (Errorf ''%s: secret file %q was not found (checked %q and %q)''
                     [variable, path, newPath, legacyPath]))))))"

definition ResolveExternalSecretFile :: "filesystem \<Rightarrow> string \<Rightarrow> string \<Rightarrow> string \<Rightarrow> string result" where
  "ResolveExternalSecretFile fs variable path category = locateSecret fs variable path category False []"

section \<open>The generated tree\<close>

definition writableSecretDirError :: "string \<Rightarrow> error \<Rightarrow> error" where
  "writableSecretDirError dir e =
     Wrapf ''prepare generated secret directory %q: %w; mount a writable tmpfs at %s'' [dir, internalSecretsRoot] e"

definition managed_open :: "bool \<Rightarrow> (managed, place option) eff" where
  "managed_open create s =
     (case root s of
        Some b \<Rightarrow> (Inr (Some b), s)
      | None \<Rightarrow>
          (case (if create then on_files (os_MkdirAll internalSecretsRoot 448) s else (Inr (), s)) of
             (Inl e, s') \<Rightarrow> (Inl (writableSecretDirError internalSecretsRoot e), s')
           | (Inr _, s') \<Rightarrow>
               (case os_Lstat (files s') internalSecretsRoot of
                  Inl e \<Rightarrow>
                    if errors_Is e ErrNotExist \<and> \<not> create then (Inr None, s')
                    else (Inl (writableSecretDirError internalSecretsRoot e), s')
                | Inr info \<Rightarrow>
                    if IsLink info \<or> \<not> IsDir info
                    then (Inl (Errorf ''generated secret root %q must be a real directory'' [internalSecretsRoot]), s')
                    else
                      (case must_exist (files s') OpOpen (resolve (files s') internalSecretsRoot True) of
                         Inl e \<Rightarrow> (Inl (writableSecretDirError internalSecretsRoot e), s')
                       | Inr (b, _) \<Rightarrow> (Inr (Some b), s'\<lparr>root := Some b\<rparr>)))))"

definition openExisting :: "(managed, place option) eff" where
  "openExisting = managed_open False"

definition openWritable :: "(managed, place option) eff" where
  "openWritable = managed_open True"

definition managedRelativePath :: "filesystem \<Rightarrow> string \<Rightarrow> string result" where
  "managedRelativePath fs path =
     (case Rel (path_Abs fs internalSecretsRoot) (path_Abs fs path) of
        Inl _ \<Rightarrow> Inl (Errorf ''generated secret path %q escapes %q'' [path, internalSecretsRoot])
      | Inr relative \<Rightarrow>
          if IsLocal relative then Inr relative
          else Inl (Errorf ''generated secret path %q escapes %q'' [path, internalSecretsRoot]))"

text \<open>The operations of \<open>os.Root\<close> that the code uses, at the place \<open>b\<close>.\<close>

definition root_MkdirAll :: "place \<Rightarrow> string \<Rightarrow> nat \<Rightarrow> (filesystem, unit) eff" where
  "root_MkdirAll b dir mode fs =
     map_prod (map_sum id (\<lambda>_. ())) id (mkdir_all (Some b) b (Split dir (CHR ''/'')) mode fs)"

definition root_Chmod :: "place \<Rightarrow> string \<Rightarrow> nat \<Rightarrow> (filesystem, unit) eff" where
  "root_Chmod b path mode fs =
     (case must_exist fs OpChmod (resolve_in fs b path True) of
        Inl e \<Rightarrow> (Inl e, fs)
      | Inr (p, RegularFile d _) \<Rightarrow> (Inr (), put_node p (RegularFile d mode) fs)
      | Inr (p, Directory _) \<Rightarrow> (Inr (), put_node p (Directory mode) fs)
      | Inr (p, _) \<Rightarrow> (Inr (), fs))"

definition root_ReadDir :: "place \<Rightarrow> string \<Rightarrow> filesystem \<Rightarrow> (string \<times> node) list result" where
  "root_ReadDir b path fs =
     bind_res (must_exist fs OpOpen (resolve_in fs b path True)) (\<lambda>_. list_dir fs (resolve_in fs b path True))"

fun createManagedTemp :: "nat \<Rightarrow> place \<Rightarrow> string \<Rightarrow> (filesystem, string) eff" where
  "createManagedTemp 0 b directory fs =
     (Inl (Errorf ''cannot allocate a unique temporary secret file'' []), fs)"
| "createManagedTemp (Suc n) b directory fs =
     (let token = (case tokens fs of [] \<Rightarrow> [] | t # _ \<Rightarrow> t);
          fs1 = fs\<lparr>tokens := drop 1 (tokens fs)\<rparr>;
          name = path_Join [directory, ''.secret-'' @ token] in
      case create_at OpCreate (RegularFile [] 384) (resolve_in fs1 b name False) fs1 of
        (Inl e, fs2) \<Rightarrow> if errors_Is e ErrExist then createManagedTemp n b directory fs2 else (Inl e, fs2)
      | (Inr _, fs2) \<Rightarrow> (Inr name, fs2))"

text \<open>The steps of \<open>writeSecret\<close> on the open temporary file.\<close>

definition fill_temporary :: "place \<Rightarrow> string \<Rightarrow> string \<Rightarrow> string \<Rightarrow> (filesystem, unit) eff" where
  "fill_temporary b temporary relative data =
     bind_eff (\<lambda>s. change_file OpChmod (\<lambda>d _. RegularFile d 384) (resolve_in s b temporary False) s) (\<lambda>_.
     bind_eff (\<lambda>s. change_file OpWrite (\<lambda>_ m. RegularFile data m) (resolve_in s b temporary False) s) (\<lambda>_.
     bind_eff (\<lambda>s. (map_sum id (\<lambda>_. ()) (must_exist s OpClose (resolve_in s b temporary False)), s)) (\<lambda>_.
     (\<lambda>s. rename_at (resolve_in s b temporary False) (resolve_in s b relative False) s))))"

definition write_in_root :: "place \<Rightarrow> string \<Rightarrow> string \<Rightarrow> (filesystem, unit) eff" where
  "write_in_root b relative data =
     (let dir = path_Dir relative;
          shown = path_Join [internalSecretsRoot, dir];
          dirError = (\<lambda>m fs. case m fs of (Inl e, fs') \<Rightarrow> (Inl (writableSecretDirError shown e), fs') | r \<Rightarrow> r) in
      bind_eff (dirError (root_MkdirAll b dir 448)) (\<lambda>_.
      bind_eff (dirError (root_Chmod b dir 448)) (\<lambda>_.
      bind_eff (\<lambda>fs. case createManagedTemp 10 b dir fs of
                       (Inl e, fs') \<Rightarrow> (Inl (writableSecretDirError shown e), fs') | r \<Rightarrow> r) (\<lambda>temporary fs.
        (case fill_temporary b temporary relative data fs of
           (r, fs') \<Rightarrow> (r, snd (remove_at (resolve_in fs' b temporary False) fs')))))))"

definition writeSecret :: "string \<Rightarrow> string \<Rightarrow> (managed, unit) eff" where
  "writeSecret path data s =
     (case managedRelativePath (files s) path of
        Inl e \<Rightarrow> (Inl e, s)
      | Inr relative \<Rightarrow>
          (case openWritable s of
             (Inl e, s') \<Rightarrow> (Inl e, s')
           | (Inr None, s') \<Rightarrow> (Inl ErrNotExist, s')
           | (Inr (Some b), s') \<Rightarrow> on_files (write_in_root b relative data) s'))"

text \<open>\<open>openWritable\<close> never answers without a root; that branch above is only there for the type.\<close>

definition removeSecretRelative :: "string \<Rightarrow> (managed, unit) eff" where
  "removeSecretRelative relative s =
     (case openExisting s of
        (Inl e, s') \<Rightarrow> (Inl e, s')
      | (Inr None, s') \<Rightarrow> (Inr (), s')
      | (Inr (Some b), s') \<Rightarrow>
          (case on_files (\<lambda>fs. remove_at (resolve_in fs b relative False) fs) s' of
             (Inl e, s'') \<Rightarrow>
               (if errors_Is e ErrNotExist then Inr ()
                else Inl (Wrapf ''remove stale generated secret %q: %w'' [relative] e), s'')
           | (Inr _, s'') \<Rightarrow> (Inr (), s'')))"

definition removeSecret :: "string \<Rightarrow> (managed, unit) eff" where
  "removeSecret path s =
     (case managedRelativePath (files s) path of
        Inl e \<Rightarrow> (Inl e, s)
      | Inr relative \<Rightarrow> removeSecretRelative relative s)"

definition removeTree :: "string \<Rightarrow> (managed, unit) eff" where
  "removeTree path s =
     (case managedRelativePath (files s) path of
        Inl e \<Rightarrow> (Inl e, s)
      | Inr relative \<Rightarrow>
          (case openExisting s of
             (Inl e, s') \<Rightarrow> (Inl e, s')
           | (Inr None, s') \<Rightarrow> (Inr (), s')
           | (Inr (Some b), s') \<Rightarrow>
               wrap_eff ''remove stale generated path %q: %w'' [relative]
                 (on_files (\<lambda>fs. remove_all_at (resolve_in fs b relative False) fs)) s'))"

section \<open>Resolving one secret\<close>

definition normalizeSecretAlias :: "secretAlias \<Rightarrow> (managed, unit) eff" where
  "normalizeSecretAlias alias s =
     (let old = env_get (environ s) (legacy alias); new = env_get (environ s) (canonical alias) in
      if old = [] then on_env (\<lambda>env. env_delete env (legacy alias)) s
      else if new \<noteq> [] then
        (if old \<noteq> new
         then (Inl (Errorf ''%s and %s specify different values; remove deprecated variable %s''
                 [legacy alias, canonical alias, legacy alias]), s)
         else on_env (\<lambda>env. env_delete env (legacy alias)) s)
      else on_env (\<lambda>env. env_delete (env_set env (canonical alias) old) (legacy alias)) s)"

definition removeEmpty :: "string \<Rightarrow> environment \<Rightarrow> environment" where
  "removeEmpty name env = (if env_has env name \<and> env_get env name = [] then env_delete env name else env)"

definition normalizeEmptySecretSources ::
  "fileSecretSpec list \<Rightarrow> valueSecretSpec list \<Rightarrow> environment \<Rightarrow> environment" where
  "normalizeEmptySecretSources fspecs vspecs env =
     fold removeEmpty
       (concat (map (\<lambda>f. [inlineVar f, fileVar f]) fspecs) @
        concat (map (\<lambda>v. [value_name v, value_name v @ ''_FILE'']) vspecs)) env"

definition managedSecretPath :: "fileSecretSpec \<Rightarrow> string" where
  "managedSecretPath spec = path_Join [internalSecretsRoot, file_category spec, fileVar spec]"

definition resolveFileSecret :: "fileSecretSpec \<Rightarrow> (managed, unit) eff" where
  "resolveFileSecret spec s =
     (let inl = env_get (environ s) (inlineVar spec);
          path = env_get (environ s) (fileVar spec);
          s = s\<lparr>environ := env_delete (environ s) (inlineVar spec)\<rparr> in
      if \<not> file_active spec \<or> (inl = [] \<and> path = [])
      then then_eff (removeSecret (managedSecretPath spec)) (on_env (\<lambda>env. env_delete env (fileVar spec))) s
      else if inl \<noteq> [] \<and> path \<noteq> []
      then (Inl (Errorf ''both variables %s and %s are set (but are exclusive)'' [inlineVar spec, fileVar spec]), s)
      else if inl \<noteq> []
      then then_eff (wrap_eff ''write %s: %w'' [fileVar spec] (writeSecret (managedSecretPath spec) inl))
             (on_env (\<lambda>env. env_set env (fileVar spec) (managedSecretPath spec))) s
      else
        (case locateSecret (files s) (fileVar spec) path (file_category spec) (standard spec) (legacyDir spec) of
           Inl e \<Rightarrow> (Inl e, s)
         | Inr resolved \<Rightarrow> on_env (\<lambda>env. env_set env (fileVar spec) resolved) s))"

definition resolveValueSecret :: "valueSecretSpec \<Rightarrow> (managed, unit) eff" where
  "resolveValueSecret spec s =
     (let fileName = value_name spec @ ''_FILE'';
          val = env_get (environ s) (value_name spec);
          path = env_get (environ s) fileName in
      if \<not> value_active spec
      then on_env (\<lambda>env. env_delete (env_delete env (value_name spec)) fileName) s
      else if val \<noteq> [] \<and> path \<noteq> []
      then (Inl (Errorf ''both variables %s and %s are set (but are exclusive)'' [value_name spec, fileName]), s)
      else if path = [] then on_env (\<lambda>env. env_delete env fileName) s
      else
        (case locateSecret (files s) fileName path (value_category spec) True [] of
           Inl e \<Rightarrow> (Inl e, s)
         | Inr resolved \<Rightarrow>
             (case os_ReadFile (files s) resolved of
                Inl e \<Rightarrow> (Inl (Wrapf ''%s: read secret file %q: %w'' [fileName, resolved] e), s)
              | Inr data \<Rightarrow>
                  on_env (\<lambda>env. env_delete (env_set env (value_name spec) (TrimRight data [CHR 0x0D, CHR 0x0A])) fileName) s)))"

section \<open>Everything stays in the generated tree\<close>

text \<open>What the operations of a root do to the rest of the tree: nothing.\<close>

lemma resolve_in_confined: "resolve_in fs b path follow = Inr (p, f) \<Longrightarrow> prefix b p"
  unfolding resolve_in_def
  by (auto simp: walk_iff split: if_splits dest: walks_confined)

text \<open>A root opened at a place other than the top of the tree.\<close>

locale confined_root =
  fixes b :: place
  assumes b_nonempty: "b \<noteq> []"
begin

lemma below_nonempty: "prefix b p \<Longrightarrow> p \<noteq> []"
  using b_nonempty by auto

lemma below_put: "only_below b fs0 fs \<Longrightarrow> prefix b p \<Longrightarrow> only_below b fs0 (put_node p n fs)"
  by (erule only_below_trans, rule only_below_put) (simp_all add: below_nonempty)

lemma below_drop: "only_below b fs0 fs \<Longrightarrow> prefix b p \<Longrightarrow> only_below b fs0 (drop_node p fs)"
  by (erule only_below_trans, rule only_below_drop) (simp_all add: below_nonempty)

lemma below_drop_tree: "only_below b fs0 fs \<Longrightarrow> prefix b p \<Longrightarrow> only_below b fs0 (drop_tree p fs)"
  by (erule only_below_trans, rule only_below_drop_tree) (simp_all add: below_nonempty)

lemma remove_at_below [preserving]:
  "preserves (only_below b fs0) (\<lambda>fs. remove_at (resolve_in fs b path follow) fs)"
  by (rule preservesI)
    (auto simp: remove_at_def split: sum.splits if_splits
      intro: below_drop dest!: resolve_in_confined)

lemma remove_all_at_below [preserving]:
  "preserves (only_below b fs0) (\<lambda>fs. remove_all_at (resolve_in fs b path follow) fs)"
  by (rule preservesI)
    (auto simp: remove_all_at_def split: sum.splits option.splits
      intro: below_drop_tree dest!: resolve_in_confined)

lemma create_at_below:
  "only_below b fs0 fs \<Longrightarrow> create_at what n (resolve_in fs1 b path follow) fs = (r, fs') \<Longrightarrow> only_below b fs0 fs'"
  by (auto simp: create_at_def split: sum.splits option.splits
      intro: below_put dest!: resolve_in_confined)

lemma change_file_below [preserving]:
  "preserves (only_below b fs0) (\<lambda>fs. change_file what f (resolve_in fs b path follow) fs)"
  by (rule preservesI)
    (auto simp: change_file_def split: sum.splits node.splits
      intro: below_put dest!: resolve_in_confined)

lemma rename_at_below [preserving]:
  "preserves (only_below b fs0) (\<lambda>fs. rename_at (resolve_in fs b old False) (resolve_in fs b new False) fs)"
proof (rule preservesI)
  fix s r s'
  assume s: "only_below b fs0 s" and run: "rename_at (resolve_in s b old False) (resolve_in s b new False) s = (r, s')"
  show "only_below b fs0 s'"
  proof (cases r)
    case (Inl e)
    with run s show ?thesis using rename_at_Inl by metis
  next
    case (Inr u)
    with run obtain p n q found where "resolve_in s b old False = Inr (p, Some n)"
      "resolve_in s b new False = Inr (q, found)" "s' = (if p = q then s else put_node q n (drop_node p s))"
      by (auto simp: rename_at_Inr)
    then show ?thesis
      using s by (auto intro!: below_put below_drop dest!: resolve_in_confined)
  qed
qed

lemma mkdir_all_below:
  "mkdir_all (Some b) cur cs mode fs = (r, fs') \<Longrightarrow> prefix b cur \<Longrightarrow> only_below b fs0 fs \<Longrightarrow> only_below b fs0 fs'"
proof (induction "Some b" cur cs mode fs rule: mkdir_all.induct)
  case (2 cur c cs mode fs)
  have below: "prefix b p" if "walk (nodes fs) (Some b) max_links cur [c] True = Inr (p, f)" for p f
    using that 2(4) by (auto simp: walk_iff dest: walks_confined)
  show ?case
  proof (cases "walk (nodes fs) (Some b) max_links cur [c] True")
    case (Inl e)
    with 2(3,5) show ?thesis by auto
  next
    case (Inr pf)
    obtain p f where pf: "pf = (p, f)" by fastforce
    note p = below [OF Inr [unfolded pf]]
    show ?thesis
    proof (cases f)
      case (Some n)
      with 2(3,5) 2(2) [OF Inr pf [symmetric] Some] Inr pf p show ?thesis by (auto split: if_splits)
    next
      case None
      with 2(3,5) 2(1) [OF Inr pf [symmetric] None] below_put [OF 2(5) p] Inr pf p show ?thesis
        by (auto split: if_splits option.splits)
    qed
  qed
qed simp

lemma root_MkdirAll_below [preserving]: "preserves (only_below b fs0) (root_MkdirAll b dir mode)"
  by (rule preservesI)
    (auto simp: root_MkdirAll_def map_prod_def split: prod.splits dest: mkdir_all_below)

lemma root_Chmod_below [preserving]: "preserves (only_below b fs0) (root_Chmod b path mode)"
  by (rule preservesI)
    (auto simp: root_Chmod_def split: sum.splits node.splits
      intro: below_put dest!: resolve_in_confined)

lemma createManagedTemp_below [preserving]: "preserves (only_below b fs0) (createManagedTemp n b dir)"
proof (induction n)
  case (Suc n)
  show ?case
  proof (rule preservesI)
    fix s r s'
    assume s: "only_below b fs0 s" and run: "createManagedTemp (Suc n) b dir s = (r, s')"
    define s1 where "s1 = s\<lparr>tokens := drop 1 (tokens s)\<rparr>"
    have s1: "only_below b fs0 s1" using s by (simp add: s1_def)
    define name where "name = path_Join [dir, ''.secret-'' @ (case tokens s of [] \<Rightarrow> [] | t # _ \<Rightarrow> t)]"
    obtain q s2 where c: "create_at OpCreate (RegularFile [] 384) (resolve_in s1 b name False) s1 = (q, s2)" by fastforce
    have s2: "only_below b fs0 s2" by (rule create_at_below [OF s1 c])
    have "(case create_at OpCreate (RegularFile [] 384) (resolve_in s1 b name False) s1 of
        (Inl e, fs2) \<Rightarrow> if errors_Is e ErrExist then createManagedTemp n b dir fs2 else (Inl e, fs2)
      | (Inr _, fs2) \<Rightarrow> (Inr name, fs2)) = (r, s')"
      using run by (simp only: createManagedTemp.simps Let_def s1_def name_def)
    with c have "s' = s2 \<or> createManagedTemp n b dir s2 = (r, s')" by (auto split: sum.splits if_splits)
    with s2 Suc show "only_below b fs0 s'" by (auto dest: preservesD)
  qed
qed (simp add: preserves_def)

lemma close_below [preserving]: "preserves (only_below b fs0) (\<lambda>s. (r s, s))"
  by (rule preservesI) simp

lemma fill_temporary_below [preserving]: "preserves (only_below b fs0) (fill_temporary b temporary relative data)"
  unfolding fill_temporary_def by (intro preserving)

lemma write_in_root_below [preserving]: "preserves (only_below b fs0) (write_in_root b relative data)"
proof -
  have err: "preserves (only_below b fs0) (\<lambda>fs. case m fs of (Inl e, fs') \<Rightarrow> (Inl (g e), fs') | r \<Rightarrow> r)"
    if "preserves (only_below b fs0) m" for m :: "(filesystem, 'z) eff" and g
    using that unfolding preserves_def by (fastforce split: prod.splits sum.splits)
  have last: "preserves (only_below b fs0)
      (\<lambda>fs. case fill_temporary b temporary relative data fs of
             (r, fs') \<Rightarrow> (r, snd (remove_at (resolve_in fs' b temporary False) fs')))" for temporary
    by (rule preservesI)
      (auto split: prod.splits intro!: preserves_snd [OF remove_at_below] dest: preservesD [OF fill_temporary_below])
  show ?thesis
    unfolding write_in_root_def Let_def by (intro preserving err last)
qed

end

text \<open>The place of the generated tree, and the trees in which it is a directory.\<close>

definition secrets_place :: place where
  "secrets_place = [''run'', ''zabbix'', ''secrets_internal'']"

definition mounted :: "filesystem \<Rightarrow> bool" where
  "mounted fs \<longleftrightarrow> wf_tree (nodes fs) \<and> (case node_at (nodes fs) secrets_place of Some n \<Rightarrow> IsDir n | None \<Rightarrow> False)"

interpretation generated: confined_root secrets_place
  by unfold_locales (simp add: secrets_place_def)

text \<open>The state of the entrypoint with respect to a start \<open>fs0\<close>: once the root is open it is the
  generated tree and only that has changed; before, nothing has (unless \<open>opened\<close> excludes it).\<close>

definition tethered :: "bool \<Rightarrow> filesystem \<Rightarrow> managed \<Rightarrow> bool" where
  "tethered opened fs0 s \<longleftrightarrow>
     root s = Some secrets_place \<and> only_below secrets_place fs0 (files s) \<or>
     \<not> opened \<and> root s = None \<and> files s = fs0"

lemma tethered_only_below: "tethered opened fs0 s \<Longrightarrow> only_below secrets_place fs0 (files s)"
  by (auto simp: tethered_def)

lemma tethered_weaken: "tethered True fs0 s \<Longrightarrow> tethered opened fs0 s"
  by (auto simp: tethered_def)

lemma tethered_environ [simp]: "tethered opened fs0 (s\<lparr>environ := e\<rparr>) = tethered opened fs0 s"
  by (simp add: tethered_def)

lemma mkdir_all_existing:
  assumes "wf_tree (nodes fs)" "node_at (nodes fs) (cur @ cs) = Some (Directory m)"
  shows "mkdir_all None cur cs mode fs = (Inr (cur @ cs), fs)"
  using assms(2)
proof (induction cs arbitrary: cur m)
  case (Cons c cs)
  have dir: "\<exists>k. node_at (nodes fs) (cur @ [c]) = Some (Directory k)"
    using Cons.prems
  proof (induction cs arbitrary: m rule: rev_induct)
    case (snoc d ds)
    then obtain k where "node_at (nodes fs) (cur @ c # ds) = Some (Directory k)"
      using wf_tree_parent(3) [OF assms(1), of "cur @ c # ds" d] by auto
    with snoc.IH show ?case by simp
  qed simp
  then obtain k where k: "node_at (nodes fs) (cur @ [c]) = Some (Directory k)" by blast
  obtain k' where k': "node_at (nodes fs) cur = Some (Directory k')"
    using wf_tree_parent(3) [OF assms(1) k] by blast
  have "walks (nodes fs) None True max_links cur [c] (cur @ [c]) (Some (Directory k))"
    by (rule walks_place [OF assms(1) _ _ k']) (simp_all add: k)
  then have "walk (nodes fs) None max_links cur [c] True = Inr (cur @ [c], Some (Directory k))"
    by (rule walks_walk)
  with Cons.IH [of "cur @ [c]" m] Cons.prems show ?case by simp
qed simp

lemma internalSecretsRoot_path: "internalSecretsRoot = place_path secrets_place"
  by code_simp

lemma mounted_root:
  assumes "mounted fs"
  shows "os_MkdirAll internalSecretsRoot mode fs = (Inr (), fs)"
    and "\<exists>m. resolve fs internalSecretsRoot follow = Inr (secrets_place, Some (Directory m))"
proof -
  from assms obtain m where m: "wf_tree (nodes fs)" "node_at (nodes fs) secrets_place = Some (Directory m)"
    by (auto simp: mounted_def IsDir_iff split: option.splits)
  have split: "Split internalSecretsRoot (CHR ''/'') = [] # secrets_place" "IsAbs internalSecretsRoot"
    by code_simp+
  have "walk (nodes fs) None max_links [] [[]] True = Inr ([], Some (Directory 493))"
    by (simp add: walk.simps(2))
  then show "os_MkdirAll internalSecretsRoot mode fs = (Inr (), fs)"
    using mkdir_all_existing [OF m(1), of "[]" secrets_place m mode] m(2)
    by (simp add: os_MkdirAll_def split)
  show "\<exists>m. resolve fs internalSecretsRoot follow = Inr (secrets_place, Some (Directory m))"
    using resolve_place_path [OF m(1,2)] by (auto simp: internalSecretsRoot_path)
qed

lemma managed_open_tethered:
  assumes "mounted fs0" "tethered opened fs0 s" "managed_open create s = (r, s')"
  shows "tethered opened fs0 s'" "r = Inr (Some p) \<Longrightarrow> p = secrets_place \<and> tethered True fs0 s'"
    and "environ s' = environ s"
proof -
  have "tethered opened fs0 s' \<and> (r = Inr (Some p) \<longrightarrow> p = secrets_place \<and> tethered True fs0 s') \<and> environ s' = environ s"
  proof (cases "root s")
    case (Some b)
    with assms(2,3) show ?thesis by (auto simp: managed_open_def tethered_def)
  next
    case None
    with assms(2) have fs: "files s = fs0" and o: "\<not> opened" by (auto simp: tethered_def)
    have "(if create then on_files (os_MkdirAll internalSecretsRoot 448) s else (Inr (), s)) = (Inr (), s)"
      using mounted_root(1) [OF assms(1)] fs by (simp add: on_files_def)
    moreover obtain m where "resolve fs0 internalSecretsRoot True = Inr (secrets_place, Some (Directory m))"
      using mounted_root(2) [OF assms(1)] by blast
    moreover obtain m where "resolve fs0 internalSecretsRoot False = Inr (secrets_place, Some (Directory m))"
      using mounted_root(2) [OF assms(1)] by blast
    ultimately show ?thesis
      using assms(3) None fs o
      by (auto simp: managed_open_def os_Lstat_def tethered_def split: option.splits if_splits)
  qed
  then show "tethered opened fs0 s'" "r = Inr (Some p) \<Longrightarrow> p = secrets_place \<and> tethered True fs0 s'"
    "environ s' = environ s" by blast+
qed

section \<open>Invariants of the generated tree\<close>

lemma preserves_then [preserving]:
  "preserves P m \<Longrightarrow> preserves P k \<Longrightarrow> preserves P (then_eff m k)"
  unfolding then_eff_def by (intro preserving)

lemma preserves_pair [preserving]: "preserves P (\<lambda>s. (r s, s))"
  by (simp add: preserves_def)

lemma preserves_case_eff [preserving]:
  assumes "preserves P m" "\<And>x. preserves P (f x)"
  shows "preserves P (\<lambda>s. case m s of (Inl e, s') \<Rightarrow> (Inl (g e), s') | (Inr x, s') \<Rightarrow> f x s')"
  using assms unfolding preserves_def by (fastforce split: prod.splits sum.splits)

lemma preserves_case_error [preserving]:
  assumes "preserves P m"
  shows "preserves P (\<lambda>s. case m s of (Inl e, s') \<Rightarrow> (g e, s') | (Inr _, s') \<Rightarrow> (h, s'))"
  using assms unfolding preserves_def by (auto split: prod.splits sum.splits)

text \<open>
  Everything that resolves secrets goes through these operations on the generated tree.  What
  they keep is any property \<open>I\<close> of the state that survives opening the root and the operations
  confined to a root; \<open>I True\<close> is the property once the root is open, at a place \<open>good\<close>.
\<close>

locale managed_invariant =
  fixes I :: "bool \<Rightarrow> managed \<Rightarrow> bool"
    and good :: "place \<Rightarrow> bool"
  assumes root_operation:
      "good b \<Longrightarrow> (\<And>fs0. confined_root b \<Longrightarrow> preserves (only_below b fs0) m) \<Longrightarrow>
        preserves (I True) (on_files (m :: (filesystem, unit) eff))"
    and with_root:
      "(\<And>b. good b \<Longrightarrow> preserves (I True) (k b)) \<Longrightarrow>
        preserves (I opened) (\<lambda>s. case managed_open create s of
            (Inl e, s') \<Rightarrow> (Inl e, s') | (Inr None, s') \<Rightarrow> (n, s')
          | (Inr (Some b), s') \<Rightarrow> (k b s' :: unit result \<times> managed))"
begin

lemma writeSecret_keeps [preserving]: "preserves (I opened) (writeSecret path data)"
proof (rule preservesI)
  fix s r s'
  assume I: "I opened s" and run: "writeSecret path data s = (r, s')"
  let ?k = "\<lambda>relative b. on_files (write_in_root b relative data)"
  have "preserves (I True) (?k relative b)" if "good b" for relative b
    by (rule root_operation [OF that]) (rule confined_root.write_in_root_below)
  note keep = with_root [where k = "?k _", OF this]
  show "I opened s'"
  proof (cases "managedRelativePath (files s) path")
    case (Inr relative)
    with run show ?thesis
      unfolding writeSecret_def openWritable_def by simp (rule preservesD [OF keep, OF _ _ I])
  qed (use run I in \<open>simp add: writeSecret_def\<close>)
qed

lemma removeSecretRelative_keeps [preserving]: "preserves (I opened) (removeSecretRelative relative)"
proof -
  let ?k = "\<lambda>b s'. case on_files (\<lambda>fs. remove_at (resolve_in fs b relative False) fs) s' of
      (Inl e, s'') \<Rightarrow> (if errors_Is e ErrNotExist then Inr ()
          else Inl (Wrapf ''remove stale generated secret %q: %w'' [relative] e), s'')
    | (Inr _, s'') \<Rightarrow> (Inr (), s'')"
  have "preserves (I True) (?k b)" if "good b" for b
    by (intro preserves_case_error root_operation [OF that] confined_root.remove_at_below)
  from with_root [where k = ?k, OF this] show ?thesis
    unfolding preserves_def removeSecretRelative_def openExisting_def by blast
qed

lemma removeSecret_keeps [preserving]: "preserves (I opened) (removeSecret path)"
  using removeSecretRelative_keeps unfolding preserves_def removeSecret_def by (simp split: sum.split)

lemma removeTree_keeps [preserving]: "preserves (I opened) (removeTree path)"
proof (rule preservesI)
  fix s r s'
  assume I: "I opened s" and run: "removeTree path s = (r, s')"
  let ?k = "\<lambda>rel b. wrap_eff ''remove stale generated path %q: %w'' [rel]
        (on_files (\<lambda>fs. remove_all_at (resolve_in fs b rel False) fs))"
  have "preserves (I True) (?k rel b)" if "good b" for rel b
    by (intro preserves_wrap root_operation [OF that] confined_root.remove_all_at_below)
  note keep = with_root [where k = "?k _", OF this]
  show "I opened s'"
  proof (cases "managedRelativePath (files s) path")
    case (Inr rel)
    with run show ?thesis
      unfolding removeTree_def openExisting_def by simp (rule preservesD [OF keep, OF _ _ I])
  qed (use run I in \<open>simp add: removeTree_def\<close>)
qed

end

text \<open>First instance: everything stays in the generated tree.\<close>

lemma with_root:
  assumes "mounted fs0" "tethered opened fs0 s" "preserves (tethered True fs0) (k secrets_place)"
    and "(case managed_open create s of
            (Inl e, s') \<Rightarrow> (Inl e, s') | (Inr None, s') \<Rightarrow> (n, s') | (Inr (Some b), s') \<Rightarrow> k b s') = (r, s')"
  shows "tethered opened fs0 s'"
proof -
  obtain q s1 where o: "managed_open create s = (q, s1)" by fastforce
  note facts = managed_open_tethered [OF assms(1,2) o]
  show ?thesis
  proof (cases q)
    case (Inl e)
    with assms(4) o facts(1) show ?thesis by simp
  next
    case (Inr p)
    show ?thesis
    proof (cases p)
      case None
      with assms(4) o facts(1) Inr show ?thesis by simp
    next
      case (Some b)
      with facts(2) [of b] Inr have "b = secrets_place" "tethered True fs0 s1" by simp_all
      moreover with assms(4) o Inr Some have "k secrets_place s1 = (r, s')" by simp
      ultimately show ?thesis using assms(3) by (blast intro: tethered_weaken dest: preservesD)
    qed
  qed
qed

lemma managed_invariant_tethered:
  assumes "mounted fs0"
  shows "managed_invariant (\<lambda>opened. tethered opened fs0) (\<lambda>b. b = secrets_place)"
proof
  fix b and m :: "(filesystem, unit) eff"
  assume b: "b = secrets_place" and m: "\<And>fs0. confined_root b \<Longrightarrow> preserves (only_below b fs0) m"
  have "preserves (only_below secrets_place fs0) m"
    using m generated.confined_root_axioms b by blast
  then show "preserves (tethered True fs0) (on_files m)"
    unfolding preserves_def on_files_def tethered_def by (auto split: prod.splits)
next
  fix k :: "place \<Rightarrow> (managed, unit) eff" and opened create :: bool and n :: "unit result"
  assume k: "\<And>b. b = secrets_place \<Longrightarrow> preserves (tethered True fs0) (k b)"
  show "preserves (tethered opened fs0) (\<lambda>s. case managed_open create s of
            (Inl e, s') \<Rightarrow> (Inl e, s') | (Inr None, s') \<Rightarrow> (n, s') | (Inr (Some b), s') \<Rightarrow> k b s')"
    by (rule preservesI) (rule with_root [where k = k, OF assms _ k [OF refl]])
qed

text \<open>Second instance: nothing here touches the environment.\<close>

definition about_env :: "(environment \<Rightarrow> bool) \<Rightarrow> managed \<Rightarrow> bool" where
  "about_env Q s = Q (environ s)"

lemma on_files_environ: "on_files m s = (r, s') \<Longrightarrow> environ s' = environ s"
  by (auto simp: on_files_def split: prod.splits)

lemma managed_open_environ:
  assumes "managed_open create s = (r, s')"
  shows "environ s' = environ s"
proof -
  obtain q s1 where first: "(if create then on_files (os_MkdirAll internalSecretsRoot 448) s else (Inr (), s)) = (q, s1)"
    by (cases "if create then on_files (os_MkdirAll internalSecretsRoot 448) s else (Inr (), s)")
  then have 1: "environ s1 = environ s" by (auto split: if_splits dest: on_files_environ)
  from assms have "environ s' = environ s1 \<or> s' = s"
    unfolding managed_open_def first by (auto split: option.splits sum.splits if_splits)
  with 1 show ?thesis by auto
qed

interpretation environment: managed_invariant "\<lambda>_. about_env Q" "\<lambda>_. True" for Q
proof
  fix b and m :: "(filesystem, unit) eff"
  show "preserves (about_env Q) (on_files m)"
    by (auto simp: preserves_def about_env_def on_files_def split: prod.splits)
next
  fix k :: "place \<Rightarrow> (managed, unit) eff" and create :: bool and n :: "unit result"
  assume k: "\<And>b. True \<Longrightarrow> preserves (about_env Q) (k b)"
  show "preserves (about_env Q) (\<lambda>s. case managed_open create s of
            (Inl e, s') \<Rightarrow> (Inl e, s') | (Inr None, s') \<Rightarrow> (n, s') | (Inr (Some b), s') \<Rightarrow> k b s')"
  proof (rule preservesI)
    fix s r s'
    assume Q: "about_env Q s"
      and run: "(case managed_open create s of
              (Inl e, s') \<Rightarrow> (Inl e, s') | (Inr None, s') \<Rightarrow> (n, s') | (Inr (Some b), s') \<Rightarrow> k b s') = (r, s')"
    obtain q s1 where o: "managed_open create s = (q, s1)" by fastforce
    have "about_env Q s1" using managed_open_environ [OF o] Q by (simp add: about_env_def)
    with run o preservesD [OF k] show "about_env Q s'"
      by (cases q) (auto split: option.splits)
  qed
qed

section \<open>Mounted secrets are where they should be\<close>

text \<open>The place a directory name stands for once its links are followed.\<close>

definition real_place :: "filesystem \<Rightarrow> string \<Rightarrow> place" where
  "real_place fs dir = cleaned (case EvalSymlinks fs dir of Inr d \<Rightarrow> d | Inl _ \<Rightarrow> path_Abs fs dir)"

lemma IsAbs_path_Abs: "IsAbs (path_Abs fs path)"
  by (simp add: path_Abs_def path_Join_def place_path_def Join_Cons)

lemma regularFileWithin_True:
  assumes "wf_tree (nodes fs)" "regularFileWithin fs base relative = Inr True"
  shows "\<exists>q d m. resolve fs (path_Join [base, relative]) True = Inr (q, Some (RegularFile d m)) \<and>
           prefix (real_place fs base) q"
proof -
  let ?c = "path_Join [base, relative]"
  from assms(2) obtain info where info: "os_Stat fs ?c = Inr info" "IsRegular info"
    by (auto simp: regularFileWithin_def Let_def split: if_splits sum.splits)
  with assms(2) obtain rb rc rel where
    rb: "(case EvalSymlinks fs base of Inl e \<Rightarrow> if errors_Is e ErrNotExist then Inr (path_Abs fs base) else Inl e
          | Inr b \<Rightarrow> Inr b) = Inr rb"
    and rc: "EvalSymlinks fs ?c = Inr rc" and rel: "Rel rb rc = Inr rel" "IsLocal rel"
    by (auto simp: regularFileWithin_def Let_def split: if_splits sum.splits)
  from info obtain q d m where q: "resolve fs ?c True = Inr (q, Some (RegularFile d m))"
    by (cases info) (auto simp: os_Stat_Inr)
  have rcq: "rc = place_path q" by (rule EvalSymlinks_resolve [OF q rc])
  have "cleaned rc = q"
    using wf_tree_names [OF assms(1) resolve_node_at [OF q]] unfolding rcq by (rule cleaned_place_path)
  moreover have "IsAbs rb" "real_place fs base = cleaned rb"
    using rb EvalSymlinks_Inr [of fs base] by (auto simp: real_place_def IsAbs_path_Abs split: sum.splits if_splits)
  ultimately have "prefix (real_place fs base) q"
    using Rel_local_prefix [OF rel] by (simp add: rcq)
  with q show ?thesis by blast
qed

text \<open>C27: a relative secret is only ever taken from one of its directories: the name that
  \<open>locateSecret\<close> returns is that directory joined with the given name, it is a regular file, and
  after all links are followed the file lies below the directory.\<close>

theorem locateSecret_confined:
  assumes "wf_tree (nodes fs)" "\<not> IsAbs path"
    and "locateSecret fs variable path category std legacyd = Inr found"
  shows "\<exists>base q d m.
     List.member (if std then [dockerSecretsRoot, path_Join [externalSecretsRoot, category]]
                  else [path_Join [externalSecretsRoot, category], legacyd]) base \<and>
     found = path_Join [base, path] \<and>
     resolve fs found True = Inr (q, Some (RegularFile d m)) \<and> prefix (real_place fs base) q"
proof -
  let ?new = "path_Join [externalSecretsRoot, category]"
  have "\<exists>base. List.member (if std then [dockerSecretsRoot, ?new] else [?new, legacyd]) base \<and>
      found = path_Join [base, path] \<and> regularFileWithin fs base path = Inr True"
    using assms(2,3) unfolding locateSecret_def Let_def
    by (cases std) (auto split: if_splits)
  with regularFileWithin_True [OF assms(1)] show ?thesis by metis
qed

lemma locateSecret_confined_witness:
  "\<exists>base q d m.
     List.member [path_Join [externalSecretsRoot, ''tls''], ''/var/lib/zabbix/enc''] base \<and>
     ''/run/zabbix/secrets/tls/agent.key'' = path_Join [base, ''agent.key''] \<and>
     resolve (quiet_fs [([''run''], Directory 493), ([''run'', ''zabbix''], Directory 493),
       ([''run'', ''zabbix'', ''secrets''], Directory 493), ([''run'', ''zabbix'', ''secrets'', ''tls''], Directory 493),
       ([''run'', ''zabbix'', ''secrets'', ''tls'', ''..data''], RegularFile ''key'' 256),
       ([''run'', ''zabbix'', ''secrets'', ''tls'', ''agent.key''], SymLink ''..data'')])
       ''/run/zabbix/secrets/tls/agent.key'' True = Inr (q, Some (RegularFile d m)) \<and>
     prefix (real_place (quiet_fs [([''run''], Directory 493), ([''run'', ''zabbix''], Directory 493),
       ([''run'', ''zabbix'', ''secrets''], Directory 493), ([''run'', ''zabbix'', ''secrets'', ''tls''], Directory 493),
       ([''run'', ''zabbix'', ''secrets'', ''tls'', ''..data''], RegularFile ''key'' 256),
       ([''run'', ''zabbix'', ''secrets'', ''tls'', ''agent.key''], SymLink ''..data'')]) base) q"
proof -
  let ?ns = "[([''run''], Directory 493), ([''run'', ''zabbix''], Directory 493),
       ([''run'', ''zabbix'', ''secrets''], Directory 493), ([''run'', ''zabbix'', ''secrets'', ''tls''], Directory 493),
       ([''run'', ''zabbix'', ''secrets'', ''tls'', ''..data''], RegularFile ''key'' 256),
       ([''run'', ''zabbix'', ''secrets'', ''tls'', ''agent.key''], SymLink ''..data'')]"
  have 1: "wf_tree (nodes (quiet_fs ?ns))" by code_simp
  have 2: "\<not> IsAbs ''agent.key''" by code_simp
  have 3: "locateSecret (quiet_fs ?ns) ''ZBX_TLSKEYFILE'' ''agent.key'' ''tls'' False ''/var/lib/zabbix/enc'' =
      Inr ''/run/zabbix/secrets/tls/agent.key''" by code_simp
  from locateSecret_confined [OF 1 2 3] show ?thesis by simp
qed

end
