(* ===== verification/Secrets.thy ===== *)
theory Secrets
  imports SecretFiles
begin

text \<open>
  Resolving all secrets of a component: \<open>internal/bootstrap/secrets.go\<close>, \<open>secret_ca.go\<close> and the
  cleanup and Vault parts of \<open>secret_files.go\<close>.  \<open>openssl rehash\<close>, which adds hash links to a
  directory, is the argument \<open>rehash\<close>.
\<close>

section \<open>Certificate authorities\<close>

fun anyRegular :: "filesystem \<Rightarrow> string \<Rightarrow> string list \<Rightarrow> bool result" where
  "anyRegular fs path [] = Inr False"
| "anyRegular fs path (name # names) =
     (case regularFileWithin fs path name of
        Inl e \<Rightarrow> Inl e
      | Inr regular \<Rightarrow> if regular then Inr True else anyRegular fs path names)"

definition directoryHasFiles :: "filesystem \<Rightarrow> string \<Rightarrow> bool result" where
  "directoryHasFiles fs path =
     (case os_ReadDir fs path of
        Inl e \<Rightarrow> if errors_Is e ErrNotExist then Inr False
                 else Inl (Wrapf ''read secret directory %q: %w'' [path] e)
      | Inr entries \<Rightarrow> anyRegular fs path (map fst entries))"

definition resolveSecretDirectory :: "filesystem \<Rightarrow> string \<Rightarrow> string \<Rightarrow> string \<Rightarrow> string result" where
  "resolveSecretDirectory fs name current legacyd =
     bind_res (directoryHasFiles fs current) (\<lambda>currentUsed.
     bind_res (if legacyd \<noteq> [] then directoryHasFiles fs legacyd else Inr False) (\<lambda>legacyUsed.
       if currentUsed \<and> legacyUsed
       then Inl (Errorf ''%s: both %q and deprecated location %q contain files'' [name, current, legacyd])
       else if currentUsed then Inr current
       else if legacyUsed then Inr legacyd
       else Inr current))"

definition lift_res :: "(managed \<Rightarrow> 'a result) \<Rightarrow> (managed, 'a) eff" where
  "lift_res q s = (q s, s)"

definition resolveSharedTLSDirectories :: "(managed, unit) eff" where
  "resolveSharedTLSDirectories s =
     (let home = env_get (environ s) ''ZABBIX_USER_HOME_DIR'' in
      for_eff
        [(''ZBX_SSLCERTLOCATION'', ''ssl/certs'', path_Join [home, ''ssl'', ''certs'']),
         (''ZBX_SSLKEYLOCATION'', ''ssl/keys'', path_Join [home, ''ssl'', ''keys''])]
        (\<lambda>(envName, category, legacyd).
           bind_eff (lift_res (\<lambda>s. resolveSecretDirectory (files s) envName
                        (path_Join [externalSecretsRoot, category]) legacyd))
             (\<lambda>resolved. if resolved \<noteq> [] then on_env (\<lambda>env. env_set env envName resolved) else ret ())) s)"

text \<open>\<open>copyOne\<close> of \<open>prepareManagedCADir\<close>: the names already copied are the first argument.\<close>

definition copyOne :: "string \<Rightarrow> string \<Rightarrow> (string \<times> string) list \<Rightarrow> (managed, (string \<times> string) list) eff" where
  "copyOne target source names s =
     (if source = [] then (Inr names, s)
      else
        (let name = path_Base source in
         case map_of names name of
           Some previous \<Rightarrow>
             (Inl (Errorf ''CA file name %q is supplied by both %q and %q'' [name, previous, source]), s)
         | None \<Rightarrow>
             (case os_ReadFile (files s) source of
                Inl e \<Rightarrow> (Inl (Wrapf ''read CA file %q: %w'' [source] e), s)
              | Inr data \<Rightarrow>
                  bind_eff (writeSecret (path_Join [target, name]) data) (\<lambda>_. ret (AList.update name source names)) s)))"

fun copyAll :: "string \<Rightarrow> string list \<Rightarrow> (string \<times> string) list \<Rightarrow> (managed, (string \<times> string) list) eff" where
  "copyAll target [] names s = (Inr names, s)"
| "copyAll target (source # sources) names s =
     (case copyOne target source names s of
        (Inl e, s') \<Rightarrow> (Inl e, s')
      | (Inr names', s') \<Rightarrow> copyAll target sources names' s')"

text \<open>The loop over the entries of one source directory.\<close>

fun copyEntries :: "string \<Rightarrow> string \<Rightarrow> string list \<Rightarrow> (string \<times> string) list \<Rightarrow> (managed, (string \<times> string) list) eff" where
  "copyEntries target sourceDir [] names s = (Inr names, s)"
| "copyEntries target sourceDir (entry # entries) names s =
     (case regularFileWithin (files s) sourceDir entry of
        Inl e \<Rightarrow> (Inl e, s)
      | Inr regular \<Rightarrow>
          (case (if regular then copyOne target (path_Join [sourceDir, entry]) names s else (Inr names, s)) of
             (Inl e, s') \<Rightarrow> (Inl e, s')
           | (Inr names', s') \<Rightarrow> copyEntries target sourceDir entries names' s'))"

fun copyDirs :: "string \<Rightarrow> string list \<Rightarrow> (string \<times> string) list \<Rightarrow> (managed, (string \<times> string) list) eff" where
  "copyDirs target [] names s = (Inr names, s)"
| "copyDirs target (sourceDir # dirs) names s =
     (if sourceDir = [] then copyDirs target dirs names s
      else
        (case os_ReadDir (files s) sourceDir of
           Inl e \<Rightarrow>
             if errors_Is e ErrNotExist then copyDirs target dirs names s
             else (Inl (Wrapf ''read CA source directory %q: %w'' [sourceDir] e), s)
         | Inr entries \<Rightarrow>
             (case copyEntries target sourceDir (map fst entries) names s of
                (Inl e, s') \<Rightarrow> (Inl e, s')
              | (Inr names', s') \<Rightarrow> copyDirs target dirs names' s')))"

text \<open>Emptying a directory of the generated tree, entry by entry.\<close>

definition clear_entries :: "place \<Rightarrow> string \<Rightarrow> string \<Rightarrow> (string \<Rightarrow> string list) \<Rightarrow> string list \<Rightarrow> (filesystem, unit) eff" where
  "clear_entries b dir fmt args names =
     for_eff names (\<lambda>name.
       wrap_eff fmt (args name) (\<lambda>fs. remove_all_at (resolve_in fs b (path_Join [dir, name]) False) fs))"

definition prepareManagedCADir ::
  "(string \<Rightarrow> (filesystem, unit) eff) \<Rightarrow> string \<Rightarrow> string list \<Rightarrow> string list \<Rightarrow> (managed, unit) eff" where
  "prepareManagedCADir rehash target sources paths s =
     (case managedRelativePath (files s) target of
        Inl e \<Rightarrow> (Inl e, s)
      | Inr relativeTarget \<Rightarrow>
          (case openWritable s of
             (Inl e, s') \<Rightarrow> (Inl e, s')
           | (Inr None, s') \<Rightarrow> (Inl ErrNotExist, s')
           | (Inr (Some b), s') \<Rightarrow>
               bind_eff (on_files (\<lambda>fs. case root_MkdirAll b relativeTarget 448 fs of
                   (Inl e, fs') \<Rightarrow> (Inl (writableSecretDirError target e), fs') | r \<Rightarrow> r)) (\<lambda>_.
               bind_eff (on_files (\<lambda>fs. case root_Chmod b relativeTarget 448 fs of
                   (Inl e, fs') \<Rightarrow> (Inl (writableSecretDirError target e), fs') | r \<Rightarrow> r)) (\<lambda>_.
               bind_eff (lift_res (\<lambda>s. wrap_res ''read managed CA directory %q: %w'' [target]
                   (root_ReadDir b relativeTarget (files s)))) (\<lambda>entries.
               bind_eff (on_files (clear_entries b relativeTarget ''clear managed CA entry %q: %w''
                   (\<lambda>name. [path_Join [target, name]]) (map fst entries))) (\<lambda>_.
               bind_eff (copyDirs target sources []) (\<lambda>names.
               bind_eff (copyAll target paths names) (\<lambda>_.
               wrap_eff ''rehash CA directory %q: %w'' [target] (on_files (rehash target)))))))) s'))"

definition resolveGlobalCA :: "(string \<Rightarrow> (filesystem, unit) eff) \<Rightarrow> (managed, unit) eff" where
  "resolveGlobalCA rehash s =
     (if env_get (environ s) ''ZBX_SSLCALOCATION'' \<noteq> [] then (Inr (), s)
      else
        (let home = env_get (environ s) ''ZABBIX_USER_HOME_DIR'';
             target = path_Join [internalSecretsRoot, ''ssl'', ''ca''] in
         bind_eff (lift_res (\<lambda>s. resolveSecretDirectory (files s) ''ZBX_SSLCALOCATION''
             (path_Join [externalSecretsRoot, ''ssl'', ''ca'']) (path_Join [home, ''ssl'', ''ssl_ca'']))) (\<lambda>source.
         bind_eff (lift_res (\<lambda>s. directoryHasFiles (files s) source)) (\<lambda>used.
           if \<not> used
           then then_eff (on_env (\<lambda>env. env_delete env ''ZBX_SSLCALOCATION'')) (removeTree target)
           else then_eff (prepareManagedCADir rehash target [source] [])
                  (on_env (\<lambda>env. env_set env ''ZBX_SSLCALOCATION'' target)))) s))"

definition resolveWebAPMCA :: "(string \<Rightarrow> (filesystem, unit) eff) \<Rightarrow> (managed, unit) eff" where
  "resolveWebAPMCA rehash s =
     (if env_get (environ s) ''ZBX_APM_CA_LOCATION'' \<noteq> [] then (Inr (), s)
      else
        (let current = path_Join [externalSecretsRoot, ''apm'', ''ca''];
             target = path_Join [internalSecretsRoot, ''apm'', ''ca''];
             path = env_get (environ s) ''ZBX_APM_CAFILE'' in
         bind_eff (lift_res (\<lambda>s. directoryHasFiles (files s) current)) (\<lambda>currentUsed.
           if \<not> currentUsed \<and> path = []
           then then_eff (on_env (\<lambda>env. env_delete env ''ZBX_APM_CA_LOCATION'')) (removeTree target)
           else then_eff (prepareManagedCADir rehash target [current] (if path \<noteq> [] then [path] else []))
                  (on_env (\<lambda>env. env_set env ''ZBX_APM_CA_LOCATION'' target))) s))"

definition resolveProviderCAs ::
  "(string \<Rightarrow> (filesystem, unit) eff) \<Rightarrow> fileSecretSpec list \<Rightarrow> (managed, unit) eff" where
  "resolveProviderCAs rehash specs =
     for_eff specs (\<lambda>spec s.
       let path = env_get (environ s) (fileVar spec);
           target = path_Join [internalSecretsRoot, file_category spec, ''ca''] in
       if \<not> HasSuffix (inlineVar spec) ''_SSL_CA'' \<or> path = [] then (Inr (), s)
       else then_eff (wrap_eff ''%s: %w'' [fileVar spec] (prepareManagedCADir rehash target [] [path]))
              (on_env (\<lambda>env. env_set env (TrimSuffix (fileVar spec) ''FILE'' @ ''LOCATION'') target)) s)"

section \<open>Stale provider secrets\<close>

definition staleFamilies :: "SecretComponent \<Rightarrow> SecretCommand \<Rightarrow> string list" where
  "staleFamilies component command =
     (case command of
        SecretsInitHistory \<Rightarrow> [''history'']
      | SecretsInitTelemetry \<Rightarrow> [''telemetry'']
      | SecretsService \<Rightarrow>
          if isServer component \<or> isWeb component then [''history'', ''telemetry'']
          else if isProxy component then [''telemetry''] else []
      | SecretsInitDB \<Rightarrow> [])"

definition cleanProvider :: "place \<Rightarrow> string \<Rightarrow> string \<times> node \<Rightarrow> (managed, unit) eff" where
  "cleanProvider b family provider s =
     (case provider of (name, info) \<Rightarrow>
        if \<not> IsDir info \<or> \<not> HasPrefix name (family @ ''-'') then (Inr (), s)
        else
          (let directory = path_Join [''providers'', name];
               pre = ''ZBX_'' @ ToUpper family @ ''PROVIDER_'' @ TrimPrefix name (family @ ''-'');
               caDir = path_Join [directory, ''ca''] in
           bind_eff
             (for_eff (filter (\<lambda>d. Kind d = ProviderFileSecret) providerSecretDefinitions)
                (\<lambda>d. removeSecretRelative (path_Join [directory, pre @ Suffix d @ ''FILE'']))) (\<lambda>_ s.
             case must_exist (files s) OpOpen (resolve_in (files s) b caDir True) of
               Inl e \<Rightarrow>
                 (if errors_Is e ErrNotExist then Inr ()
                  else Inl (Wrapf ''read stale provider CA directory %q: %w'' [caDir] e), s)
             | Inr _ \<Rightarrow>
                 (case list_dir (files s) (resolve_in (files s) b caDir True) of
                    Inl e \<Rightarrow> (Inl (Wrapf ''read stale provider CA directory %q: %w'' [caDir] e), s)
                  | Inr entries \<Rightarrow>
                      on_files (clear_entries b caDir ''remove stale provider CA entry %q: %w''
                        (\<lambda>name. [name]) (map fst entries)) s)) s))"

definition cleanupStaleProviderSecrets :: "SecretComponent \<Rightarrow> SecretCommand \<Rightarrow> (managed, unit) eff" where
  "cleanupStaleProviderSecrets component command s =
     (if staleFamilies component command = [] then (Inr (), s)
      else
        (case openExisting s of
           (Inl e, s') \<Rightarrow> (Inl e, s')
         | (Inr None, s') \<Rightarrow> (Inr (), s')
         | (Inr (Some b), s') \<Rightarrow>
             (case must_exist (files s') OpOpen (resolve_in (files s') b ''providers'' True) of
                Inl e \<Rightarrow>
                  (if errors_Is e ErrNotExist then Inr ()
                   else Inl (Wrapf ''open managed provider directory: %w'' [] e), s')
              | Inr _ \<Rightarrow>
                  (case list_dir (files s') (resolve_in (files s') b ''providers'' True) of
                     Inl e \<Rightarrow> (Inl (Wrapf ''read managed provider directory: %w'' [] e), s')
                   | Inr entries \<Rightarrow>
                       for_eff (staleFamilies component command)
                         (\<lambda>family. for_eff entries (cleanProvider b family)) s'))))"

section \<open>Vault client certificates\<close>

definition prepareVaultTLSEntry :: "string \<Rightarrow> string \<Rightarrow> string \<Rightarrow> string \<Rightarrow> (managed, unit) eff" where
  "prepareVaultTLSEntry target source vaultFile entry s =
     (if entry = vaultFile
      then (Inl (Errorf ''generated file %q conflicts with %q''
              [path_Join [target, vaultFile], path_Join [source, vaultFile]]), s)
      else
        (case regularFileWithin (files s) source entry of
           Inl e \<Rightarrow> (Inl e, s)
         | Inr regular \<Rightarrow>
             if \<not> regular then (Inr (), s)
             else
               (case os_ReadFile (files s) (path_Join [source, entry]) of
                  Inl e \<Rightarrow> (Inl (Wrapf ''read SSL file %q: %w'' [path_Join [source, entry]] e), s)
                | Inr data \<Rightarrow> writeSecret (path_Join [target, entry]) data s)))"

definition prepareVaultTLSDirectory :: "string \<Rightarrow> string \<Rightarrow> string \<Rightarrow> string \<Rightarrow> (managed, unit) eff" where
  "prepareVaultTLSDirectory target source vaultFile data =
     then_eff (removeTree target)
       (bind_eff (lift_res (\<lambda>s. case os_ReadDir (files s) source of
                    Inl e \<Rightarrow> if errors_Is e ErrNotExist then Inr []
                             else Inl (Wrapf ''read SSL file directory %q: %w'' [source] e)
                  | Inr entries \<Rightarrow> Inr entries)) (\<lambda>entries.
        then_eff (for_eff (map fst entries) (prepareVaultTLSEntry target source vaultFile))
          (writeSecret (path_Join [target, vaultFile]) data)))"

definition prepareVaultTLSFile :: "vaultTLSFile \<Rightarrow> (managed, unit) eff" where
  "prepareVaultTLSFile f s =
     (let path = env_get (environ s) (vt_file f);
          target = path_Join [internalSecretsRoot, vt_category f];
          location = env_get (environ s) (vt_location f) in
      if path = [] then removeTree target s
      else if (case Rel location path of Inl _ \<Rightarrow> False | Inr relative \<Rightarrow> IsLocal relative)
      then (if Clean location \<noteq> Clean target then removeTree target s else (Inr (), s))
      else
        (case os_ReadFile (files s) path of
           Inl e \<Rightarrow> (Inl (Wrapf ''%s: read secret file %q: %w'' [vt_file f, path] e), s)
         | Inr data \<Rightarrow>
             then_eff (wrap_eff ''%s: %w'' [vt_file f] (prepareVaultTLSDirectory target location (vt_file f) data))
               (on_env (\<lambda>env. env_set (env_set env (vt_file f) (path_Join [target, vt_file f])) (vt_location f) target)) s))"

definition prepareVaultTLSFiles :: "(managed, unit) eff" where
  "prepareVaultTLSFiles = for_eff vaultTLSFileDefinitions prepareVaultTLSFile"

definition SetVaultTLSFileNames :: "(environment, unit) eff" where
  "SetVaultTLSFileNames =
     for_eff vaultTLSFileDefinitions (\<lambda>f env.
       let path = env_get env (vt_file f); location = env_get env (vt_location f) in
       if path = [] then (Inr (), env)
       else
         (case Rel location path of
            Inr relative \<Rightarrow>
              if IsLocal relative then (Inr (), env_set env (vt_file f) relative)
              else (Inl (Errorf ''%s path %q is outside %s %q'' [vt_file f, path, vt_location f, location]), env)
          | Inl _ \<Rightarrow> (Inl (Errorf ''%s path %q is outside %s %q'' [vt_file f, path, vt_location f, location]), env)))"

section \<open>All secrets of a component\<close>

definition dropUnusedProviderSources :: "SecretComponent \<Rightarrow> environment \<Rightarrow> environment" where
  "dropUnusedProviderSources component env =
     (let env = (if isServerOrProxy component \<or> isWeb component
                 then dropProviderSecretSources telemetryPrefix buildProviderLocationSuffixes
                        (dropProviderSecretSources historyPrefix buildProviderLocationSuffixes env)
                 else env);
          env = (if isProxy component
                 then dropProviderSecretSources historyPrefix buildProviderSecretSuffixes env else env)
      in (if isWeb component
          then dropProviderSecretSources historyPrefix buildProviderFileSecretSuffixes env else env))"

text \<open>What follows the single secrets in \<open>ResolveSecrets\<close>: shared directories, Vault files and
  certificate authorities.\<close>

definition resolveDirectories ::
  "(string \<Rightarrow> (filesystem, unit) eff) \<Rightarrow> SecretComponent \<Rightarrow> SecretCommand \<Rightarrow> fileSecretSpec list \<Rightarrow> (managed, unit) eff" where
  "resolveDirectories rehash component command fspecs =
     then_eff
       (if isServerOrProxy component then
          (if command = SecretsInitDB
           then (\<lambda>s. if env_get (environ s) ''ZBX_VAULTDBPATH'' \<noteq> [] then resolveGlobalCA rehash s else (Inr (), s))
           else then_eff resolveSharedTLSDirectories
                  (then_eff (if command = SecretsService then prepareVaultTLSFiles else ret ())
                     (resolveGlobalCA rehash)))
        else if isWeb component \<and> command = SecretsService
        then (\<lambda>s. if env_get (environ s) ''ZBX_VAULTDBPATH'' \<noteq> [] then resolveGlobalCA rehash s else (Inr (), s))
        else ret ())
       (then_eff (if command = SecretsService \<and> isWeb component then resolveWebAPMCA rehash else ret ())
          (resolveProviderCAs rehash fspecs))"

definition resolve_managed ::
  "(string \<Rightarrow> (filesystem, unit) eff) \<Rightarrow> SecretComponent \<Rightarrow> SecretCommand \<Rightarrow> (managed, unit) eff" where
  "resolve_managed rehash component command s =
     (case secretPlan (environ s) component command of
        Inl e \<Rightarrow> (Inl e, s)
      | Inr (fspecs, vspecs, aliases) \<Rightarrow>
          then_eff (on_env (dropUnusedProviderSources component))
            (then_eff (cleanupStaleProviderSecrets component command)
              (if fspecs = [] \<and> vspecs = [] \<and> aliases = [] then ret ()
               else
                 then_eff (on_env (normalizeEmptySecretSources fspecs vspecs))
                   (then_eff (for_eff aliases normalizeSecretAlias)
                     (then_eff (for_eff fspecs resolveFileSecret)
                       (then_eff (for_eff vspecs resolveValueSecret)
                         (resolveDirectories rehash component command fspecs)))))) s)"

definition ResolveSecrets ::
  "(string \<Rightarrow> (filesystem, unit) eff) \<Rightarrow> SecretComponent \<Rightarrow> SecretCommand \<Rightarrow> ('w process_scheme, unit) eff" where
  "ResolveSecrets rehash component command s =
     (case resolve_managed rehash component command
             \<lparr>environ = environ s, files = files s, root = None\<rparr> of
        (r, s') \<Rightarrow> (r, s\<lparr>environ := environ s', files := files s'\<rparr>))"

text \<open>The wrappers of entrypoints and handlers.\<close>

definition WithResolvedSecrets ::
  "(string \<Rightarrow> (filesystem, unit) eff) \<Rightarrow> SecretComponent \<Rightarrow> string \<Rightarrow> 'w entrypoint \<Rightarrow> 'w entrypoint" where
  "WithResolvedSecrets rehash component binary next_entrypoint args =
     (let service = (if binary \<noteq> [] then snd (ServiceArgs args binary) else args = []) in
      if service then prepared (once (ResolveSecrets rehash component SecretsService)) (\<lambda>_. next_entrypoint args)
      else next_entrypoint args)"

text \<open>A missing handler stays missing.\<close>

definition withSecrets ::
  "(string \<Rightarrow> (filesystem, unit) eff) \<Rightarrow> SecretComponent \<Rightarrow> SecretCommand \<Rightarrow>
   ('w process_scheme, 'a) run option \<Rightarrow> ('w process_scheme, 'a) run option" where
  "withSecrets rehash component command handler =
     map_option (\<lambda>h. bind_run (once (ResolveSecrets rehash component command)) (\<lambda>_. h)) handler"

definition WithInitDBSecrets where
  "WithInitDBSecrets rehash component (handler :: ('w process_scheme, unit) run option) =
     withSecrets rehash component SecretsInitDB handler"

definition WithHistoryInitSecrets where
  "WithHistoryInitSecrets rehash component (handler :: ('w process_scheme, nat) run option) =
     withSecrets rehash component SecretsInitHistory handler"

definition WithTelemetryInitSecrets where
  "WithTelemetryInitSecrets rehash component (handler :: ('w process_scheme, nat) run option) =
     withSecrets rehash component SecretsInitTelemetry handler"

section \<open>Names that are written\<close>

text \<open>Every variable that resolving secrets sets has a name that ends in one of these letters
  (\<open>FILE\<close>, \<open>LOCATION\<close>, \<open>USER\<close>, \<open>PASSWORD\<close>, \<open>TOKEN\<close>, \<open>ID\<close>), and no inline file secret does.\<close>

definition settable :: "string \<Rightarrow> bool" where
  "settable name \<longleftrightarrow> name \<noteq> [] \<and> List.member ''ENRD'' (last name)"

definition adds_settable :: "(environment \<Rightarrow> environment) \<Rightarrow> bool" where
  "adds_settable f \<longleftrightarrow> (\<forall>env n. env_has (f env) n \<longrightarrow> env_has env n \<or> settable n)"

lemma settable_append [simp]: "xs \<noteq> [] \<Longrightarrow> settable (name @ xs) = settable xs"
  by (simp add: settable_def)

lemma adds_settable_set [intro]: "settable k \<Longrightarrow> adds_settable (\<lambda>env. env_set env k v)"
  by (auto simp: adds_settable_def env.has_put)

lemma adds_settable_delete [intro]: "adds_settable (\<lambda>env. env_delete env k)"
  by (auto simp: adds_settable_def env.has_del)

lemma adds_settable_comp: "adds_settable f \<Longrightarrow> adds_settable g \<Longrightarrow> adds_settable (\<lambda>env. f (g env))"
  unfolding adds_settable_def by blast

definition settable_plan :: "fileSecretSpec list \<Rightarrow> valueSecretSpec list \<Rightarrow> secretAlias list \<Rightarrow> bool" where
  "settable_plan fspecs vspecs aliases \<longleftrightarrow>
     list_all (\<lambda>f. settable (fileVar f) \<and> \<not> settable (inlineVar f)) fspecs \<and>
     list_all (\<lambda>v. settable (value_name v)) vspecs \<and> list_all (\<lambda>a. settable (canonical a)) aliases"

lemma settable_plan_append:
  "settable_plan (f @ f') (v @ v') (a @ a') \<longleftrightarrow> settable_plan f v a \<and> settable_plan f' v' a'"
  by (auto simp: settable_plan_def)

lemma settable_files_append:
  "settable_plan (f @ f') [] [] \<longleftrightarrow> settable_plan f [] [] \<and> settable_plan f' [] []"
  by (auto simp: settable_plan_def)

lemma settable_plan_parts: "settable_plan f v a \<longleftrightarrow> settable_plan f [] [] \<and> settable_plan [] v [] \<and> settable_plan [] [] a"
  by (auto simp: settable_plan_def)

lemmas settable_planI = settable_plan_parts [THEN iffD2, OF conjI, OF _ conjI]

lemma settable_plan_nil [simp]: "settable_plan [] [] []"
  by (simp add: settable_plan_def)

lemma addFiles_settable:
  "list_all (\<lambda>n. \<not> settable n) names \<Longrightarrow> settable_plan (addFiles category legacyd std act names) [] []"
  by (induction names) (simp_all add: settable_plan_def addFiles_def settable_def)

lemma addValues_settable:
  "list_all settable names \<Longrightarrow> settable_plan [] (addValues category act names) []"
  by (induction names) (simp_all add: settable_plan_def addValues_def)

lemma settable_files_if:
  "settable_plan f [] [] \<Longrightarrow> settable_plan f' [] [] \<Longrightarrow> settable_plan (if c then f else f') [] []"
  by simp

lemma settable_files_both:
  "settable_plan f [] [] \<Longrightarrow> settable_plan f' [] [] \<Longrightarrow> settable_plan (f @ f') [] []"
  by (simp add: settable_files_append)

lemma serviceFiles_settable: "settable_plan (serviceFiles env component) [] []"
  unfolding serviceFiles_def Let_def
  by (intro settable_files_both settable_files_if settable_plan_nil addFiles_settable; code_simp)

lemma databaseFiles_settable: "settable_plan (databaseFiles env component) [] []"
  by (auto simp: databaseFiles_def intro!: addFiles_settable) (simp_all add: settable_def)

lemma settable_values_append:
  "settable_plan [] (v @ v') [] \<longleftrightarrow> settable_plan [] v [] \<and> settable_plan [] v' []"
  by (auto simp: settable_plan_def)

lemma databaseValues_settable: "settable_plan [] (databaseValues env component) []"
  unfolding databaseValues_def Let_def
  by (simp only: settable_values_append if_distrib [of "\<lambda>f. settable_plan [] f []"] settable_plan_nil)
    (auto intro!: addValues_settable simp: settable_def)

lemma vaultPlan_settable:
  assumes "vaultPlan env component command = (f, v, a)"
  shows "settable_plan f v a"
proof -
  have "settable_plan
      (map (\<lambda>d. \<lparr>inlineVar = vt_inline d, fileVar = vt_file d, file_category = c d, legacyDir = l,
          standard = False, file_active = act\<rparr>) vaultTLSFileDefinitions) [] []" for c l act
    by (simp add: settable_plan_def vaultTLSFileDefinitions_def settable_def)
  moreover have "settable_plan [] (addValues ''vault'' act [''VAULT_TOKEN'', ''ZBX_VAULTAPPROLEID'', ''ZBX_VAULTAPPSECRETID'']) []" for act
    by (rule addValues_settable) (simp add: settable_def)
  moreover have "settable_plan [] [] [\<lparr>legacy = ''ZBX_VAULTCERTFILE'', canonical = ''ZBX_VAULTTLSCERTFILE''\<rparr>,
        \<lparr>legacy = ''ZBX_VAULTKEYFILE'', canonical = ''ZBX_VAULTTLSKEYFILE''\<rparr>]"
    by (simp add: settable_plan_def settable_def)
  ultimately show ?thesis
    using assms unfolding vaultPlan_def Let_def prod.inject
    by (elim conjE) (rule settable_planI; erule subst, assumption)
qed

lemma webAliases_settable: "settable_plan [] [] webAliases"
  by (simp add: webAliases_def settable_plan_def settable_def)

lemma provider_suffixes:
  "d \<in> set providerSecretDefinitions \<Longrightarrow> Suffix d \<noteq> [] \<and> (settable (Suffix d) \<longleftrightarrow> Kind d = ProviderValueSecret)"
  by (auto simp: providerSecretDefinitions_def settable_def)

lemma provider_files_settable:
  "settable_plan (map (\<lambda>d. \<lparr>inlineVar = base @ Suffix d, fileVar = base @ Suffix d @ ''FILE'', file_category = c,
                legacyDir = [], standard = False, file_active = a\<rparr>)
         (filter (\<lambda>d. Kind d = ProviderFileSecret) (filter P providerSecretDefinitions))) [] []"
  by (auto simp: settable_plan_def list_all_iff provider_suffixes) (simp add: settable_def)

lemma provider_values_settable:
  "settable_plan [] (map (\<lambda>d. \<lparr>value_name = base @ Suffix d, value_category = c, value_active = a\<rparr>)
         (filter (\<lambda>d. Kind d = ProviderValueSecret) (filter P providerSecretDefinitions))) []"
  by (auto simp: settable_plan_def list_all_iff provider_suffixes)

lemma providerSpecs_settable:
  assumes "providerSpecs env withFiles bc = Inr (f, v)"
  shows "settable_plan f v []"
proof -
  obtain base c where bc: "bc = (base, c)" by fastforce
  have "settable_plan f [] []"
    using assms unfolding providerSpecs_def bc prod.case Let_def
    by (simp only: split: if_split_asm) (auto intro: provider_files_settable simp only: sum.inject prod.inject)
  moreover have "settable_plan [] v []"
    using assms unfolding providerSpecs_def bc prod.case Let_def
    by (simp only: split: if_split_asm) (auto intro: provider_values_settable simp only: sum.inject prod.inject)
  ultimately show ?thesis by (simp add: settable_plan_parts [of f v])
qed

lemma for_res_all:
  "for_res xs body = Inr ys \<Longrightarrow> (\<And>x y. body x = Inr y \<Longrightarrow> P y) \<Longrightarrow> list_all P ys"
  by (induction xs arbitrary: ys) (auto split: sum.splits)

lemma providerSecretPlan_settable:
  assumes "providerSecretPlan env component command = Inr (f, v)"
  shows "settable_plan f v []"
proof -
  from assms obtain keys cat specs where "for_res keys (\<lambda>base. providerSpecs env (isServer component) (base, cat base)) = Inr specs"
    "f = concat (map fst specs)" "v = concat (map snd specs)"
    by (auto simp: providerSecretPlan_def Let_def)
  moreover from this(1) have "list_all (\<lambda>s. settable_plan (fst s) (snd s) []) specs"
    by (rule for_res_all) (metis prod.collapse providerSpecs_settable)
  ultimately show ?thesis
    by (simp add: settable_plan_def list_all_iff)
qed

lemma secretPlan_settable:
  assumes "secretPlan env component command = Inr (f, v, a)"
  shows "settable_plan f v a"
proof -
  obtain vf vv va where vault: "(if (isServer component \<or> isProxy component \<or> isWeb component) \<and>
      (command = SecretsService \<or> command = SecretsInitDB \<or> command = SecretsInitTelemetry)
      then vaultPlan env component command else ([], [], [])) = (vf, vv, va)"
    by (metis prod_cases3)
  have 1: "settable_plan vf vv va"
    using vault by (auto split: if_splits dest: vaultPlan_settable)
  let ?f = "(if command = SecretsService then serviceFiles env component else []) @
            (if command = SecretsService \<or> command = SecretsInitDB then databaseFiles env component else []) @ vf"
  let ?v = "(if command = SecretsService \<or> command = SecretsInitDB then databaseValues env component else []) @ vv"
  let ?a = "va @ (if isWeb component \<and> command = SecretsService then webAliases else [])"
  have 2: "settable_plan ?f ?v ?a"
    using 1 serviceFiles_settable databaseFiles_settable databaseValues_settable webAliases_settable
    by (auto simp: settable_plan_def)
  from assms have "(f, v, a) = (?f, ?v, ?a) \<or>
      (\<exists>f' v'. providerSecretPlan env component command = Inr (f', v') \<and> (f, v, a) = (?f @ f', ?v @ v', ?a))"
    unfolding secretPlan_def Let_def vault by (auto split: if_splits)
  with 2 show ?thesis
    using providerSecretPlan_settable by (auto simp: settable_plan_def)
qed

section \<open>What resolving secrets keeps\<close>

lemma lift_res_preserves [preserving]: "preserves P (lift_res q)"
  by (simp add: preserves_def lift_res_def)

lemma preserves_map_error [preserving]:
  "preserves P m \<Longrightarrow> preserves P (\<lambda>s. case m s of (Inl e, s') \<Rightarrow> (Inl (g e), s') | r \<Rightarrow> r)"
  unfolding preserves_def by (fastforce split: prod.splits sum.splits)

lemma preserves_if_state [preserving]:
  "preserves P m \<Longrightarrow> preserves P m' \<Longrightarrow> preserves P (\<lambda>s. if c s then m s else m' s)"
  by (simp add: preserves_def)

context confined_root
begin

lemma clear_entries_below [preserving]:
  "preserves (only_below b fs0) (clear_entries b dir fmt args names)"
  unfolding clear_entries_def by (intro preserving)

end

text \<open>Beyond the operations on the generated tree: what \<open>openssl rehash\<close> does, and changes of the
  environment that set no other variables than the settable ones.\<close>

locale secret_invariant = managed_invariant I good
  for I :: "bool \<Rightarrow> managed \<Rightarrow> bool" and good :: "place \<Rightarrow> bool" +
  fixes rehash :: "string \<Rightarrow> (filesystem, unit) eff"
  assumes rehash_keeps [preserving]: "preserves (I True) (on_files (rehash target))"
    and on_env_keeps: "adds_settable f \<Longrightarrow> preserves (I opened) (on_env f)"
begin

lemma copyOne_keeps [preserving]: "preserves (I opened) (copyOne target source names)"
proof -
  have "preserves (I opened) (bind_eff (writeSecret p d) (\<lambda>_. ret ns))"
    for p d and ns :: "(string \<times> string) list"
    by (intro preserving)
  then show ?thesis
    unfolding preserves_def copyOne_def Let_def by (simp split: option.split sum.split)
qed

lemma copyAll_keeps [preserving]: "preserves (I opened) (copyAll target sources names)"
proof (induction sources arbitrary: names)
  case (Cons source sources)
  show ?case
    using preserves_case_eff [OF copyOne_keeps Cons.IH, where g = "\<lambda>e. e" and names1 = "\<lambda>ns. ns"]
    by (simp add: preserves_def)
qed (simp add: preserves_def)

lemma copyEntries_keeps [preserving]: "preserves (I opened) (copyEntries target sourceDir entries names)"
proof (induction entries arbitrary: names)
  case (Cons entry entries)
  have "preserves (I opened) (\<lambda>s. if regular then copyOne target p names s else (Inr names, s))" for regular p
    using copyOne_keeps unfolding preserves_def by simp
  note k = preserves_case_eff [OF this Cons.IH, where g = "\<lambda>e. e" and names1 = "\<lambda>ns. ns"]
  show ?case
    using k unfolding preserves_def by (simp split: sum.split)
qed (simp add: preserves_def)

lemma copyDirs_keeps [preserving]: "preserves (I opened) (copyDirs target dirs names)"
proof (induction dirs arbitrary: names)
  case (Cons dir dirs)
  note k = preserves_case_eff [OF copyEntries_keeps Cons.IH, where g = "\<lambda>e. e" and names1 = "\<lambda>ns. ns"]
  show ?case
    using k Cons.IH unfolding preserves_def by (simp split: sum.split)
qed (simp add: preserves_def)

lemma prepareManagedCADir_keeps [preserving]:
  "preserves (I opened) (prepareManagedCADir rehash target sources paths)"
proof -
  let ?k = "\<lambda>rel b. bind_eff (on_files (\<lambda>fs. case root_MkdirAll b rel 448 fs of
                   (Inl e, fs') \<Rightarrow> (Inl (writableSecretDirError target e), fs') | r \<Rightarrow> r)) (\<lambda>_.
               bind_eff (on_files (\<lambda>fs. case root_Chmod b rel 448 fs of
                   (Inl e, fs') \<Rightarrow> (Inl (writableSecretDirError target e), fs') | r \<Rightarrow> r)) (\<lambda>_.
               bind_eff (lift_res (\<lambda>s. wrap_res ''read managed CA directory %q: %w'' [target]
                   (root_ReadDir b rel (files s)))) (\<lambda>entries.
               bind_eff (on_files (clear_entries b rel ''clear managed CA entry %q: %w''
                   (\<lambda>name. [path_Join [target, name]]) (map fst entries))) (\<lambda>_.
               bind_eff (copyDirs target sources []) (\<lambda>names.
               bind_eff (copyAll target paths names) (\<lambda>_.
               wrap_eff ''rehash CA directory %q: %w'' [target] (on_files (rehash target))))))))"
  have "preserves (I True) (?k rel b)" if "good b" for rel b
    by (intro preserving root_operation [OF that] confined_root.root_MkdirAll_below
        confined_root.root_Chmod_below confined_root.clear_entries_below)
  note k = with_root [where k = "?k _", OF this]
  show ?thesis
  proof (rule preservesI)
    fix s r s'
    assume I: "I opened s" and run: "prepareManagedCADir rehash target sources paths s = (r, s')"
    show "I opened s'"
    proof (cases "managedRelativePath (files s) target")
      case (Inr rel)
      with run show ?thesis
        unfolding prepareManagedCADir_def openWritable_def by simp (rule preservesD [OF k, OF _ _ I])
    qed (use run I in \<open>simp add: prepareManagedCADir_def\<close>)
  qed
qed

lemma cleanProvider_keeps:
  assumes "good b"
  shows "preserves (I True) (cleanProvider b family provider)"
proof -
  have 1: "preserves (I True) (bind_eff (for_eff ds (\<lambda>d. removeSecretRelative (f d))) (\<lambda>_ s.
             case must_exist (files s) OpOpen (resolve_in (files s) b caDir True) of
               Inl e \<Rightarrow> (g e, s)
             | Inr _ \<Rightarrow>
                 (case list_dir (files s) (resolve_in (files s) b caDir True) of
                    Inl e \<Rightarrow> (Inl (h e), s)
                  | Inr entries \<Rightarrow> on_files (clear_entries b caDir fmt a (map fst entries)) s)))" for ds f caDir g h fmt a
  proof (intro preserving)
    have "preserves (I True) (on_files (clear_entries b caDir fmt a ns))" for ns
      by (intro root_operation [OF assms] confined_root.clear_entries_below)
    then show "preserves (I True) (\<lambda>s.
             case must_exist (files s) OpOpen (resolve_in (files s) b caDir True) of
               Inl e \<Rightarrow> (g e, s)
             | Inr _ \<Rightarrow>
                 (case list_dir (files s) (resolve_in (files s) b caDir True) of
                    Inl e \<Rightarrow> (Inl (h e), s)
                  | Inr entries \<Rightarrow> on_files (clear_entries b caDir fmt a (map fst entries)) s))"
      unfolding preserves_def by (simp split: sum.split)
  qed
  show ?thesis
  proof (rule preservesI)
    fix s r s'
    assume I: "I True s" and run: "cleanProvider b family provider s = (r, s')"
    obtain name info where p: "provider = (name, info)" by fastforce
    show "I True s'"
    proof (cases "\<not> IsDir info \<or> \<not> HasPrefix name (family @ ''-'')")
      case False
      from run show ?thesis
        unfolding cleanProvider_def p Let_def
        by (simp only: prod.case False if_False) (erule preservesD [OF 1, OF _ I])
    qed (use run I in \<open>simp add: cleanProvider_def p\<close>)
  qed
qed

lemma cleanupStaleProviderSecrets_keeps [preserving]:
  "preserves (I opened) (cleanupStaleProviderSecrets component command)"
proof -
  let ?k = "\<lambda>b s'. case must_exist (files s') OpOpen (resolve_in (files s') b ''providers'' True) of
                Inl e \<Rightarrow>
                  (if errors_Is e ErrNotExist then Inr ()
                   else Inl (Wrapf ''open managed provider directory: %w'' [] e), s')
              | Inr _ \<Rightarrow>
                  (case list_dir (files s') (resolve_in (files s') b ''providers'' True) of
                     Inl e \<Rightarrow> (Inl (Wrapf ''read managed provider directory: %w'' [] e), s')
                   | Inr entries \<Rightarrow>
                       for_eff (staleFamilies component command)
                         (\<lambda>family. for_eff entries (cleanProvider b family)) s')"
  have "preserves (I True) (?k b)" if "good b" for b
  proof -
    have "preserves (I True) (for_eff fams (\<lambda>family. for_eff es (cleanProvider b family)))" for fams es
      by (intro preserving cleanProvider_keeps [OF that])
    then show ?thesis unfolding preserves_def by (simp split: sum.split)
  qed
  note keep = with_root [where k = ?k, OF this]
  show ?thesis
  proof (rule preservesI)
    fix s r s'
    assume I: "I opened s" and run: "cleanupStaleProviderSecrets component command s = (r, s')"
    show "I opened s'"
    proof (cases "staleFamilies component command = []")
      case False
      with run show ?thesis
        unfolding cleanupStaleProviderSecrets_def openExisting_def
        by (simp only: if_False) (rule preservesD [OF keep, OF _ _ I])
    qed (use run I in \<open>simp add: cleanupStaleProviderSecrets_def\<close>)
  qed
qed

end

text \<open>The names that the code itself spells out.\<close>

lemma settable_names [simp]:
  "settable ''ZBX_SSLCERTLOCATION''" "settable ''ZBX_SSLKEYLOCATION''" "settable ''ZBX_SSLCALOCATION''"
  "settable ''ZBX_APM_CA_LOCATION''" "settable ''LOCATION''"
  "vtf \<in> set vaultTLSFileDefinitions \<Longrightarrow> settable (vt_file vtf) \<and> settable (vt_location vtf)"
  by (auto simp: settable_def vaultTLSFileDefinitions_def)

lemma adds_settable_twice:
  "adds_settable f \<Longrightarrow> settable k \<Longrightarrow> adds_settable (\<lambda>env. env_set (f env) k v)"
  "adds_settable f \<Longrightarrow> adds_settable (\<lambda>env. env_delete (f env) k)"
  by (auto simp: adds_settable_def env.has_put env.has_del)

lemma adds_settable_id [simp]: "adds_settable (\<lambda>env. env)"
  by (simp add: adds_settable_def)

lemmas adds_settable_rules = adds_settable_set adds_settable_delete adds_settable_twice adds_settable_id

lemma adds_settable_removing: "(\<And>env n. env_has (f env) n \<Longrightarrow> env_has env n) \<Longrightarrow> adds_settable f"
  by (auto simp: adds_settable_def)

lemma dropUnusedProviderSources_adds: "adds_settable (dropUnusedProviderSources component)"
  by (rule adds_settable_removing)
    (auto simp: dropUnusedProviderSources_def dropProviderSecretSources_def Let_def env.has_fold_del_if split: if_splits)

lemma removeEmpty_has: "env_has (removeEmpty k env) n \<Longrightarrow> env_has env n"
  by (auto simp: removeEmpty_def env.has_del split: if_splits)

lemma normalizeEmpty_adds: "adds_settable (normalizeEmptySecretSources fspecs vspecs)"
proof (rule adds_settable_removing)
  have "env_has (fold removeEmpty ks env) n \<Longrightarrow> env_has env n" for ks env n
    by (induction ks arbitrary: env) (auto dest: removeEmpty_has)
  then show "env_has (normalizeEmptySecretSources fspecs vspecs env) n \<Longrightarrow> env_has env n" for env n
    unfolding normalizeEmptySecretSources_def by blast
qed

context secret_invariant
begin

lemma on_env_run: "on_env f s = (r, s') \<Longrightarrow> adds_settable f \<Longrightarrow> I opened s \<Longrightarrow> I opened s'"
  by (rule preservesD [OF on_env_keeps])

lemma normalizeSecretAlias_keeps:
  assumes "settable (canonical alias)"
  shows "preserves (I opened) (normalizeSecretAlias alias)"
  by (rule preservesI)
    (auto simp: normalizeSecretAlias_def Let_def assms intro!: adds_settable_rules elim!: on_env_run split: if_splits)

lemma resolveFileSecret_after:
  assumes "settable (fileVar spec)" "resolveFileSecret spec s = (r, s')"
    and I1: "I opened (s\<lparr>environ := env_delete (environ s) (inlineVar spec)\<rparr>)" (is "I opened ?s1")
  shows "I opened s'"
proof -
  have drop: "preserves (I opened)
      (then_eff (removeSecret (managedSecretPath spec)) (on_env (\<lambda>env. env_delete env (fileVar spec))))"
    by (intro preserving on_env_keeps adds_settable_rules)
  have wr: "preserves (I opened)
      (then_eff (wrap_eff ''write %s: %w'' [fileVar spec] (writeSecret (managedSecretPath spec) inl))
             (on_env (\<lambda>env. env_set env (fileVar spec) (managedSecretPath spec))))" for inl
    by (intro preserving on_env_keeps adds_settable_rules assms(1))
  have st: "preserves (I opened) (on_env (\<lambda>env. env_set env (fileVar spec) v))" for v
    by (intro on_env_keeps adds_settable_rules assms(1))
  define s1 where "s1 = ?s1"
  from assms(2) I1 show "I opened s'"
    unfolding resolveFileSecret_def Let_def s1_def [symmetric]
    by (auto split: if_splits sum.splits intro: preservesD [OF drop _ ] preservesD [OF wr _ ] preservesD [OF st _ ])
qed

lemma resolveFileSecret_keeps:
  assumes "settable (fileVar spec)"
  shows "preserves (I opened) (resolveFileSecret spec)"
proof (rule preservesI)
  fix s r s'
  assume I: "I opened s" and run: "resolveFileSecret spec s = (r, s')"
  have "I opened (s\<lparr>environ := env_delete (environ s) (inlineVar spec)\<rparr>)"
    by (rule on_env_run [OF _ adds_settable_delete I]) (simp add: on_env_def)
  then show "I opened s'" by (rule resolveFileSecret_after [OF assms run])
qed

lemma resolveValueSecret_keeps:
  assumes "settable (value_name spec)"
  shows "preserves (I opened) (resolveValueSecret spec)"
  by (rule preservesI)
    (auto simp: resolveValueSecret_def Let_def assms intro!: adds_settable_rules elim!: on_env_run split: if_splits sum.splits)

lemma resolveSharedTLSDirectories_keeps [preserving]: "preserves (I opened) resolveSharedTLSDirectories"
proof -
  have 1: "preserves (I opened)
      (bind_eff (lift_res q) (\<lambda>resolved. if resolved \<noteq> [] then on_env (\<lambda>env. env_set env k resolved) else ret ()))"
    if "settable k" for q k
    by (intro preserving on_env_keeps adds_settable_rules that)
  have "preserves (I opened) (for_eff [(''ZBX_SSLCERTLOCATION'', c1, l1), (''ZBX_SSLKEYLOCATION'', c2, l2)]
        (\<lambda>(envName, category, legacyd).
           bind_eff (lift_res (q envName category legacyd))
             (\<lambda>resolved. if resolved \<noteq> [] then on_env (\<lambda>env. env_set env envName resolved) else ret ())))" for c1 c2 l1 l2 q
    by (rule preserves_for) (auto intro: 1)
  note keep = this
  show ?thesis
    by (rule preservesI, unfold resolveSharedTLSDirectories_def Let_def, erule preservesD [OF keep])
qed

lemma resolveGlobalCA_keeps [preserving]: "preserves (I opened) (resolveGlobalCA rehash)"
proof -
  have "preserves (I opened) (bind_eff (lift_res q) (\<lambda>source. bind_eff (lift_res (q' source)) (\<lambda>used.
           if \<not> used then then_eff (on_env (\<lambda>env. env_delete env ''ZBX_SSLCALOCATION'')) (removeTree target)
           else then_eff (prepareManagedCADir rehash target [source] [])
             (on_env (\<lambda>env. env_set env ''ZBX_SSLCALOCATION'' target)))))" for q q' target
    by (intro preserving on_env_keeps adds_settable_rules settable_names)
  note keep = this
  show ?thesis
  proof (rule preservesI)
    fix s r s'
    assume I: "I opened s" and run: "resolveGlobalCA rehash s = (r, s')"
    show "I opened s'"
    proof (cases "env_get (environ s) ''ZBX_SSLCALOCATION'' = []")
      case True
      from run show ?thesis
        unfolding resolveGlobalCA_def Let_def by (simp only: True simp_thms if_False) (erule preservesD [OF keep, OF _ I])
    qed (use run I in \<open>simp add: resolveGlobalCA_def\<close>)
  qed
qed

lemma resolveWebAPMCA_keeps [preserving]: "preserves (I opened) (resolveWebAPMCA rehash)"
proof -
  have "preserves (I opened) (bind_eff (lift_res q) (\<lambda>used.
           if \<not> used \<and> path = [] then then_eff (on_env (\<lambda>env. env_delete env ''ZBX_APM_CA_LOCATION'')) (removeTree target)
           else then_eff (prepareManagedCADir rehash target srcs ps)
             (on_env (\<lambda>env. env_set env ''ZBX_APM_CA_LOCATION'' target))))" for q path target srcs ps
    by (intro preserving on_env_keeps adds_settable_rules settable_names)
  note keep = this
  show ?thesis
  proof (rule preservesI)
    fix s r s'
    assume I: "I opened s" and run: "resolveWebAPMCA rehash s = (r, s')"
    show "I opened s'"
    proof (cases "env_get (environ s) ''ZBX_APM_CA_LOCATION'' = []")
      case True
      from run show ?thesis
        unfolding resolveWebAPMCA_def Let_def by (simp only: True simp_thms if_False) (erule preservesD [OF keep, OF _ I])
    qed (use run I in \<open>simp add: resolveWebAPMCA_def\<close>)
  qed
qed

lemma resolveProviderCAs_keeps [preserving]: "preserves (I opened) (resolveProviderCAs rehash specs)"
  unfolding resolveProviderCAs_def
proof (intro preserves_for, rule preservesI)
  fix spec s r s'
  let ?t = "path_Join [internalSecretsRoot, file_category spec, ''ca'']"
  have k: "preserves (I opened)
      (then_eff (wrap_eff ''%s: %w'' [fileVar spec] (prepareManagedCADir rehash ?t [] [p]))
         (on_env (\<lambda>env. env_set env (TrimSuffix (fileVar spec) ''FILE'' @ ''LOCATION'') ?t)))" for p
    by (intro preserving on_env_keeps adds_settable_rules) (simp add: settable_names)
  assume "I opened s"
    and "(let path = env_get (environ s) (fileVar spec); target = ?t in
       if \<not> HasSuffix (inlineVar spec) ''_SSL_CA'' \<or> path = [] then (Inr (), s)
       else then_eff (wrap_eff ''%s: %w'' [fileVar spec] (prepareManagedCADir rehash target [] [path]))
              (on_env (\<lambda>env. env_set env (TrimSuffix (fileVar spec) ''FILE'' @ ''LOCATION'') target)) s) = (r, s')"
  then show "I opened s'"
    using preservesD [OF k] by (simp add: Let_def split: if_splits)
qed

lemma prepareVaultTLSDirectory_keeps [preserving]:
  "preserves (I opened) (prepareVaultTLSDirectory target source vaultFile data)"
proof -
  have "preserves (I opened) (prepareVaultTLSEntry target source vaultFile entry)" for entry
    using writeSecret_keeps unfolding preserves_def prepareVaultTLSEntry_def by (simp split: sum.split)
  then show ?thesis unfolding prepareVaultTLSDirectory_def by (intro preserving)
qed

lemma prepareVaultTLSFiles_keeps [preserving]: "preserves (I opened) prepareVaultTLSFiles"
  unfolding prepareVaultTLSFiles_def
proof (rule preserves_for)
  fix f assume "f \<in> set vaultTLSFileDefinitions"
  then have n: "settable (vt_file f)" "settable (vt_location f)" using settable_names(6) by blast+
  have "preserves (I opened)
      (then_eff (wrap_eff fmt as (prepareVaultTLSDirectory target source vaultFile data))
        (on_env (\<lambda>env. env_set (env_set env (vt_file f) v) (vt_location f) v')))" for fmt as target source vaultFile data v v'
    by (intro preserving on_env_keeps adds_settable_rules n)
  then show "preserves (I opened) (prepareVaultTLSFile f)"
    using removeTree_keeps
    unfolding preserves_def prepareVaultTLSFile_def Let_def by (simp split: sum.split)
qed

lemma resolveDirectories_keeps [preserving]: "preserves (I opened) (resolveDirectories rehash component command fspecs)"
  unfolding resolveDirectories_def by (intro preserving)

text \<open>What comes after a point of \<open>ResolveSecrets\<close>, with a plan of settable names.\<close>

lemma resolve_rest_keeps:
  assumes "settable_plan fspecs vspecs aliases"
  shows "preserves (I opened) (for_eff aliases normalizeSecretAlias)"
    and "preserves (I opened) (for_eff fspecs resolveFileSecret)"
    and "preserves (I opened) (for_eff vspecs resolveValueSecret)"
  using assms
  by (auto simp: settable_plan_def list_all_iff
      intro!: preserves_for normalizeSecretAlias_keeps resolveFileSecret_keeps resolveValueSecret_keeps)

lemma resolve_managed_keeps: "preserves (I opened) (resolve_managed rehash component command)"
proof (rule preservesI)
  fix s r s'
  assume I: "I opened s" and run: "resolve_managed rehash component command s = (r, s')"
  show "I opened s'"
  proof (cases "secretPlan (environ s) component command")
    case (Inr plan)
    obtain fspecs vspecs aliases where plan: "plan = (fspecs, vspecs, aliases)" by (cases plan)
    note rest = resolve_rest_keeps [OF secretPlan_settable [OF Inr [unfolded plan]]]
    have "preserves (I opened)
        (then_eff (on_env (dropUnusedProviderSources component))
            (then_eff (cleanupStaleProviderSecrets component command)
              (if fspecs = [] \<and> vspecs = [] \<and> aliases = [] then ret ()
               else
                 then_eff (on_env (normalizeEmptySecretSources fspecs vspecs))
                   (then_eff (for_eff aliases normalizeSecretAlias)
                     (then_eff (for_eff fspecs resolveFileSecret)
                       (then_eff (for_eff vspecs resolveValueSecret)
                         (resolveDirectories rehash component command fspecs)))))))"
      by (intro preserves_then preserves_if preserves_ret rest on_env_keeps dropUnusedProviderSources_adds
          normalizeEmpty_adds cleanupStaleProviderSecrets_keeps resolveDirectories_keeps)
    from preservesD [OF this _ I] run Inr plan show ?thesis
      unfolding resolve_managed_def by (simp only: sum.case prod.case)
  qed (use run I in \<open>simp add: resolve_managed_def\<close>)
qed

end

section \<open>Where resolving secrets writes\<close>

text \<open>\<open>openssl rehash\<close> changes nothing outside the generated tree, where all its directories are.\<close>

definition rehash_confined :: "(string \<Rightarrow> (filesystem, unit) eff) \<Rightarrow> filesystem \<Rightarrow> bool" where
  "rehash_confined rehash fs0 \<longleftrightarrow> (\<forall>t. preserves (only_below secrets_place fs0) (rehash t))"

lemma secret_invariant_tethered:
  assumes "mounted fs0" "rehash_confined rehash fs0"
  shows "secret_invariant (\<lambda>opened. tethered opened fs0) (\<lambda>b. b = secrets_place) rehash"
proof (intro secret_invariant.intro managed_invariant_tethered [OF assms(1)] secret_invariant_axioms.intro)
  show "preserves (tethered True fs0) (on_files (rehash target))" for target
  proof -
    have "preserves (only_below secrets_place fs0) (rehash target)"
      using assms(2) by (simp add: rehash_confined_def)
    then show ?thesis
      by (intro preservesI) (auto simp: on_files_def tethered_def split: prod.splits dest: preservesD)
  qed
  show "preserves (tethered opened fs0) (on_env f)" for opened f
    by (simp add: preserves_def on_env_def)
qed


text \<open>An agent with an inline key and a certificate file mounted in the new place.\<close>

definition sample_secrets :: process where
  "sample_secrets = \<lparr>
     environ = [(''ZABBIX_USER_HOME_DIR'', ''/var/lib/zabbix''), (''ZBX_TLSPSK'', ''5ec2e7''), (''ZBX_TLSCERTFILE'', ''agent.crt'')],
     files = quiet_fs
       [([''run''], Directory 493), ([''run'', ''zabbix''], Directory 493),
        ([''run'', ''zabbix'', ''secrets_internal''], Directory 448),
        ([''run'', ''zabbix'', ''secrets''], Directory 493),
        ([''run'', ''zabbix'', ''secrets'', ''tls''], Directory 493),
        ([''run'', ''zabbix'', ''secrets'', ''tls'', ''agent.crt''], RegularFile ''crt'' 292)]\<rparr>"


section \<open>What stays out of the environment\<close>

lemma secret_invariant_unset:
  assumes "\<not> settable n"
  shows "secret_invariant (\<lambda>_. about_env (\<lambda>env. \<not> env_has env n)) (\<lambda>_. True) rehash"
proof (intro secret_invariant.intro environment.managed_invariant_axioms secret_invariant_axioms.intro)
  show "preserves (about_env (\<lambda>env. \<not> env_has env n)) (on_files (rehash target))" for target
    by (auto simp: preserves_def about_env_def on_files_def split: prod.splits)
  show "preserves (about_env (\<lambda>env. \<not> env_has env n)) (on_env f)" if "adds_settable f" for f
    using that assms by (auto simp: preserves_def about_env_def on_env_def adds_settable_def)
qed

text \<open>Resolving secrets adds no other variables than the settable ones.\<close>

interpretation new_names: secret_invariant "\<lambda>_. about_env (\<lambda>env. \<forall>n. env_has env n \<longrightarrow> n \<in> N \<or> settable n)" "\<lambda>_. True" rehash
  for N rehash
proof (intro secret_invariant.intro environment.managed_invariant_axioms secret_invariant_axioms.intro)
  let ?I = "about_env (\<lambda>env. \<forall>n. env_has env n \<longrightarrow> n \<in> N \<or> settable n)"
  show "preserves ?I (on_files (rehash target))" for target
    by (auto simp: preserves_def about_env_def on_files_def split: prod.splits)
  show "preserves ?I (on_env f)" if "adds_settable f" for f
    using that by (auto simp: preserves_def about_env_def on_env_def adds_settable_def)
qed

lemma ResolveSecrets_names:
  assumes "ResolveSecrets rehash component command s = (r, s')" "env_has (environ s') n" "\<not> settable n"
  shows "env_has (environ s) n"
proof -
  let ?s = "\<lparr>environ = environ s, files = files s, root = None\<rparr>"
  obtain q t where run: "resolve_managed rehash component command ?s = (q, t)" by fastforce
  have "about_env (\<lambda>env. \<forall>n. env_has env n \<longrightarrow> n \<in> {n. env_has (environ s) n} \<or> settable n) ?s"
    by (simp add: about_env_def)
  from preservesD [OF new_names.resolve_managed_keeps run this] assms show ?thesis
    by (auto simp: ResolveSecrets_def run about_env_def)
qed

lemma then_eff_Inr:
  "then_eff m k s = (Inr x, s'') \<longleftrightarrow> (\<exists>s'. m s = (Inr (), s') \<and> k s' = (Inr x, s''))"
  by (simp add: then_eff_def bind_eff_Inr)

text \<open>C2: once the secrets of a component are resolved no secret is left in the environment that the
  service inherits as a variable holding a file's contents: for every file secret in the plan of
  the component and command the inline variable is unset, whether the secret was active or not.\<close>

theorem ResolveSecrets_no_inline:
  assumes "ResolveSecrets rehash component command s = (Inr (), s')"
    and "secretPlan (environ s) component command = Inr (fspecs, vspecs, aliases)" "spec \<in> set fspecs"
  shows "\<not> env_has (environ s') (inlineVar spec)"
proof -
  let ?n = "inlineVar spec"
  let ?U = "about_env (\<lambda>env. \<not> env_has env ?n)"
  have n: "\<not> settable ?n" and plan: "settable_plan fspecs vspecs aliases"
    using secretPlan_settable [OF assms(2)] assms(3) by (auto simp: settable_plan_def list_all_iff)
  note inv = secret_invariant_unset [OF n]
  obtain t where run: "resolve_managed rehash component command
      \<lparr>environ = environ s, files = files s, root = None\<rparr> = (Inr (), t)" and t: "environ s' = environ t"
    using assms(1) by (auto simp: ResolveSecrets_def split: prod.splits)
  from run obtain t1 t2 t3 where
    files: "for_eff fspecs resolveFileSecret t1 = (Inr (), t2)" and
    vals: "for_eff vspecs resolveValueSecret t2 = (Inr (), t3)" and
    dirs: "resolveDirectories rehash component command fspecs t3 = (Inr (), t)"
    using assms(2,3) by (auto simp: resolve_managed_def then_eff_Inr split: if_splits)
  have "\<forall>f \<in> set fspecs. inlineVar f = ?n \<longrightarrow> ?U t2"
  proof (rule for_eff_all [OF files])
    show "inlineVar f = ?n \<longrightarrow> ?U u'" if "f \<in> set fspecs" "resolveFileSecret f u = (Inr (), u')" for f u u'
    proof
      assume "inlineVar f = ?n"
      then have "?U (u\<lparr>environ := env_delete (environ u) (inlineVar f)\<rparr>)" by (simp add: about_env_def env.has_del)
      moreover have "settable (fileVar f)" using plan that(1) by (simp add: settable_plan_def list_all_iff)
      ultimately show "?U u'" using secret_invariant.resolveFileSecret_after [OF inv _ that(2)] by blast
    qed
    show "inlineVar f = ?n \<longrightarrow> ?U u'"
      if "f \<in> set fspecs" "g \<in> set fspecs" "inlineVar f = ?n \<longrightarrow> ?U u" "resolveFileSecret g u = (Inr (), u')" for f g u u'
    proof -
      have "settable (fileVar g)" using plan that(2) by (simp add: settable_plan_def list_all_iff)
      then show ?thesis
        using that(3) preservesD [OF secret_invariant.resolveFileSecret_keeps [OF inv] that(4)] by blast
    qed
  qed
  with assms(3) have "?U t2" by blast
  then have "?U t3" using preservesD [OF secret_invariant.resolve_rest_keeps(3) [OF inv plan] vals] by blast
  then have "?U t" using preservesD [OF secret_invariant.resolveDirectories_keeps [OF inv] dirs] by blast
  with t show ?thesis by (simp add: about_env_def)
qed

definition sample_mcp :: process where
  "sample_mcp = \<lparr>
     environ = [(''ZBX_TLSACCEPT'', ''cert''), (''ZBX_TLSKEY'', ''5ec2e7'')],
     files = quiet_fs
       [([''run''], Directory 493), ([''run'', ''zabbix''], Directory 493),
        ([''run'', ''zabbix'', ''secrets_internal''], Directory 448)]\<rparr>"

lemma ResolveSecrets_no_inline_witness:
  "\<not> env_has (environ (snd (ResolveSecrets (\<lambda>_ fs. (Inr (), fs)) SecretsMCPServer SecretsService sample_mcp))) ''ZBX_TLSKEY''"
proof -
  let ?r = "\<lambda>(_ :: string) (fs :: filesystem). (Inr (), fs) :: unit result \<times> filesystem"
  have "fst (ResolveSecrets ?r SecretsMCPServer SecretsService sample_mcp) = Inr ()"
    by code_simp
  then have 1: "ResolveSecrets ?r SecretsMCPServer SecretsService sample_mcp =
      (Inr (), snd (ResolveSecrets ?r SecretsMCPServer SecretsService sample_mcp))"
    by (metis prod.collapse)
  have 2: "secretPlan (environ sample_mcp) SecretsMCPServer SecretsService =
      Inr (addFiles ''tls'' ''enc'' False True [''ZBX_TLSCERT'', ''ZBX_TLSKEY''], [], [])"
    by code_simp
  let ?spec = "\<lparr>inlineVar = ''ZBX_TLSKEY'', fileVar = ''ZBX_TLSKEYFILE'', file_category = ''tls'',
    legacyDir = ''enc'', standard = False, file_active = True\<rparr>"
  have "?spec \<in> set (addFiles ''tls'' ''enc'' False True [''ZBX_TLSCERT'', ''ZBX_TLSKEY''])"
    by (simp add: addFiles_def)
  from ResolveSecrets_no_inline [OF 1 2 this] show ?thesis by simp
qed

end
