(* ===== verification/SqlScript.thy ===== *)
theory SqlScript
  imports Strings
begin

text \<open>
  The splitter of SQL scripts into statements: \<open>internal/mysql/sqlscript.go\<close>.  The parser reads
  the script line by line; its inner loop consumes a delimiter at a time, so it would not end for
  an empty delimiter.  It is a partial function, shown total for the parsers the program builds.
\<close>

section \<open>Definitions\<close>

record sqlStatementParser =
  delimiter :: string
  statement :: string
  statements :: "string list"
  quote :: "char option"
  lineComment :: bool
  blockComment :: bool
  keepComment :: bool

definition newParser :: sqlStatementParser where
  "newParser = \<lparr>delimiter = '';'', statement = [], statements = [], quote = None,
     lineComment = False, blockComment = False, keepComment = False\<rparr>"

definition WriteString :: "string \<Rightarrow> sqlStatementParser \<Rightarrow> sqlStatementParser" where
  "WriteString s p = p\<lparr>statement := statement p @ s\<rparr>"

definition canChangeDelimiter :: "sqlStatementParser \<Rightarrow> bool" where
  "canChangeDelimiter p \<longleftrightarrow>
     quote p = None \<and> \<not> lineComment p \<and> \<not> blockComment p \<and> TrimSpace (statement p) = []"

definition sql_flush :: "sqlStatementParser \<Rightarrow> sqlStatementParser" where
  "sql_flush p =
     (let s = TrimSpace (statement p); p = p\<lparr>statement := []\<rparr> in
      if s \<noteq> [] then p\<lparr>statements := statements p @ [s]\<rparr> else p)"

definition isSQLSpace :: "char \<Rightarrow> bool" where
  "isSQLSpace c = (c = CHR '' '' \<or> c = CHR 0x09 \<or> c = CHR 0x0D \<or> c = CHR 0x0A)"

definition isQuote :: "char \<Rightarrow> bool" where
  "isQuote c = (c = CHR 0x27 \<or> c = CHR 0x22 \<or> c = CHR 0x60)"

text \<open>\<open>--\<close> followed by a space in the same chunk.\<close>

fun dashComment :: "string \<Rightarrow> bool" where
  "dashComment (a # b # c # _) = (a = CHR ''-'' \<and> b = CHR ''-'' \<and> isSQLSpace c)"
| "dashComment _ = False"

text \<open>One turn of the loop of \<open>write\<close> on the rest of the chunk: the parser and what is left.\<close>

definition writeStep :: "sqlStatementParser \<Rightarrow> char \<Rightarrow> string \<Rightarrow> sqlStatementParser \<times> string" where
  "writeStep p c rest =
     (if lineComment p
      then (if c = CHR 0x0A then WriteString [CHR 0x0A] (p\<lparr>lineComment := False\<rparr>) else p, rest)
      else if blockComment p
      then (if HasPrefix (c # rest) ''*/''
            then ((WriteString (if keepComment p then ''*/'' else '' '') p)\<lparr>blockComment := False, keepComment := False\<rparr>,
                  drop 1 rest)
            else (if keepComment p then WriteString [c] p else p, rest))
      else
        (case quote p of
           Some q \<Rightarrow>
             (let p1 = WriteString [c] p in
              if c = CHR 0x5C \<and> rest \<noteq> [] then (WriteString [hd rest] p1, tl rest)
              else if c = q
              then (if rest \<noteq> [] \<and> hd rest = q then (WriteString [hd rest] p1, tl rest)
                    else (p1\<lparr>quote := None\<rparr>, rest))
              else (p1, rest))
         | None \<Rightarrow>
             if HasPrefix (c # rest) (delimiter p)
             then (sql_flush p, drop (length (delimiter p)) (c # rest))
             else if c = CHR ''#'' \<or> dashComment (c # rest)
             then (p\<lparr>lineComment := True\<rparr>, if c = CHR ''-'' then drop 1 rest else rest)
             else if HasPrefix (c # rest) ''/*''
             then (let keep = length rest > 1 \<and> (rest ! 1 = CHR ''!'' \<or> rest ! 1 = CHR ''+'');
                       p1 = p\<lparr>blockComment := True, keepComment := keep\<rparr> in
                   (if keep then WriteString ''/*'' p1 else p1, drop 1 rest))
             else (WriteString [c] (if isQuote c then p\<lparr>quote := Some c\<rparr> else p), rest)))"

partial_function (option) sql_write :: "sqlStatementParser \<Rightarrow> string \<Rightarrow> sqlStatementParser option" where
  "sql_write p v =
     (case v of
        [] \<Rightarrow> Some p
      | c # rest \<Rightarrow> (case writeStep p c rest of (p', rest') \<Rightarrow> sql_write p' rest'))"

text \<open>The lines of a script, each with its newline.\<close>

fun sql_lines :: "string \<Rightarrow> string list" where
  "sql_lines [] = []"
| "sql_lines (c # cs) =
     (if c = CHR 0x0A then [c] # sql_lines cs
      else (case sql_lines cs of [] \<Rightarrow> [[c]] | l # ls \<Rightarrow> (c # l) # ls))"

definition delimiterLine :: "string \<Rightarrow> string option" where
  "delimiterLine line =
     (case Fields (TrimSpace line) of
        [a, b] \<Rightarrow> if EqualFold a ''DELIMITER'' then Some b else None
      | _ \<Rightarrow> None)"

fun parseLines :: "string list \<Rightarrow> sqlStatementParser \<Rightarrow> sqlStatementParser option" where
  "parseLines [] p = Some p"
| "parseLines (line # ls) p =
     (case (if canChangeDelimiter p then delimiterLine line else None) of
        Some d \<Rightarrow> parseLines ls (p\<lparr>delimiter := d\<rparr>)
      | None \<Rightarrow> (case sql_write p line of None \<Rightarrow> None | Some p' \<Rightarrow> parseLines ls p'))"

definition splitSQLStatements :: "string \<Rightarrow> string list result option" where
  "splitSQLStatements script =
     map_option (\<lambda>p.
       if quote p \<noteq> None then Inl (Errorf ''unterminated quoted string'' [])
       else if blockComment p then Inl (Errorf ''unterminated block comment'' [])
       else Inr (statements (sql_flush p)))
     (parseLines (sql_lines script) newParser)"

section \<open>The loop ends\<close>

lemma parser_frame [simp]:
  "delimiter (WriteString s p) = delimiter p" "quote (WriteString s p) = quote p"
  "lineComment (WriteString s p) = lineComment p" "blockComment (WriteString s p) = blockComment p"
  "statements (WriteString s p) = statements p" "statement (WriteString s p) = statement p @ s"
  "keepComment (WriteString s p) = keepComment p"
  "delimiter (sql_flush p) = delimiter p" "quote (sql_flush p) = quote p"
  "lineComment (sql_flush p) = lineComment p" "blockComment (sql_flush p) = blockComment p"
  "keepComment (sql_flush p) = keepComment p" "statement (sql_flush p) = []"
  by (simp_all add: WriteString_def sql_flush_def Let_def)

lemma statements_flush:
  "statements (sql_flush p) =
     statements p @ (if TrimSpace (statement p) = [] then [] else [TrimSpace (statement p)])"
  by (simp add: sql_flush_def Let_def)

lemma writeStep_consumes:
  assumes "writeStep p c rest = (p', rest')" "delimiter p \<noteq> []"
  shows "length rest' \<le> length rest \<and> delimiter p' = delimiter p"
  using assms
  by (cases "delimiter p") (auto simp: writeStep_def Let_def split: if_splits option.splits)

lemma writeStep_statements:
  assumes "writeStep p c rest = (p', rest')"
  shows "statements p' = statements p \<or> statements p' = statements (sql_flush p)"
proof (cases "lineComment p \<or> blockComment p")
  case True
  with assms show ?thesis by (auto simp: writeStep_def split: if_splits)
next
  case comments: False
  show ?thesis
  proof (cases "quote p")
    case (Some q)
    with comments assms show ?thesis by (auto simp: writeStep_def Let_def split: if_splits)
  next
    case None
    show ?thesis
    proof (cases "HasPrefix (c # rest) (delimiter p)")
      case True
      with comments None assms show ?thesis by (simp add: writeStep_def)
    next
      case False
      with comments None assms show ?thesis by (simp add: writeStep_def Let_def split: if_splits) auto
    qed
  qed
qed

definition trimmed_parser :: "sqlStatementParser \<Rightarrow> bool" where
  "trimmed_parser p \<longleftrightarrow> delimiter p \<noteq> [] \<and> (\<forall>s \<in> set (statements p). s \<noteq> [] \<and> TrimSpace s = s)"

lemma trimmed_flush: "trimmed_parser p \<Longrightarrow> trimmed_parser (sql_flush p)"
  by (auto simp: trimmed_parser_def statements_flush)

lemma trimmed_writeStep:
  assumes "writeStep p c rest = (p', rest')" "trimmed_parser p"
  shows "trimmed_parser p'"
proof -
  have d: "delimiter p' = delimiter p"
    using writeStep_consumes [OF assms(1)] assms(2) by (simp add: trimmed_parser_def)
  from writeStep_statements [OF assms(1)] show ?thesis
  proof
    assume "statements p' = statements p"
    with d assms(2) show ?thesis by (simp add: trimmed_parser_def)
  next
    assume "statements p' = statements (sql_flush p)"
    with d trimmed_flush [OF assms(2)] show ?thesis by (simp add: trimmed_parser_def)
  qed
qed

lemma sql_write_simps [simp]:
  "sql_write p [] = Some p"
  "sql_write p (c # rest) = (case writeStep p c rest of (p', rest') \<Rightarrow> sql_write p' rest')"
  by (subst sql_write.simps, simp)+

declare sql_write_simps [code]

lemma sql_write_total:
  "trimmed_parser p \<Longrightarrow> \<exists>p'. sql_write p v = Some p' \<and> trimmed_parser p'"
proof (induction v arbitrary: p rule: length_induct)
  case (1 v)
  show ?case
  proof (cases v)
    case Nil
    with 1 show ?thesis by simp
  next
    case (Cons c rest)
    obtain p1 rest1 where s: "writeStep p c rest = (p1, rest1)" by fastforce
    have "delimiter p \<noteq> []" using 1(2) by (simp add: trimmed_parser_def)
    then have "length rest1 < length v" using writeStep_consumes [OF s] Cons by simp
    moreover have "trimmed_parser p1" by (rule trimmed_writeStep [OF s 1(2)])
    ultimately have "\<exists>p'. sql_write p1 rest1 = Some p' \<and> trimmed_parser p'"
      using 1(1) by blast
    with Cons s show ?thesis by simp
  qed
qed

lemma delimiterLine_nonempty: "delimiterLine line = Some d \<Longrightarrow> d \<noteq> []"
proof -
  assume "delimiterLine line = Some d"
  then obtain a where "Fields (TrimSpace line) = [a, d]"
    by (auto simp: delimiterLine_def split: list.splits if_splits)
  then have "d \<in> set (Fields (TrimSpace line))" by simp
  then show ?thesis by (rule Fields_nonempty)
qed

lemma parseLines_total:
  "trimmed_parser p \<Longrightarrow> \<exists>p'. parseLines ls p = Some p' \<and> trimmed_parser p'"
proof (induction ls arbitrary: p)
  case (Cons line ls)
  show ?case
  proof (cases "if canChangeDelimiter p then delimiterLine line else None")
    case (Some d)
    then have "delimiterLine line = Some d" by (simp split: if_splits)
    then have "d \<noteq> []" by (rule delimiterLine_nonempty)
    with Cons.prems have "trimmed_parser (p\<lparr>delimiter := d\<rparr>)" by (simp add: trimmed_parser_def)
    with Cons.IH Some show ?thesis by simp
  next
    case None
    obtain p1 where "sql_write p line = Some p1" "trimmed_parser p1"
      using sql_write_total [OF Cons.prems] by blast
    with Cons.IH None show ?thesis by simp
  qed
qed simp

lemma trimmed_newParser: "trimmed_parser newParser"
  by (simp add: trimmed_parser_def newParser_def)

text \<open>The splitter returns for every script, with the statements or one of its two errors, and
  every statement it returns is non-empty and trimmed.\<close>

theorem splitSQLStatements_total:
  "\<exists>r. splitSQLStatements script = Some r \<and>
     (case r of
        Inl e \<Rightarrow> e = Errorf ''unterminated quoted string'' [] \<or> e = Errorf ''unterminated block comment'' []
      | Inr ss \<Rightarrow> list_all (\<lambda>s. s \<noteq> [] \<and> TrimSpace s = s) ss)"
proof -
  obtain p where p: "parseLines (sql_lines script) newParser = Some p" "trimmed_parser p"
    using parseLines_total [OF trimmed_newParser] by blast
  with trimmed_flush [OF p(2)] show ?thesis
    by (auto simp: splitSQLStatements_def trimmed_parser_def list_all_iff)
qed

section \<open>Statements come back\<close>

text \<open>The text between two quotes: anything but the quote and a backslash, a backslash with the
  character behind it, or the quote twice.\<close>

inductive quoted_body :: "char \<Rightarrow> string \<Rightarrow> bool" for q where
  closed: "quoted_body q []"
| other: "c \<noteq> q \<Longrightarrow> c \<noteq> CHR 0x5C \<Longrightarrow> quoted_body q b \<Longrightarrow> quoted_body q (c # b)"
| escape: "quoted_body q b \<Longrightarrow> quoted_body q (CHR 0x5C # c # b)"
| double: "quoted_body q b \<Longrightarrow> quoted_body q (q # q # b)"

text \<open>Statement text under a delimiter that starts with \<open>d\<close>: quoted strings, which may hold
  anything, and other characters but the three that can start a comment and \<open>d\<close> itself.\<close>

definition plain_char :: "char \<Rightarrow> char \<Rightarrow> bool" where
  "plain_char d c \<longleftrightarrow> c \<noteq> d \<and> \<not> isQuote c \<and> c \<noteq> CHR ''#'' \<and> c \<noteq> CHR ''-'' \<and> c \<noteq> CHR ''/''"

inductive sql_text :: "char \<Rightarrow> string \<Rightarrow> bool" for d where
  nothing: "sql_text d []"
| plain: "plain_char d c \<Longrightarrow> sql_text d s \<Longrightarrow> sql_text d (c # s)"
| quoted: "isQuote q \<Longrightarrow> q \<noteq> d \<Longrightarrow> quoted_body q b \<Longrightarrow> sql_text d s \<Longrightarrow> s = [] \<or> hd s \<noteq> q \<Longrightarrow>
     sql_text d (q # b @ q # s)"

definition at_rest :: "sqlStatementParser \<Rightarrow> bool" where
  "at_rest p \<longleftrightarrow> quote p = None \<and> \<not> lineComment p \<and> \<not> blockComment p"

lemma WriteString_twice: "WriteString t (WriteString s p) = WriteString (s @ t) p"
  by (simp add: WriteString_def)

lemma isQuote_chars [simp]:
  "isQuote q \<Longrightarrow> q \<noteq> CHR 0x5C" "isQuote q \<Longrightarrow> q \<noteq> CHR ''#''" "isQuote q \<Longrightarrow> q \<noteq> CHR ''-''"
  "isQuote q \<Longrightarrow> q \<noteq> CHR ''/''"
  by (auto simp: isQuote_def)

lemma sql_write_body:
  assumes "quoted_body q b" "isQuote q" "quote p = Some q" "\<not> lineComment p" "\<not> blockComment p"
    and "rest = [] \<or> hd rest \<noteq> q"
  shows "sql_write p (b @ q # rest) = sql_write ((WriteString (b @ [q]) p)\<lparr>quote := None\<rparr>) rest"
  using assms(1,3-5)
proof (induction arbitrary: p rule: quoted_body.induct)
  case closed
  with assms(2,6) show ?case by (cases rest) (auto simp: writeStep_def Let_def)
next
  case (other c b)
  then have "sql_write (WriteString [c] p) (b @ q # rest) =
      sql_write ((WriteString (b @ [q]) (WriteString [c] p))\<lparr>quote := None\<rparr>) rest" by simp
  with other show ?case by (simp add: writeStep_def Let_def WriteString_twice)
next
  case (escape b c)
  then have "sql_write (WriteString [CHR 0x5C, c] p) (b @ q # rest) =
      sql_write ((WriteString (b @ [q]) (WriteString [CHR 0x5C, c] p))\<lparr>quote := None\<rparr>) rest" by simp
  with escape show ?case by (simp add: writeStep_def Let_def WriteString_twice)
next
  case (double b)
  then have "sql_write (WriteString [q, q] p) (b @ q # rest) =
      sql_write ((WriteString (b @ [q]) (WriteString [q, q] p))\<lparr>quote := None\<rparr>) rest" by simp
  with double assms(2) show ?case by (auto simp: writeStep_def Let_def WriteString_twice)
qed

lemma WriteString_quote: "(WriteString s p)\<lparr>quote := q\<rparr> = WriteString s (p\<lparr>quote := q\<rparr>)"
  by (simp add: WriteString_def)

lemma dashComment_dash: "dashComment (c # cs) \<Longrightarrow> c = CHR ''-''"
  by (cases cs rule: dashComment.cases; cases "tl cs") auto

lemma sql_write_text:
  assumes "sql_text d s" "at_rest p" "delimiter p = d # ds" "\<not> isQuote d"
  shows "sql_write p (s @ delimiter p @ rest) = sql_write (sql_flush (WriteString s p)) rest"
  using assms(1-3)
proof (induction arbitrary: p rule: sql_text.induct)
  case nothing
  then show ?case by (auto simp: writeStep_def at_rest_def HasPrefix_def WriteString_def)
next
  case (plain c s)
  have "\<not> HasPrefix (c # s @ delimiter p @ rest) (delimiter p)"
    "\<not> HasPrefix (c # s @ delimiter p @ rest) ''/*''" "\<not> dashComment (c # s @ delimiter p @ rest)"
    using plain(1,5) by (auto simp: HasPrefix_def plain_char_def dest: dashComment_dash)
  then have step: "writeStep p c (s @ delimiter p @ rest) = (WriteString [c] p, s @ delimiter p @ rest)"
    using plain(1,4) by (simp add: writeStep_def at_rest_def plain_char_def)
  have "at_rest (WriteString [c] p)" using plain(4) by (simp add: at_rest_def)
  from plain.IH [OF this] plain(5) step show ?case by (simp add: WriteString_twice)
next
  case (quoted q b s)
  let ?more = "s @ delimiter p @ rest"
  have more: "hd ?more \<noteq> q" using quoted(2,5) quoted.prems(2) by (cases s) auto
  have "\<not> HasPrefix (q # b @ q # ?more) (delimiter p)"
    "\<not> HasPrefix (q # b @ q # ?more) ''/*''" "\<not> dashComment (q # b @ q # ?more)"
    using isQuote_chars [OF quoted(1)] quoted(2) quoted.prems(2) dashComment_dash [of q]
    by (auto simp: HasPrefix_def)
  then have step: "writeStep p q (b @ q # ?more) = (WriteString [q] (p\<lparr>quote := Some q\<rparr>), b @ q # ?more)"
    using quoted(1) quoted.prems(1) by (simp add: writeStep_def at_rest_def)
  have "sql_write (WriteString [q] (p\<lparr>quote := Some q\<rparr>)) (b @ q # ?more) =
      sql_write ((WriteString (b @ [q]) (WriteString [q] (p\<lparr>quote := Some q\<rparr>)))\<lparr>quote := None\<rparr>) ?more"
    by (rule sql_write_body [OF quoted(3,1)]) (use quoted.prems(1) more in \<open>auto simp: at_rest_def\<close>)
  also have "(WriteString (b @ [q]) (WriteString [q] (p\<lparr>quote := Some q\<rparr>)))\<lparr>quote := None\<rparr> =
      WriteString (q # b @ [q]) p"
    using quoted.prems(1) by (simp add: WriteString_twice WriteString_quote at_rest_def)
  also have "sql_write (WriteString (q # b @ [q]) p) ?more =
      sql_write (sql_flush (WriteString s (WriteString (q # b @ [q]) p))) rest"
    using quoted.IH [of "WriteString (q # b @ [q]) p"] quoted.prems by (simp add: at_rest_def)
  finally show ?case using step by (simp add: WriteString_twice)
qed

lemma TrimSpace_LF: "TrimSpace (CHR 0x0A # s) = TrimSpace s"
proof -
  have "strip_left space_runes (CHR 0x0A # s) = strip_left space_runes s"
    by (subst strip_left.simps) (simp add: space_runes_def)
  then show ?thesis by (simp add: TrimSpace_def)
qed

lemma sql_lines_append: "CHR 0x0A \<notin> set s \<Longrightarrow> sql_lines (s @ CHR 0x0A # r) = (s @ [CHR 0x0A]) # sql_lines r"
  by (induction s) auto

lemma sql_lines_concat:
  "\<forall>s \<in> set ss. CHR 0x0A \<notin> set s \<Longrightarrow>
     sql_lines (concat (map (\<lambda>s. s @ [CHR 0x0A]) ss)) = map (\<lambda>s. s @ [CHR 0x0A]) ss"
  by (induction ss) (auto simp: sql_lines_append)

text \<open>Between two statements only the newline of the last line has been written.\<close>

definition between :: "sqlStatementParser \<Rightarrow> bool" where
  "between p \<longleftrightarrow> at_rest p \<and> (statement p = [] \<or> statement p = [CHR 0x0A])"

lemma between_canChange: "between p \<Longrightarrow> canChangeDelimiter p"
  using TrimSpace_LF [of "[]"] by (auto simp: between_def at_rest_def canChangeDelimiter_def)

lemma sql_write_line:
  assumes "sql_text d s" "between p" "delimiter p = d # ds" "\<not> isQuote d" "d \<noteq> CHR 0x0A" "TrimSpace s \<noteq> []"
  shows "\<exists>p'. sql_write p (s @ delimiter p @ [CHR 0x0A]) = Some p' \<and> between p' \<and>
           delimiter p' = delimiter p \<and> statements p' = statements p @ [TrimSpace s]"
proof -
  let ?q = "sql_flush (WriteString s p)"
  have "sql_write p (s @ delimiter p @ [CHR 0x0A]) = sql_write ?q [CHR 0x0A]"
    using sql_write_text [OF assms(1) _ assms(3,4), of "[CHR 0x0A]"] assms(2) by (simp add: between_def)
  also have "\<dots> = Some (WriteString [CHR 0x0A] ?q)"
    using assms(2,3,5) by (simp add: writeStep_def between_def at_rest_def HasPrefix_def isQuote_def)
  finally show ?thesis
    using assms(2,6) by (auto simp: between_def at_rest_def statements_flush TrimSpace_LF)
qed

lemma parseLines_statements:
  assumes "delimiter p = d # ds" "\<not> isQuote d" "d \<noteq> CHR 0x0A" "between p"
    and "\<forall>s \<in> set ss. sql_text d s \<and> TrimSpace s \<noteq> [] \<and> delimiterLine (s @ (d # ds) @ [CHR 0x0A]) = None"
  shows "\<exists>p'. parseLines (map (\<lambda>s. s @ (d # ds) @ [CHR 0x0A]) ss) p = Some p' \<and> between p' \<and>
           statements p' = statements p @ map TrimSpace ss"
  using assms
proof (induction ss arbitrary: p)
  case (Cons s ss)
  then obtain p1 where p1: "sql_write p (s @ (d # ds) @ [CHR 0x0A]) = Some p1" "between p1"
    "delimiter p1 = d # ds" "statements p1 = statements p @ [TrimSpace s]"
    using sql_write_line [of d s p ds] by auto
  then have "parseLines (map (\<lambda>s. s @ (d # ds) @ [CHR 0x0A]) (s # ss)) p =
      parseLines (map (\<lambda>s. s @ (d # ds) @ [CHR 0x0A]) ss) p1"
    using Cons.prems(5) by simp
  moreover have "\<exists>p'. parseLines (map (\<lambda>s. s @ (d # ds) @ [CHR 0x0A]) ss) p1 = Some p' \<and> between p' \<and>
      statements p' = statements p1 @ map TrimSpace ss"
    by (rule Cons.IH) (use Cons.prems p1 in auto)
  ultimately show ?case using p1(4) by auto
qed simp



text \<open>An input where the splitter and the MySQL lexer part: MySQL gives a backslash no meaning
  inside backticks, so the identifier below is complete there.\<close>

lemma splitSQLStatements_backtick_backslash:
  "splitSQLStatements (''SELECT '' @ CHR 0x60 # CHR 0x5C # CHR 0x60 # '';'') =
     Some (Inl (Errorf ''unterminated quoted string'' []))"
  by code_simp

end
