(* ===== verification/Database.thy ===== *)
theory Database
  imports Files Retry Command SecretRegistry
begin

text \<open>
  What the database packages share: \<open>internal/bootstrap/database.go\<close> and \<open>tls.go\<close>, and the shape of
  the world they run in.  Everything outside the process, the database server, Vault and the clock,
  is the \<open>remote\<close> part of the state; the drivers and clients of third parties are functions of it.
\<close>

section \<open>The world\<close>

record 'd machine = process +
  remote :: 'd

definition on_remote :: "('d, 'a) eff \<Rightarrow> ('d machine, 'a) eff" where
  "on_remote m s = (case m (remote s) of (r, d) \<Rightarrow> (r, s\<lparr>remote := d\<rparr>))"

definition on_remote_run :: "('d, 'a) run \<Rightarrow> ('d machine, 'a) run" where
  "on_remote_run m s = map_option (\<lambda>(r, d). (r, s\<lparr>remote := d\<rparr>)) (m (remote s))"

definition on_environ :: "(environment, 'a) eff \<Rightarrow> ('w process_scheme, 'a) eff" where
  "on_environ m s = (case m (environ s) of (r, env) \<Rightarrow> (r, s\<lparr>environ := env\<rparr>))"

text \<open>The context that a termination signal ends, and the timer of a wait.\<close>

record 'd runtime =
  ctx_error :: "'d \<Rightarrow> error option"
  sleep :: "int \<Rightarrow> ('d, unit) eff"

text \<open>\<open>Retry\<close> with its default wait: repeat the attempt, keeping its value.  \<open>None\<close> is a run that
  does not end.\<close>

definition retry_remote ::
  "'d runtime \<Rightarrow> int \<Rightarrow> int \<Rightarrow> ('d, 'a) eff \<Rightarrow> ('d, 'a) run" where
  "retry_remote rt attempts interval attempt d =
     (case Retry (\<lambda>(d, _). ctx_error rt d) (\<lambda>i (d, v). case sleep rt i d of (r, d') \<Rightarrow> (r, (d', v)))
             \<lparr>Attempts = attempts, Interval = interval, OnRetry = None, WaitFor = None\<rparr>
             (\<lambda>(d, v). case attempt d of (Inl e, d') \<Rightarrow> (Inl e, (d', v)) | (Inr x, d') \<Rightarrow> (Inr (), (d', Some x)))
             (d, None) of
        None \<Rightarrow> None
      | Some (Some e, (d', _)) \<Rightarrow> Some (Inl e, d')
      | Some (None, (d', Some x)) \<Rightarrow> Some (Inr x, d')
      | Some (None, (d', None)) \<Rightarrow> Some (Inl ContextDone, d'))"

text \<open>The last case needs an attempt limit of zero attempts and does not arise: a loop that returns
  without an error has had an attempt that succeeded.\<close>

definition seconds :: "int \<Rightarrow> int" where
  "seconds n = n * 1000000000"

section \<open>Settings\<close>

record DBTLSConfig =
  ConnectMode :: string
  CAFile :: string
  CertFile :: string
  KeyFile :: string

definition dbTLSConfig :: "environment \<Rightarrow> string \<Rightarrow> DBTLSConfig" where
  "dbTLSConfig env mode =
     \<lparr>ConnectMode = mode, CAFile = env_get env ''ZBX_DBTLSCAFILE'',
      CertFile = env_get env ''ZBX_DBTLSCERTFILE'', KeyFile = env_get env ''ZBX_DBTLSKEYFILE''\<rparr>"

definition ResolveServiceDBTLS :: "environment \<Rightarrow> DBTLSConfig result" where
  "ResolveServiceDBTLS env = Inr (dbTLSConfig env (env_get env ''ZBX_DBTLSCONNECT''))"

definition ResolveFrontendDBTLS :: "environment \<Rightarrow> DBTLSConfig result" where
  "ResolveFrontendDBTLS env =
     (if \<not> envEnabled (env_get env ''ZBX_DB_ENCRYPTION'')
      then Inr \<lparr>ConnectMode = [], CAFile = [], CertFile = [], KeyFile = []\<rparr>
      else
        (let mode = (if env_get env ''ZBX_DBTLSCAFILE'' \<noteq> []
                     then (if envEnabled (env_get env ''ZBX_DB_VERIFY_HOST'') then ''verify_full'' else ''verify_ca'')
                     else ''required'') in
         Inr (dbTLSConfig env mode)))"

definition ResolveDBPort :: "string \<Rightarrow> (environment, string) eff" where
  "ResolveDBPort defaultPort env =
     (let v = ValueOrDefaultNonEmpty env ''DB_SERVER_PORT'' defaultPort in
      case ParseUint v 16 of
        None \<Rightarrow> (Inl (Wrapf ''invalid DB_SERVER_PORT %q: %w'' [v] (SysError ''strconv.ParseUint'')), env)
      | Some _ \<Rightarrow> (Inr v, env_set env ''DB_SERVER_PORT'' v))"

text \<open>\<open>filepath.Glob\<close> for \<open>*.sql\<close> in a directory whose name has no pattern characters: a directory
  that cannot be read has no matches.\<close>

definition sqlScripts :: "filesystem \<Rightarrow> string \<Rightarrow> string list" where
  "sqlScripts fs dir =
     (case os_Stat fs dir of
        Inl _ \<Rightarrow> []
      | Inr info \<Rightarrow>
          if \<not> IsDir info then []
          else
            (case os_ReadDir fs dir of
               Inl _ \<Rightarrow> []
             | Inr entries \<Rightarrow>
                 map (\<lambda>name. path_Join [dir, name]) (filter (\<lambda>name. HasSuffix name ''.sql'') (map fst entries))))"

definition RunAdditionalSQLScripts ::
  "(string \<Rightarrow> ('w process_scheme, unit) run) \<Rightarrow> ('w process_scheme, unit) run" where
  "RunAdditionalSQLScripts execute s =
     (case RequiredHomeDir (files s) (environ s) of
        Inl e \<Rightarrow> Some (Inl e, s)
      | Inr homeDir \<Rightarrow> for_run (sqlScripts (files s) (path_Join [homeDir, ''dbscripts''])) execute s)"

section \<open>Certificates\<close>

text \<open>Go's \<open>crypto/x509\<close>: pools \<open>'p\<close>, certificates \<open>'c\<close> and key pairs \<open>'k\<close> are abstract.\<close>

record ('p, 'c, 'k) x509 =
  SystemCertPool :: "'p result"
  NewCertPool :: 'p
  AppendCertsFromPEM :: "'p \<Rightarrow> string \<Rightarrow> 'p \<times> bool"
  X509KeyPair :: "string \<Rightarrow> string \<Rightarrow> 'k result"
  VerifyCertificate :: "'c \<Rightarrow> 'c list \<Rightarrow> 'p \<Rightarrow> error option"
  VerifyHostname :: "'c \<Rightarrow> string \<Rightarrow> error option"

fun addCAEntries :: "('p, 'c, 'k) x509 \<Rightarrow> filesystem \<Rightarrow> string \<Rightarrow> string list \<Rightarrow> 'p \<Rightarrow> 'p result" where
  "addCAEntries x fs directory [] pool = Inr pool"
| "addCAEntries x fs directory (name # names) pool =
     (let path = path_Join [directory, name] in
      case os_Stat fs path of
        Inl e \<Rightarrow> Inl (Wrapf ''stat CA entry %q: %w'' [path] e)
      | Inr info \<Rightarrow>
          if \<not> IsRegular info then addCAEntries x fs directory names pool
          else
            (case os_ReadFile fs path of
               Inl e \<Rightarrow> Inl (Wrapf ''read CA certificate %q: %w'' [path] e)
             | Inr data \<Rightarrow> addCAEntries x fs directory names (fst (AppendCertsFromPEM x pool data))))"

definition LoadCAPool :: "('p, 'c, 'k) x509 \<Rightarrow> filesystem \<Rightarrow> string \<Rightarrow> 'p result" where
  "LoadCAPool x fs directory =
     (case SystemCertPool x of
        Inl e \<Rightarrow> Inl (Wrapf ''load system CA certificates: %w'' [] e)
      | Inr pool \<Rightarrow>
          if directory = [] then Inr pool
          else
            (case os_ReadDir fs directory of
               Inl e \<Rightarrow> Inl (Wrapf ''read CA directory %q: %w'' [directory] e)
             | Inr entries \<Rightarrow> addCAEntries x fs directory (map fst entries) pool))"

definition VerifyCertificateChain :: "('p, 'c, 'k) x509 \<Rightarrow> 'c list \<Rightarrow> 'p \<Rightarrow> unit result" where
  "VerifyCertificateChain x certificates roots =
     (case certificates of
        [] \<Rightarrow> Inl (Errorf ''database server did not provide a certificate'' [])
      | c # intermediates \<Rightarrow>
          (case VerifyCertificate x c intermediates roots of None \<Rightarrow> Inr () | Some e \<Rightarrow> Inl e))"

text \<open>The fields of \<open>tls.Config\<close> that the program sets; without its own roots a configuration uses
  those of the system.\<close>

record ('p, 'c, 'k) tls_config =
  InsecureSkipVerify :: bool
  RootCAs :: "'p option"
  Certificates :: "'k list"
  ServerName :: string
  VerifyConnection :: "('c list \<Rightarrow> unit result) option"

definition emptyTLSConfig :: "('p, 'c, 'k) tls_config" where
  "emptyTLSConfig = \<lparr>InsecureSkipVerify = False, RootCAs = None, Certificates = [], ServerName = [],
     VerifyConnection = None\<rparr>"

definition LoadX509KeyPair :: "('p, 'c, 'k) x509 \<Rightarrow> filesystem \<Rightarrow> string \<Rightarrow> string \<Rightarrow> 'k result" where
  "LoadX509KeyPair x fs certFile keyFile =
     bind_res (os_ReadFile fs certFile) (\<lambda>certPEM.
     bind_res (os_ReadFile fs keyFile) (\<lambda>keyPEM. X509KeyPair x certPEM keyPEM))"

section \<open>Addresses\<close>

definition cmp_Or :: "string \<Rightarrow> string \<Rightarrow> string" where
  "cmp_Or a b = (if a \<noteq> [] then a else b)"

definition JoinHostPort :: "string \<Rightarrow> string \<Rightarrow> string" where
  "JoinHostPort host port =
     (if CHR '':'' \<in> set host then ''['' @ host @ '']:'' @ port else host @ '':'' @ port)"

section \<open>Ports\<close>

text \<open>The database port is the one that is set, or the default, and it is a decimal number below
  65536; any other value is an error that changes nothing.\<close>

theorem ResolveDBPort_range:
  "(case ResolveDBPort defaultPort env of
      (Inr port, env') \<Rightarrow>
        port = (if env_get env ''DB_SERVER_PORT'' = [] then defaultPort else env_get env ''DB_SERVER_PORT'') \<and>
        list_all is_digit port \<and> port \<noteq> [] \<and> nat_of_dec port < 65536 \<and>
        env' = env_set env ''DB_SERVER_PORT'' port
    | (Inl _, env') \<Rightarrow>
        env' = env \<and>
        ParseUint (if env_get env ''DB_SERVER_PORT'' = [] then defaultPort else env_get env ''DB_SERVER_PORT'') 16 = None)"
  by (auto simp: ResolveDBPort_def Let_def ValueOrDefaultNonEmpty_def ParseUint_def all_digits_def
      split: option.splits if_splits)

end
