(* ===== verification/Marshal.thy ===== *)
theory Marshal
  imports Json
begin

text \<open>
  Go's \<open>json.Marshal\<close> of untyped values, and that the decoder reads back what was written.  A map is
  written in the order of its keys, which its caller has established; a number is the text that
  \<open>strconv\<close> has chosen for it.
\<close>

section \<open>Writing\<close>

fun marshal_json :: "json \<Rightarrow> string" where
  "marshal_json JNull = ''null''"
| "marshal_json (JBool b) = (if b then ''true'' else ''false'')"
| "marshal_json (JNumber n) = n"
| "marshal_json (JString s) = marshal_string s"
| "marshal_json (JArray vs) = ''['' @ Join (map marshal_json vs) '','' @ '']''"
| "marshal_json (JObject ms) =
     ''{'' @ Join (map (\<lambda>(k, v). marshal_string k @ '':'' @ marshal_json v) ms) '','' @ ''}''"

text \<open>The same with another way to write strings.\<close>

fun marshal_with :: "(string \<Rightarrow> string) \<Rightarrow> json \<Rightarrow> string" where
  "marshal_with w JNull = ''null''"
| "marshal_with w (JBool b) = (if b then ''true'' else ''false'')"
| "marshal_with w (JNumber n) = n"
| "marshal_with w (JString s) = w s"
| "marshal_with w (JArray vs) = ''['' @ Join (map (marshal_with w) vs) '','' @ '']''"
| "marshal_with w (JObject ms) =
     ''{'' @ Join (map (\<lambda>(k, v). w k @ '':'' @ marshal_with w v) ms) '','' @ ''}''"

lemma marshal_with_string: "marshal_json v = marshal_with marshal_string v"
proof (induction v)
  case (JArray vs)
  then have "map marshal_json vs = map (marshal_with marshal_string) vs" by simp
  then show ?case by (simp only: marshal_json.simps marshal_with.simps)
next
  case (JObject ms)
  then have "map (\<lambda>(k, v). marshal_string k @ '':'' @ marshal_json v) ms =
      map (\<lambda>(k, v). marshal_string k @ '':'' @ marshal_with marshal_string v) ms" by auto
  then show ?case by (simp only: marshal_json.simps marshal_with.simps)
qed simp_all

text \<open>What the reader gets: the same value with well-formed strings.\<close>

fun valid_json :: "json \<Rightarrow> json" where
  "valid_json (JString s) = JString (to_valid s)"
| "valid_json (JArray vs) = JArray (map valid_json vs)"
| "valid_json (JObject ms) = JObject (map (\<lambda>(k, v). (to_valid k, valid_json v)) ms)"
| "valid_json v = v"

fun json_depth :: "json \<Rightarrow> nat" where
  "json_depth (JArray vs) = Suc (foldr (\<lambda>v d. max (json_depth v) d) vs 0)"
| "json_depth (JObject ms) = Suc (foldr (\<lambda>(k, v) d. max (json_depth v) d) ms 0)"
| "json_depth _ = 0"

definition number_literal :: "string \<Rightarrow> bool" where
  "number_literal n \<longleftrightarrow> read_number n = Some (n, [])"

fun literal_numbers :: "json \<Rightarrow> bool" where
  "literal_numbers (JNumber n) \<longleftrightarrow> number_literal n"
| "literal_numbers (JArray vs) \<longleftrightarrow> list_all literal_numbers vs"
| "literal_numbers (JObject ms) \<longleftrightarrow> list_all (\<lambda>(k, v). literal_numbers v) ms"
| "literal_numbers _ \<longleftrightarrow> True"

section \<open>Numbers\<close>

definition value_end :: "string \<Rightarrow> bool" where
  "value_end r \<longleftrightarrow> (case r of [] \<Rightarrow> True | c # _ \<Rightarrow> c = CHR '','' \<or> c = CHR '']'' \<or> c = CHR ''}'')"

lemma value_end_char:
  assumes "value_end (c # r)"
  shows "\<not> is_digit c" "c \<notin> {CHR ''0'', CHR ''.'', CHR ''e'', CHR ''E'', CHR ''+'', CHR ''-''}"
  using assms by (auto simp: value_end_def is_digit_def)

lemma span_digits_append:
  assumes "value_end r"
  shows "span_digits (s @ r) = map_prod id (\<lambda>b. b @ r) (span_digits s)"
proof -
  have r: "takeWhile is_digit r = [] \<and> dropWhile is_digit r = r"
    using value_end_char(1) assms by (cases r) auto
  then show ?thesis by (induction s) (auto simp: span_digits.simps)
qed

lemma prefix_mark:
  assumes "value_end r" "c \<in> {CHR ''0'', CHR ''.'', CHR ''e'', CHR ''E'', CHR ''+'', CHR ''-''}"
  shows "prefix [c] (s @ r) \<longleftrightarrow> prefix [c] s"
  using value_end_char(2) assms by (cases s; cases r) auto

lemma read_int_append:
  assumes "value_end r"
  shows "read_int (s @ r) = map_prod id (\<lambda>b. b @ r) (read_int s)"
  using prefix_mark [OF assms, of "CHR ''0''" s] span_digits_append [OF assms, of s]
  by (cases s) (auto simp: read_int_def)

lemma read_frac_append:
  assumes "value_end r"
  shows "read_frac (s @ r) = map_prod id (\<lambda>b. b @ r) (read_frac s)"
  by (cases s) (auto simp: read_frac_def prefix_mark [OF assms, of _ "[]", simplified] span_digits_append [OF assms]
      prod.map_comp o_def)

lemma read_exp_append:
  assumes "value_end r"
  shows "read_exp (s @ r) = map_prod id (\<lambda>b. b @ r) (read_exp s)"
proof (cases s)
  case Nil
  then show ?thesis by (simp add: read_exp_def prefix_mark [OF assms, of _ "[]", simplified])
next
  case (Cons c t)
  show ?thesis
    using prefix_mark [OF assms, of "CHR ''+''" t] prefix_mark [OF assms, of "CHR ''-''" t]
      span_digits_append [OF assms, of t] span_digits_append [OF assms, of "tl t"]
    by (cases t) (auto simp: Cons read_exp_def Let_def prod.map_comp o_def numeral_2_eq_2
        intro!: arg_cong [where f = "\<lambda>f. map_prod f g x" for g x])
qed

lemma read_number_append:
  assumes "read_number n = Some (n, [])" "value_end r"
  shows "read_number (n @ r) = Some (n, r)"
proof -
  have "n \<noteq> []" using read_number_length [OF assms(1)] by auto
  then have "drop 1 (n @ r) = drop 1 n @ r" by (cases n) auto
  then show ?thesis
    using assms(1)
    by (auto simp: read_number_def Let_def prefix_mark [OF assms(2)] read_int_append [OF assms(2)]
        read_frac_append [OF assms(2)] read_exp_append [OF assms(2)] split: prod.splits if_splits)
qed

section \<open>Tokens\<close>

lemma json_tokens_marks:
  "json_tokens (CHR ''{'' # r) = map_option ((#) TOpenObject) (json_tokens r)"
  "json_tokens (CHR ''}'' # r) = map_option ((#) TCloseObject) (json_tokens r)"
  "json_tokens (CHR ''['' # r) = map_option ((#) TOpenArray) (json_tokens r)"
  "json_tokens (CHR '']'' # r) = map_option ((#) TCloseArray) (json_tokens r)"
  "json_tokens (CHR '':'' # r) = map_option ((#) TColon) (json_tokens r)"
  "json_tokens (CHR '','' # r) = map_option ((#) TComma) (json_tokens r)"
  "json_tokens [] = Some []"
  by (subst json_tokens.simps, simp add: json_space_def read_token_def Let_def)+

lemma json_tokens_words:
  "json_tokens (''true'' @ r) = map_option ((#) TTrue) (json_tokens r)"
  "json_tokens (''false'' @ r) = map_option ((#) TFalse) (json_tokens r)"
  "json_tokens (''null'' @ r) = map_option ((#) TNull) (json_tokens r)"
  by (subst json_tokens.simps, simp add: json_space_def read_token_def Let_def)+

lemma number_start:
  assumes "read_number n = Some (n, [])"
  shows "n \<noteq> []" "is_digit (hd n) \<or> hd n = CHR ''-''"
proof -
  show ne: "n \<noteq> []" using read_number_length [OF assms] by auto
  show "is_digit (hd n) \<or> hd n = CHR ''-''"
  proof (rule ccontr)
    assume no: "\<not> (is_digit (hd n) \<or> hd n = CHR ''-'')"
    with ne obtain c t where n: "n = c # t" "\<not> is_digit c" "c \<noteq> CHR ''-''" by (cases n) auto
    then have "c \<noteq> CHR ''0''" by (auto simp: is_digit_def)
    with n(1,2) have ri: "read_int n = ([], n)" by (simp add: read_int_def span_digits.simps)
    have "\<not> prefix ''-'' n" using n(1,3) by simp
    then have "read_number n = None" by (simp add: read_number_def ri split: prod.split)
    with assms show False by simp
  qed
qed

lemma json_tokens_number:
  assumes "number_literal n" "value_end r"
  shows "json_tokens (n @ r) = map_option ((#) (TNumber n)) (json_tokens r)"
proof -
  note lit = assms(1) [unfolded number_literal_def]
  obtain c t where n: "n = c # t" using number_start(1) [OF lit] by (cases n) auto
  have c: "is_digit c \<or> c = CHR ''-''" using number_start(2) [OF lit] n by simp
  then have other: "c \<noteq> CHR ''{''" "c \<noteq> CHR ''}''" "c \<noteq> CHR ''[''" "c \<noteq> CHR '']''" "c \<noteq> CHR '':''" "c \<noteq> CHR '',''"
    "c \<noteq> CHR 0x22" "c \<noteq> CHR ''t''" "c \<noteq> CHR ''f''" "c \<noteq> CHR ''n''"
    by (auto simp: is_digit_def)
  have "read_token (n @ r) = map_option (map_prod TNumber id) (read_number (n @ r))"
    by (simp add: n read_token_def other other [symmetric])
  then have "read_token (n @ r) = Some (TNumber n, r)" by (simp add: read_number_append [OF lit assms(2)])
  moreover have "dropWhile json_space (n @ r) = n @ r" using c by (auto simp: n json_space_def is_digit_def)
  ultimately show ?thesis by (subst json_tokens.simps) (simp add: Let_def n)
qed

fun separate :: "token list list \<Rightarrow> token list" where
  "separate [] = []"
| "separate [ts] = ts"
| "separate (ts # us # uss) = ts @ TComma # separate (us # uss)"

fun value_tokens :: "json \<Rightarrow> token list" where
  "value_tokens JNull = [TNull]"
| "value_tokens (JBool b) = [if b then TTrue else TFalse]"
| "value_tokens (JNumber n) = [TNumber n]"
| "value_tokens (JString s) = [TString (to_valid s)]"
| "value_tokens (JArray vs) = TOpenArray # separate (map value_tokens vs) @ [TCloseArray]"
| "value_tokens (JObject ms) =
     TOpenObject # separate (map (\<lambda>(k, v). TString (to_valid k) # TColon # value_tokens v) ms) @ [TCloseObject]"

lemma value_end_mark [simp]:
  "value_end []" "value_end (CHR '','' # r)" "value_end (CHR '']'' # r)" "value_end (CHR ''}'' # r)"
  by (simp_all add: value_end_def)

lemma json_tokens_separated:
  assumes "\<And>x r. x \<in> set xs \<Longrightarrow> value_end r \<Longrightarrow> json_tokens (text x @ r) = map_option ((@) (tokens_of x)) (json_tokens r)"
    and "value_end r"
  shows "json_tokens (Join (map text xs) '','' @ r) = map_option ((@) (separate (map tokens_of xs))) (json_tokens r)"
  using assms(1)
proof (induction xs rule: induct_list012)
  case 1
  then show ?case by (simp add: option.map_ident)
next
  case (2 x)
  then show ?case using assms(2) by simp
next
  case (3 x y zs)
  have "json_tokens (Join (map text (y # zs)) '','' @ r) = map_option ((@) (separate (map tokens_of (y # zs)))) (json_tokens r)"
    using 3 by simp
  then show ?case
    using 3(3) [of x "CHR '','' # Join (map text (y # zs)) '','' @ r"]
    by (simp add: json_tokens_marks option.map_comp o_def)
qed

text \<open>The contract of a string writer: what it wrote is scanned as the string.\<close>

locale string_writer =
  fixes write_string :: "string \<Rightarrow> string"
  assumes string_tokens: "json_tokens (write_string s @ r) = map_option ((#) (TString (to_valid s))) (json_tokens r)"
begin

lemma json_tokens_value:
  "literal_numbers v \<Longrightarrow> value_end r \<Longrightarrow>
     json_tokens (marshal_with write_string v @ r) = map_option ((@) (value_tokens v)) (json_tokens r)"
proof (induction v arbitrary: r)
  case (JBool b)
  then show ?case using json_tokens_words(1,2) [of r] by simp
next
  case JNull
  then show ?case using json_tokens_words(3) [of r] by simp
next
  case (JNumber n)
  then show ?case by (simp add: json_tokens_number)
next
  case (JString s)
  then show ?case by (simp add: string_tokens)
next
  case (JArray vs)
  have "json_tokens (Join (map (marshal_with write_string) vs) '','' @ CHR '']'' # r) =
      map_option ((@) (separate (map value_tokens vs))) (json_tokens (CHR '']'' # r))"
    using JArray by (intro json_tokens_separated) (auto simp: list_all_iff)
  then show ?case by (simp add: json_tokens_marks option.map_comp o_def)
next
  case (JObject ms)
  have "json_tokens (Join (map (\<lambda>(k, v). write_string k @ '':'' @ marshal_with write_string v) ms) '','' @ CHR ''}'' # r) =
      map_option ((@) (separate (map (\<lambda>(k, v). TString (to_valid k) # TColon # value_tokens v) ms)))
        (json_tokens (CHR ''}'' # r))"
  proof (intro json_tokens_separated)
    fix x q assume x: "x \<in> set ms" "value_end q"
    obtain k v where kv: "x = (k, v)" by fastforce
    have "json_tokens (marshal_with write_string v @ q) = map_option ((@) (value_tokens v)) (json_tokens q)"
      using JObject x kv by (auto simp: list_all_iff)
    then show "json_tokens ((case x of (k, v) \<Rightarrow> write_string k @ '':'' @ marshal_with write_string v) @ q) =
        map_option ((@) (case x of (k, v) \<Rightarrow> TString (to_valid k) # TColon # value_tokens v)) (json_tokens q)"
      by (cases "json_tokens q") (simp_all add: kv string_tokens json_tokens_marks)
  qed simp
  then show ?case by (simp add: json_tokens_marks option.map_comp o_def)
qed

end

section \<open>Values\<close>

lemma depth_array: "v \<in> set vs \<Longrightarrow> json_depth v < json_depth (JArray vs)"
  by (induction vs) (auto simp: less_Suc_eq_le le_max_iff_disj)

lemma depth_object: "(k, v) \<in> set ms \<Longrightarrow> json_depth v < json_depth (JObject ms)"
  by (induction ms) (auto simp: less_Suc_eq_le le_max_iff_disj)

text \<open>The scanner on the tokens of a value that may stand here: it ends up with the value.\<close>

definition scans :: "json \<Rightarrow> bool" where
  "scans v \<longleftrightarrow> (\<forall>st e. length st + json_depth v \<le> max_depth \<longrightarrow> e \<in> {NeedValue, ValueOrClose} \<longrightarrow>
     fold json_step (value_tokens v) (Running st e) = put_value (valid_json v) st)"

lemma scansD:
  "scans v \<Longrightarrow> length st + json_depth v \<le> max_depth \<Longrightarrow> e \<in> {NeedValue, ValueOrClose} \<Longrightarrow>
     fold json_step (value_tokens v) (Running st e) = put_value (valid_json v) st"
  unfolding scans_def by blast

lemma scan_items:
  assumes "vs \<noteq> []" "\<And>v. v \<in> set vs \<Longrightarrow> scans v \<and> Suc (length st) + json_depth v \<le> max_depth"
    and "e \<in> {NeedValue, ValueOrClose}"
  shows "fold json_step (separate (map value_tokens vs)) (Running (ArrayFrame acc # st) e) =
    Running (ArrayFrame (acc @ map valid_json vs) # st) CommaOrClose"
  using assms
proof (induction vs arbitrary: acc e rule: induct_list012)
  case (2 v)
  then show ?case by (simp add: scansD)
next
  case (3 v w vs)
  have rest: "fold json_step (separate (map value_tokens (w # vs))) (Running (ArrayFrame (acc @ [valid_json v]) # st) NeedValue) =
      Running (ArrayFrame ((acc @ [valid_json v]) @ map valid_json (w # vs)) # st) CommaOrClose"
    using 3 by simp
  have "fold json_step (value_tokens v) (Running (ArrayFrame acc # st) e) = put_value (valid_json v) (ArrayFrame acc # st)"
    using 3 by (intro scansD) auto
  then show ?case using rest by simp
qed simp

lemma scan_members:
  assumes "ms \<noteq> []" "\<And>k v. (k, v) \<in> set ms \<Longrightarrow> scans v \<and> Suc (length st) + json_depth v \<le> max_depth"
    and "e \<in> {NeedKey, KeyOrClose}"
  shows "fold json_step (separate (map (\<lambda>(k, v). TString (to_valid k) # TColon # value_tokens v) ms))
      (Running (ObjectFrame acc [] # st) e) =
    Running (ObjectFrame (acc @ map (\<lambda>(k, v). (to_valid k, valid_json v)) ms) [] # st) CommaOrClose"
  using assms
proof (induction ms arbitrary: acc e rule: induct_list012)
  case (2 m)
  then show ?case by (cases m) (auto simp: scansD)
next
  case (3 m n ms)
  obtain k v where m: "m = (k, v)" by fastforce
  have rest: "fold json_step (separate (map (\<lambda>(k, v). TString (to_valid k) # TColon # value_tokens v) (n # ms)))
      (Running (ObjectFrame (acc @ [(to_valid k, valid_json v)]) [] # st) NeedKey) =
      Running (ObjectFrame ((acc @ [(to_valid k, valid_json v)]) @ map (\<lambda>(k, v). (to_valid k, valid_json v)) (n # ms)) [] # st) CommaOrClose"
    by (rule 3(2)) (use 3(4) in auto)
  have "fold json_step (value_tokens v) (Running (ObjectFrame acc (to_valid k) # st) NeedValue) =
      put_value (valid_json v) (ObjectFrame acc (to_valid k) # st)"
    using 3(4) [of k v] m by (intro scansD) simp_all
  then have "fold json_step (TString (to_valid k) # TColon # value_tokens v) (Running (ObjectFrame acc [] # st) e) =
      Running (ObjectFrame (acc @ [(to_valid k, valid_json v)]) [] # st) CommaOrClose"
    using 3(5) by auto
  then show ?case using rest by (simp add: m)
qed simp

lemma scans_value: "scans v"
proof (induction v)
  case (JArray vs)
  show ?case
    unfolding scans_def
  proof (intro allI impI)
    fix st :: "frame list" and e assume len: "length st + json_depth (JArray vs) \<le> max_depth" and e: "e \<in> {NeedValue, ValueOrClose}"
    have open_: "json_step TOpenArray (Running st e) = Running (ArrayFrame [] # st) ValueOrClose"
      using len e by (auto simp: open_frame_def)
    have "scans v \<and> Suc (length st) + json_depth v \<le> max_depth" if "v \<in> set vs" for v
      using JArray that depth_array [OF that] len by simp
    then show "fold json_step (value_tokens (JArray vs)) (Running st e) = put_value (valid_json (JArray vs)) st"
      using scan_items [of vs st ValueOrClose "[]"] by (cases vs) (simp_all add: open_ del: json_depth.simps)
  qed
next
  case (JObject ms)
  show ?case
    unfolding scans_def
  proof (intro allI impI)
    fix st :: "frame list" and e assume len: "length st + json_depth (JObject ms) \<le> max_depth" and e: "e \<in> {NeedValue, ValueOrClose}"
    have open_: "json_step TOpenObject (Running st e) = Running (ObjectFrame [] [] # st) KeyOrClose"
      using len e by (auto simp: open_frame_def)
    have "scans v \<and> Suc (length st) + json_depth v \<le> max_depth" if "(k, v) \<in> set ms" for k v
      using JObject that depth_object [OF that] len by auto
    then show "fold json_step (value_tokens (JObject ms)) (Running st e) = put_value (valid_json (JObject ms)) st"
      using scan_members [of ms st KeyOrClose "[]"] by (cases ms) (simp_all add: open_ del: json_depth.simps)
  qed
qed (auto simp: scans_def)

text \<open>What was written is read back: any value whose numbers are literals and that is not nested
  beyond the decoder's limit.\<close>

context string_writer
begin

lemma written_roundtrip:
  assumes "literal_numbers v" "json_depth v \<le> max_depth"
  shows "json_document (marshal_with write_string v) = Some (valid_json v)"
proof -
  have "json_tokens (marshal_with write_string v) = Some (value_tokens v)"
    using json_tokens_value [OF assms(1), of "[]"] by (simp add: json_tokens_marks)
  moreover have "fold json_step (value_tokens v) (Running [] NeedValue) = Complete (valid_json v)"
    using scansD [OF scans_value, of "[]" v NeedValue] assms(2) by simp
  ultimately show ?thesis by (simp add: json_document_def)
qed

end

text \<open>Two writers: the one of \<open>encoding/json\<close>, and the same with escaped apostrophes.\<close>

lemma quoted_tokens:
  assumes "read_string (t @ CHR 0x22 # r) = Some (to_valid s, r)"
  shows "json_tokens ((CHR 0x22 # t @ [CHR 0x22]) @ r) = map_option ((#) (TString (to_valid s))) (json_tokens r)"
proof -
  have "read_token ((CHR 0x22 # t @ [CHR 0x22]) @ r) = Some (TString (to_valid s), r)"
    using assms by (simp add: read_token_def)
  then show ?thesis by (subst json_tokens.simps) (simp add: Let_def json_space_def)
qed

interpretation go_string: string_writer marshal_string
proof unfold_locales
  show "json_tokens (marshal_string s @ r) = map_option ((#) (TString (to_valid s))) (json_tokens r)" for s r
    using quoted_tokens [OF read_escape_string [of s r]] by (simp add: marshal_string_def)
qed

definition escaped_string :: "string \<Rightarrow> string" where
  "escaped_string s = ReplaceAll (marshal_string s) [CHR 0x27] (CHR 0x5C # ''u0027'')"

interpretation apostrophe: string_writer escaped_string
proof unfold_locales
  show "json_tokens (escaped_string s @ r) = map_option ((#) (TString (to_valid s))) (json_tokens r)" for s r
    using quoted_tokens [OF read_escape_apostrophe [of s r]]
    by (simp add: escaped_string_def marshal_string_def ReplaceAll_char)
qed

theorem marshal_json_roundtrip:
  assumes "literal_numbers v" "json_depth v \<le> max_depth"
  shows "json_document (marshal_json v) = Some (valid_json v)"
  using go_string.written_roundtrip [OF assms] by (simp add: marshal_with_string)

section \<open>Escaping apostrophes afterwards\<close>

text \<open>Apostrophes occur only inside the strings of a document, so replacing them in the text is
  the same as writing the strings without them.\<close>

definition number_chars :: "string \<Rightarrow> bool" where
  "number_chars n \<longleftrightarrow> list_all (\<lambda>c. is_digit c \<or> List.member ''-+.eE'' c) n"

lemma span_digits_chars: "span_digits s = (a, b) \<Longrightarrow> number_chars a"
  by (auto simp: number_chars_def list_all_iff span_digits.simps dest: set_takeWhileD)

lemma number_chars_append: "number_chars a \<Longrightarrow> number_chars b \<Longrightarrow> number_chars (a @ b)"
  by (simp add: number_chars_def)

lemma read_int_chars: "read_int s = (a, b) \<Longrightarrow> number_chars a"
  by (auto simp: read_int_def number_chars_def is_digit_def simp del: span_digits.simps
      split: if_splits dest: span_digits_chars [unfolded number_chars_def])

lemma read_frac_chars:
  assumes "read_frac s = (a, b)"
  shows "number_chars a"
proof (cases "prefix ''.'' s")
  case True
  obtain ds r where "span_digits (drop 1 s) = (ds, r)" by fastforce
  with assms True span_digits_chars [OF this] show ?thesis
    by (auto simp: read_frac_def number_chars_def simp del: span_digits.simps)
qed (use assms in \<open>simp add: read_frac_def number_chars_def\<close>)

lemma read_exp_chars:
  assumes "read_exp s = (a, b)"
  shows "number_chars a"
proof (cases "prefix ''e'' s \<or> prefix ''E'' s")
  case True
  let ?k = "if prefix ''+'' (tl s) \<or> prefix ''-'' (tl s) then 2 else 1 :: nat"
  obtain ds r where ds: "span_digits (drop ?k s) = (ds, r)" by fastforce
  have "number_chars (take ?k s)"
    using True by (cases s; cases "tl s") (auto simp: number_chars_def)
  moreover have "a = take ?k s @ ds" using assms True ds by (simp add: read_exp_def Let_def del: span_digits.simps)
  ultimately show ?thesis using number_chars_append span_digits_chars [OF ds] by simp
qed (use assms in \<open>simp add: read_exp_def number_chars_def\<close>)

lemma number_literal_chars:
  assumes "number_literal n"
  shows "CHR 0x27 \<notin> set n"
proof -
  obtain ip s2 fr s3 ex s4 where
    r: "read_int (if prefix ''-'' n then drop 1 n else n) = (ip, s2)" "read_frac s2 = (fr, s3)" "read_exp s3 = (ex, s4)"
    by (meson surj_pair)
  have "n = (if prefix ''-'' n then ''-'' else []) @ ip @ fr @ ex"
    using assms by (auto simp: number_literal_def read_number_def Let_def r split: if_splits)
  moreover have "number_chars ((if prefix ''-'' n then ''-'' else []) @ ip @ fr @ ex)"
    using read_int_chars [OF r(1)] read_frac_chars [OF r(2)] read_exp_chars [OF r(3)]
    by (simp add: number_chars_def)
  ultimately have "number_chars n" by simp
  then show ?thesis by (auto simp: number_chars_def list_all_iff is_digit_def)
qed

abbreviation escape_apostrophes :: "string \<Rightarrow> string" where
  "escape_apostrophes t \<equiv> ReplaceAll t [CHR 0x27] (CHR 0x5C # ''u0027'')"

lemma escape_apostrophes_append: "escape_apostrophes (a @ b) = escape_apostrophes a @ escape_apostrophes b"
  by (simp add: ReplaceAll_char)

lemma escape_apostrophes_absent: "CHR 0x27 \<notin> set a \<Longrightarrow> escape_apostrophes a = a"
  unfolding ReplaceAll_char by (induction a) auto

lemma escape_apostrophes_join:
  "escape_apostrophes (Join xs '','') = Join (map escape_apostrophes xs) '',''"
  by (induction xs "'',''" rule: Join.induct) (simp_all add: escape_apostrophes_append escape_apostrophes_absent)

lemma escape_apostrophes_json:
  "literal_numbers v \<Longrightarrow> escape_apostrophes (marshal_json v) = marshal_with escaped_string v"
proof (induction v)
  case (JNumber n)
  then show ?case by (simp add: escape_apostrophes_absent number_literal_chars)
next
  case (JArray vs)
  then have "map escape_apostrophes (map marshal_json vs) = map (marshal_with escaped_string) vs"
    by (auto simp: list_all_iff)
  then show ?case
    by (simp only: marshal_json.simps marshal_with.simps escape_apostrophes_append escape_apostrophes_join)
      (simp add: escape_apostrophes_absent)
next
  case (JObject ms)
  have "escape_apostrophes (case m of (k, v) \<Rightarrow> marshal_string k @ '':'' @ marshal_json v) =
      (case m of (k, v) \<Rightarrow> escaped_string k @ '':'' @ marshal_with escaped_string v)" if "m \<in> set ms" for m
  proof -
    obtain k v where m: "m = (k, v)" by fastforce
    with JObject that have "escape_apostrophes (marshal_json v) = marshal_with escaped_string v"
      by (auto simp: list_all_iff)
    then show ?thesis
      using escape_apostrophes_absent [of "'':''"] escape_apostrophes_append [of "'':''" "marshal_json v"]
      by (simp add: m escape_apostrophes_append escaped_string_def)
  qed
  then have "map escape_apostrophes (map (\<lambda>(k, v). marshal_string k @ '':'' @ marshal_json v) ms) =
      map (\<lambda>(k, v). escaped_string k @ '':'' @ marshal_with escaped_string v) ms" by simp
  then show ?case
    by (simp only: marshal_json.simps marshal_with.simps escape_apostrophes_append escape_apostrophes_join)
      (simp add: escape_apostrophes_absent)
qed (simp_all add: escape_apostrophes_absent escaped_string_def)

lemma escaped_string_clean: "CHR 0x27 \<notin> set (escaped_string s)"
  by (auto simp: escaped_string_def ReplaceAll_char split: if_splits)

end
