(* ===== verification/Vault.thy ===== *)
theory Vault
  imports Database Marshal
begin

text \<open>
  \<open>internal/vault/vault.go\<close>: database credentials from HashiCorp Vault or CyberArk.  The HTTP
  client is Go's \<open>net/http\<close>, an operation on the remote state; TLS verification is a value it is
  configured with.  Logging is not modelled.
\<close>

section \<open>HTTP\<close>

record http_request =
  Method :: string
  URL :: string
  Headers :: "(string \<times> string) list"
  RequestBody :: string

text \<open>A response body is what can be read of it, with the error that ends it when it breaks off.\<close>

record http_response =
  StatusCode :: int
  Status :: string
  ResponseBody :: "string \<times> error option"

record ('t, 'd) http =
  request_error :: "string \<Rightarrow> string \<Rightarrow> error option"
  http_do :: "'t \<Rightarrow> http_request \<Rightarrow> ('d, http_response) eff"

text \<open>\<open>io.ReadAll\<close> of an \<open>io.LimitReader\<close>.\<close>

definition read_limited :: "nat \<Rightarrow> string \<times> error option \<Rightarrow> string result" where
  "read_limited limit body =
     (case body of (data, failed) \<Rightarrow>
        if limit \<le> length data then Inr (take limit data)
        else (case failed of None \<Rightarrow> Inr data | Some e \<Rightarrow> Inl e))"

section \<open>Requests\<close>

record Credentials =
  Username :: string
  Password :: string

definition maxAttempts :: int where "maxAttempts = 3"
definition retryDelay :: int where "retryDelay = seconds 5"
definition maxRespSize :: nat where "maxRespSize = 2 ^ 20"

definition readVaultResponse :: "string \<times> error option \<Rightarrow> string result" where
  "readVaultResponse body =
     (case read_limited (maxRespSize + 1) body of
        Inl e \<Rightarrow> Inl (Wrapf ''read Vault response: %w'' [] e)
      | Inr data \<Rightarrow>
          if maxRespSize < length data
          then Inl (Errorf ''vault response exceeds %d bytes'' [Itoa (int maxRespSize)])
          else Inr data)"

definition retryableVaultStatus :: "int \<Rightarrow> bool" where
  "retryableVaultStatus status = List.member [429, 500, 502, 503, 504] status"

definition vaultAttempt ::
  "('t, 'd) http \<Rightarrow> 't \<Rightarrow> http_request \<Rightarrow> ('d, string) eff" where
  "vaultAttempt http tls req d =
     (case request_error http (Method req) (URL req) of
        Some e \<Rightarrow> (Inl (Stop e), d)
      | None \<Rightarrow>
          (case http_do http tls req d of
             (Inl e, d') \<Rightarrow> (Inl e, d')
           | (Inr resp, d') \<Rightarrow>
               (let body = readVaultResponse (ResponseBody resp) in
                if StatusCode resp < 200 \<or> 300 \<le> StatusCode resp then
                  (let statusErr = Errorf ''vault request failed with status %s'' [Status resp] in
                   (Inl (if retryableVaultStatus (StatusCode resp) then statusErr else Stop statusErr), d'))
                else (body, d'))))"

definition vault_request ::
  "'d runtime \<Rightarrow> ('t, 'd) http \<Rightarrow> 't \<Rightarrow> http_request \<Rightarrow> 'd \<Rightarrow> (string result \<times> 'd) option" where
  "vault_request rt http tls req = retry_remote rt maxAttempts retryDelay (vaultAttempt http tls req)"

section \<open>HashiCorp Vault\<close>

definition vaultTLSVerification :: "string \<Rightarrow> bool result" where
  "vaultTLSVerification v =
     (let w = ToLower (TrimSpace v) in
      if List.member ['''', ''1'', ''true'', ''yes'', ''on''] w then Inr True
      else if List.member [''0'', ''false'', ''no'', ''off''] w then Inr False
      else Inl (Errorf ''invalid ZBX_VAULT_SSL_VERIFY value %q'' [v]))"

definition vaultTLSConfig ::
  "('p, 'c, 'k) x509 \<Rightarrow> filesystem \<Rightarrow> environment \<Rightarrow> bool \<Rightarrow> 'k list \<Rightarrow> ('p, 'c, 'k) tls_config result" where
  "vaultTLSConfig x fs env insecure certs =
     (let config = emptyTLSConfig\<lparr>InsecureSkipVerify := insecure, Certificates := certs\<rparr>;
          location = env_get env ''ZBX_SSLCALOCATION'' in
      if insecure \<or> location = [] then Inr config
      else bind_res (LoadCAPool x fs location) (\<lambda>roots. Inr (config\<lparr>RootCAs := Some roots\<rparr>)))"

definition hashicorpTLSConfig ::
  "('p, 'c, 'k) x509 \<Rightarrow> filesystem \<Rightarrow> environment \<Rightarrow> ('p, 'c, 'k) tls_config result" where
  "hashicorpTLSConfig x fs env =
     bind_res (vaultTLSVerification (env_get env ''ZBX_VAULT_SSL_VERIFY'')) (\<lambda>verify.
       vaultTLSConfig x fs env (\<not> verify) [])"

definition hashicorpURL :: "string \<Rightarrow> string \<Rightarrow> string \<Rightarrow> string" where
  "hashicorpURL baseURL configuredPrefix dbPath =
     (let pre = Trim configuredPrefix [CHR ''/''] in
      if pre \<noteq> [] then baseURL @ ''/'' @ pre @ ''/'' @ dbPath
      else
        (case Cut dbPath (CHR ''/'') of
           (mount, secretPath, found) \<Rightarrow>
             baseURL @ ''/'' @ ''v1/'' @ mount @ ''/data'' @ ''/'' @ (if found then secretPath else dbPath)))"

text \<open>The structs that the responses are decoded into.\<close>

record approle_response =
  ar_errors :: "string list"
  client_token :: string

definition approle_fields :: "(string \<times> (json \<Rightarrow> approle_response \<Rightarrow> approle_response result)) list" where
  "approle_fields =
     [(''errors'', decode_strings (\<lambda>v r. r\<lparr>ar_errors := v\<rparr>)),
      (''auth'', decode_struct [(''client_token'', decode_string (\<lambda>v r. r\<lparr>client_token := v\<rparr>))])]"

record hashicorp_response =
  hc_errors :: "string list"
  hc_username :: string
  hc_password :: "string option"

definition hashicorp_fields :: "(string \<times> (json \<Rightarrow> hashicorp_response \<Rightarrow> hashicorp_response result)) list" where
  "hashicorp_fields =
     [(''errors'', decode_strings (\<lambda>v r. r\<lparr>hc_errors := v\<rparr>)),
      (''data'', decode_struct [(''data'', decode_struct
         [(''username'', decode_string (\<lambda>v r. r\<lparr>hc_username := v\<rparr>)),
          (''password'', decode_string_pointer (\<lambda>v r. r\<lparr>hc_password := v\<rparr>))])])]"

definition decodeHashiCorp :: "string \<Rightarrow> Credentials result" where
  "decodeHashiCorp data =
     (case unmarshal_into hashicorp_fields data \<lparr>hc_errors = [], hc_username = [], hc_password = None\<rparr> of
        Inl e \<Rightarrow> Inl (Wrapf ''decode HashiCorp Vault response: %w'' [] e)
      | Inr resp \<Rightarrow>
          if hc_errors resp \<noteq> []
          then Inl (Errorf ''error getting secrets from vault: %s'' [Join (hc_errors resp) '', ''])
          else if hc_username resp = []
          then Inl (Errorf ''vault response from HashiCorp does not contain a database username'' [])
          else
            (case hc_password resp of
               None \<Rightarrow> Inl (Errorf ''vault response from HashiCorp does not contain a database password'' [])
             | Some p \<Rightarrow> Inr \<lparr>Username = hc_username resp, Password = p\<rparr>))"

definition approlePayload :: "string \<Rightarrow> string \<Rightarrow> string" where
  "approlePayload roleID secretID =
     ''{'' @ marshal_string ''role_id'' @ '':'' @ marshal_string roleID @ '','' @
     marshal_string ''secret_id'' @ '':'' @ marshal_string secretID @ ''}''"

definition decodeAppRole :: "string \<Rightarrow> string result" where
  "decodeAppRole data =
     (case unmarshal_into approle_fields data \<lparr>ar_errors = [], client_token = []\<rparr> of
        Inl e \<Rightarrow> Inl (Wrapf ''decode HashiCorp Vault AppRole response: %w'' [] e)
      | Inr resp \<Rightarrow>
          if ar_errors resp \<noteq> []
          then Inl (Errorf ''HashiCorp Vault AppRole login failed: %s'' [Join (ar_errors resp) '', ''])
          else if client_token resp = []
          then Inl (Errorf ''HashiCorp Vault AppRole response does not contain a client token'' [])
          else Inr (client_token resp))"

definition loginHashiCorpAppRole ::
  "'d runtime \<Rightarrow> ('t, 'd) http \<Rightarrow> 't \<Rightarrow> string \<Rightarrow> string \<Rightarrow> string \<Rightarrow> 'd \<Rightarrow> (string result \<times> 'd) option" where
  "loginHashiCorpAppRole rt http tls baseURL roleID secretID d =
     (case vault_request rt http tls
             \<lparr>Method = ''POST'', URL = baseURL @ ''/v1/auth/approle/login'',
              Headers = [(''Content-Type'', ''application/json'')], RequestBody = approlePayload roleID secretID\<rparr> d of
        None \<Rightarrow> None
      | Some (Inl e, d') \<Rightarrow> Some (Inl (Wrapf ''login to HashiCorp Vault with AppRole: %w'' [] e), d')
      | Some (Inr data, d') \<Rightarrow> Some (decodeAppRole data, d'))"

definition resolveHashiCorpToken ::
  "'d runtime \<Rightarrow> ('t, 'd) http \<Rightarrow> 't \<Rightarrow> environment \<Rightarrow> string \<Rightarrow> 'd \<Rightarrow> (string result \<times> 'd) option" where
  "resolveHashiCorpToken rt http tls env baseURL d =
     (let token = env_get env ''VAULT_TOKEN'';
          roleID = env_get env ''ZBX_VAULTAPPROLEID'';
          secretID = env_get env ''ZBX_VAULTAPPSECRETID'' in
      if token \<noteq> [] then Some (Inr token, d)
      else if roleID = [] then
        Some (Inl (if secretID \<noteq> []
                   then Errorf ''ZBX_VAULTAPPSECRETID is set but ZBX_VAULTAPPROLEID is not set'' []
                   else Errorf ''either VAULT_TOKEN or ZBX_VAULTAPPROLEID must be set when ZBX_VAULT=HashiCorp'' []), d)
      else if secretID = []
      then Some (Inl (Errorf ''ZBX_VAULTAPPROLEID is set but ZBX_VAULTAPPSECRETID is not set'' []), d)
      else loginHashiCorpAppRole rt http tls baseURL roleID secretID d)"

definition fetchHashiCorp ::
  "('p, 'c, 'k) x509 \<Rightarrow> 'd runtime \<Rightarrow> (('p, 'c, 'k) tls_config, 'd) http \<Rightarrow> filesystem \<Rightarrow> environment \<Rightarrow>
   string \<Rightarrow> string \<Rightarrow> 'd \<Rightarrow> (Credentials result \<times> 'd) option" where
  "fetchHashiCorp x rt http fs env baseURL dbPath d =
     (let reqURL = hashicorpURL baseURL (env_get env ''ZBX_VAULTPREFIX'') dbPath in
      case hashicorpTLSConfig x fs env of
        Inl e \<Rightarrow> Some (Inl e, d)
      | Inr tls \<Rightarrow>
          (case resolveHashiCorpToken rt http tls env baseURL d of
             None \<Rightarrow> None
           | Some (Inl e, d1) \<Rightarrow> Some (Inl e, d1)
           | Some (Inr token, d1) \<Rightarrow>
               (case vault_request rt http tls
                       \<lparr>Method = ''GET'', URL = reqURL, Headers = [(''X-Vault-Token'', token)], RequestBody = []\<rparr> d1 of
                  None \<Rightarrow> None
                | Some (Inl e, d2) \<Rightarrow> Some (Inl e, d2)
                | Some (Inr data, d2) \<Rightarrow> Some (decodeHashiCorp data, d2))))"

section \<open>CyberArk\<close>

definition cyberArkURL :: "string \<Rightarrow> string \<Rightarrow> string \<Rightarrow> string" where
  "cyberArkURL baseURL pre dbPath =
     baseURL @
     (if pre = [] then ''/AIMWebService/api/Accounts?'' else if HasPrefix pre ''/'' then pre else ''/'' @ pre) @
     dbPath"

record cyberark_response =
  ca_error :: string
  ca_username :: string
  ca_password :: "string option"

definition cyberark_fields :: "(string \<times> (json \<Rightarrow> cyberark_response \<Rightarrow> cyberark_response result)) list" where
  "cyberark_fields =
     [(''ErrorCode'', decode_string (\<lambda>v r. r\<lparr>ca_error := v\<rparr>)),
      (''UserName'', decode_string (\<lambda>v r. r\<lparr>ca_username := v\<rparr>)),
      (''Content'', decode_string_pointer (\<lambda>v r. r\<lparr>ca_password := v\<rparr>))]"

definition decodeCyberArk :: "string \<Rightarrow> Credentials result" where
  "decodeCyberArk data =
     (case unmarshal_into cyberark_fields data \<lparr>ca_error = [], ca_username = [], ca_password = None\<rparr> of
        Inl e \<Rightarrow> Inl (Wrapf ''decode CyberArk response: %w'' [] e)
      | Inr resp \<Rightarrow>
          if ca_error resp \<noteq> []
          then Inl (Errorf ''error getting secrets from vault: %s'' [ca_error resp])
          else if ca_username resp = []
          then Inl (Errorf ''vault response from CyberArk does not contain a database username'' [])
          else
            (case ca_password resp of
               None \<Rightarrow> Inl (Errorf ''vault response from CyberArk does not contain a database password'' [])
             | Some p \<Rightarrow> Inr \<lparr>Username = ca_username resp, Password = p\<rparr>))"

definition cyberArkKeyPair ::
  "('p, 'c, 'k) x509 \<Rightarrow> filesystem \<Rightarrow> environment \<Rightarrow> 'k result" where
  "cyberArkKeyPair x fs env =
     (let certFile = env_get env ''ZBX_VAULTTLSCERTFILE''; keyFile = env_get env ''ZBX_VAULTTLSKEYFILE'' in
      if certFile = [] then Inl (Errorf ''if CyberArk is used, a Vault certificate file must be set'' [])
      else
        bind_res (wrap_res ''read CyberArk certificate: %w'' [] (os_ReadFile fs certFile)) (\<lambda>certPEM.
        bind_res (if keyFile \<noteq> [] then wrap_res ''read CyberArk private key: %w'' [] (os_ReadFile fs keyFile)
                  else Inr certPEM) (\<lambda>keyPEM.
        wrap_res ''load CyberArk client certificate: %w'' [] (X509KeyPair x certPEM keyPEM))))"

definition fetchCyberArk ::
  "('p, 'c, 'k) x509 \<Rightarrow> 'd runtime \<Rightarrow> (('p, 'c, 'k) tls_config, 'd) http \<Rightarrow> filesystem \<Rightarrow> environment \<Rightarrow>
   string \<Rightarrow> string \<Rightarrow> 'd \<Rightarrow> (Credentials result \<times> 'd) option" where
  "fetchCyberArk x rt http fs env baseURL dbPath d =
     (case cyberArkKeyPair x fs env of
        Inl e \<Rightarrow> Some (Inl e, d)
      | Inr cert \<Rightarrow>
          (case vaultTLSConfig x fs env False [cert] of
             Inl e \<Rightarrow> Some (Inl e, d)
           | Inr tls \<Rightarrow>
               (case vault_request rt http tls
                       \<lparr>Method = ''GET'', URL = cyberArkURL baseURL (env_get env ''ZBX_VAULTPREFIX'') dbPath,
                        Headers = [(''Content-Type'', ''application/json'')], RequestBody = []\<rparr> d of
                  None \<Rightarrow> None
                | Some (Inl e, d2) \<Rightarrow> Some (Inl e, d2)
                | Some (Inr data, d2) \<Rightarrow> Some (decodeCyberArk data, d2))))"

section \<open>Credentials\<close>

definition Fetch ::
  "('p, 'c, 'k) x509 \<Rightarrow> 'd runtime \<Rightarrow> (('p, 'c, 'k) tls_config, 'd) http \<Rightarrow> filesystem \<Rightarrow> environment \<Rightarrow>
   'd \<Rightarrow> (Credentials result \<times> 'd) option" where
  "Fetch x rt http fs env d =
     (let vaultURL = TrimSuffix (env_get env ''ZBX_VAULTURL'') ''/'';
          dbPath = Trim (env_get env ''ZBX_VAULTDBPATH'') [CHR ''/''];
          kind = env_get env ''ZBX_VAULT'' in
      if vaultURL = [] \<or> dbPath = []
      then Some (Inl (Errorf ''if ZBX_VAULT is used, ZBX_VAULTURL and ZBX_VAULTDBPATH must be set'' []), d)
      else if kind = ''HashiCorp'' then fetchHashiCorp x rt http fs env vaultURL dbPath d
      else if kind = ''CyberArk'' then fetchCyberArk x rt http fs env vaultURL dbPath d
      else Some (Inl (Errorf ''ZBX_VAULT has wrong value: HashiCorp or CyberArk are supported'' []), d))"

definition ResolveDBCredentials ::
  "('p, 'c, 'k) x509 \<Rightarrow> 'd runtime \<Rightarrow> (('p, 'c, 'k) tls_config, 'd) http \<Rightarrow> filesystem \<Rightarrow> environment \<Rightarrow>
   'd \<Rightarrow> (Credentials option result \<times> 'd) option" where
  "ResolveDBCredentials x rt http fs env d =
     (if env_get env ''ZBX_VAULTDBPATH'' = [] then Some (Inr None, d)
      else
        (case Fetch x rt http fs env d of
           None \<Rightarrow> None
         | Some (Inl e, d') \<Rightarrow> Some (Inl e, d')
         | Some (Inr creds, d') \<Rightarrow> Some (Inr (Some creds), d')))"

text \<open>What the database packages take from outside: the certificate library, the clock, the HTTP
  client and the decompressor.\<close>

record ('p, 'c, 'k, 'd) platform =
  pf_x509 :: "('p, 'c, 'k) x509"
  pf_clock :: "'d runtime"
  pf_http :: "(('p, 'c, 'k) tls_config, 'd) http"
  pf_gunzip :: "string \<Rightarrow> string result"

section \<open>Payloads and responses\<close>

lemma to_valid_names: "to_valid ''role_id'' = ''role_id''" "to_valid ''secret_id'' = ''secret_id''"
  by code_simp+

text \<open>The login request says what was configured: whatever bytes the role and secret ids have,
  the payload is a JSON object of exactly the two members with those ids as strings (malformed
  UTF-8 replaced), so that no id can change the request.\<close>

theorem approlePayload_roundtrip:
  "json_document (approlePayload roleID secretID) =
     Some (JObject [(''role_id'', JString (to_valid roleID)), (''secret_id'', JString (to_valid secretID))])"
proof -
  have "json_tokens (approlePayload roleID secretID) =
      Some [TOpenObject, TString ''role_id'', TColon, TString (to_valid roleID), TComma,
            TString ''secret_id'', TColon, TString (to_valid secretID), TCloseObject]"
    by (simp add: approlePayload_def go_string.string_tokens json_tokens_marks to_valid_names)
  then show ?thesis
    by (simp add: json_document_def open_frame_def max_depth_def)
qed

text \<open>A Vault response is bounded: what is accepted is the whole body and at most one
  mebibyte; a longer body is an error however long it is, and so is one that breaks off.\<close>

theorem readVaultResponse_bounded:
  "readVaultResponse (data, failed) =
     (if 1048576 < length data then Inl (Errorf ''vault response exceeds %d bytes'' [''1048576''])
      else case failed of None \<Rightarrow> Inr data | Some e \<Rightarrow> Inl (Wrapf ''read Vault response: %w'' [] e))"
proof -
  have "Itoa (int maxRespSize) = ''1048576''" by code_simp
  then show ?thesis
    by (auto simp: readVaultResponse_def read_limited_def maxRespSize_def split: option.split)
qed

section \<open>Unverified connections\<close>

lemma vaultTLSConfig_insecure:
  "vaultTLSConfig x fs env insecure certs = Inr t \<Longrightarrow> InsecureSkipVerify t = insecure"
  by (auto simp: vaultTLSConfig_def Let_def emptyTLSConfig_def split: if_splits)

lemma vault_request_cong:
  assumes "http_do h t = http_do h' t" "request_error h = request_error h'"
  shows "vault_request rt h t req = vault_request rt h' t req"
proof -
  have "vaultAttempt h t req = vaultAttempt h' t req"
    unfolding vaultAttempt_def assms by (rule refl)
  then show ?thesis by (simp add: vault_request_def)
qed

text \<open>C11: certificate verification of Vault is only ever given up for HashiCorp Vault with
  \<open>ZBX_VAULT_SSL_VERIFY\<close> set to a value that says so.  In every other case the run is the same for
  two networks that agree on verified connections, whatever they do on unverified ones.\<close>

theorem Fetch_verifies:
  assumes "env_get env ''ZBX_VAULT'' = ''HashiCorp'' \<Longrightarrow>
      vaultTLSVerification (env_get env ''ZBX_VAULT_SSL_VERIFY'') \<noteq> Inr False"
    and "\<And>t. \<not> InsecureSkipVerify t \<Longrightarrow> http_do h t = http_do h' t"
    and "request_error h = request_error h'"
  shows "Fetch x rt h fs env d = Fetch x rt h' fs env d"
proof -
  have req: "vault_request rt h t r = vault_request rt h' t r" if "\<not> InsecureSkipVerify t" for t r
    using vault_request_cong [OF assms(2) [OF that] assms(3)] by blast
  have "fetchCyberArk x rt h fs env b p d = fetchCyberArk x rt h' fs env b p d" for b p
    by (auto simp: fetchCyberArk_def req dest: vaultTLSConfig_insecure split: sum.split)
  moreover have "fetchHashiCorp x rt h fs env b p d = fetchHashiCorp x rt h' fs env b p d"
    if "env_get env ''ZBX_VAULT'' = ''HashiCorp''" for b p
  proof (cases "hashicorpTLSConfig x fs env")
    case (Inr t)
    then have "\<not> InsecureSkipVerify t"
      using assms(1) [OF that]
      by (auto simp: hashicorpTLSConfig_def dest: vaultTLSConfig_insecure)
    note req = req [OF this]
    have "resolveHashiCorpToken rt h t = resolveHashiCorpToken rt h' t"
      by (intro ext) (simp add: resolveHashiCorpToken_def loginHashiCorpAppRole_def req Let_def)
    then show ?thesis
      unfolding fetchHashiCorp_def Inr sum.case req Let_def by (rule arg_cong)
  qed (simp add: fetchHashiCorp_def)
  ultimately show ?thesis by (simp add: Fetch_def Let_def)
qed

text \<open>A network where Vault answers, and one where an attacker answers unverified connections.\<close>

definition sample_x509 :: "(unit, unit, unit) x509" where
  "sample_x509 = \<lparr>SystemCertPool = Inr (), NewCertPool = (), AppendCertsFromPEM = (\<lambda>_ _. ((), True)),
     X509KeyPair = (\<lambda>_ _. Inr ()), VerifyCertificate = (\<lambda>_ _ _. None),
     VerifyHostname = (\<lambda>_ _. None)\<rparr>"

definition quiet_runtime :: "'d runtime" where
  "quiet_runtime = \<lparr>ctx_error = (\<lambda>_. None), sleep = (\<lambda>_ d. (Inr (), d))\<rparr>"

definition sample_vault :: "((unit, unit, unit) tls_config, nat) http" where
  "sample_vault = \<lparr>request_error = (\<lambda>_ _. None),
     http_do = (\<lambda>_ _ n. (Inr \<lparr>StatusCode = 503, Status = ''503 Service Unavailable'', ResponseBody = ([], None)\<rparr>, Suc n))\<rparr>"

definition sample_attacker :: "((unit, unit, unit) tls_config, nat) http" where
  "sample_attacker = sample_vault\<lparr>http_do := (\<lambda>t req n.
     if InsecureSkipVerify t then (Inl (DialError ''attacker''), 0) else http_do sample_vault t req n)\<rparr>"

lemma Fetch_verifies_witness:
  "Fetch sample_x509 quiet_runtime sample_vault (quiet_fs [])
     [(''ZBX_VAULT'', ''HashiCorp''), (''ZBX_VAULTURL'', ''https://vault''), (''VAULT_TOKEN'', ''t''),
      (''ZBX_VAULTDBPATH'', ''secret/zabbix'')] 0 =
   Fetch sample_x509 quiet_runtime sample_attacker (quiet_fs [])
     [(''ZBX_VAULT'', ''HashiCorp''), (''ZBX_VAULTURL'', ''https://vault''), (''VAULT_TOKEN'', ''t''),
      (''ZBX_VAULTDBPATH'', ''secret/zabbix'')] 0"
proof (rule Fetch_verifies)
  show "vaultTLSVerification (env_get [(''ZBX_VAULT'', ''HashiCorp''), (''ZBX_VAULTURL'', ''https://vault''),
      (''VAULT_TOKEN'', ''t''), (''ZBX_VAULTDBPATH'', ''secret/zabbix'')] ''ZBX_VAULT_SSL_VERIFY'') \<noteq> Inr False"
    by code_simp
  show "http_do sample_vault t = http_do sample_attacker t" if "\<not> InsecureSkipVerify t" for t
    using that by (simp add: sample_attacker_def fun_eq_iff)
  show "request_error sample_vault = request_error sample_attacker" by (simp add: sample_attacker_def)
qed

text \<open>Asking Vault is a bounded effort: a request always ends, and it reaches the network at most
  three times, whatever Vault answers (\<open>count\<close> counts the requests on the network).\<close>

theorem vault_request_bounded:
  fixes count :: "'d \<Rightarrow> nat"
  assumes "\<And>t r d. count (snd (http_do http t r d)) \<le> count d + 1"
    and "\<And>i d. count (snd (sleep rt i d)) \<le> count d"
  shows "\<exists>r d'. vault_request rt http tls req d = Some (r, d') \<and> count d' \<le> count d + 3"
proof -
  have att: "count d' \<le> count d + 1" if "vaultAttempt http tls req d = (q, d')" for q d d'
    using that assms(1) [of tls req d]
    by (auto simp: vaultAttempt_def Let_def split: option.splits prod.splits sum.splits if_splits)
  let ?att = "\<lambda>(d, v). case vaultAttempt http tls req d of
      (Inl e, d') \<Rightarrow> (Inl e, (d', v)) | (Inr x, d') \<Rightarrow> (Inr (), (d', Some x))"
  let ?timer = "\<lambda>i (d, v :: string option). case sleep rt i d of (r, d') \<Rightarrow> (r, (d', v))"
  let ?c = "\<lambda>(d, v :: string option). count d"
  have "\<exists>r s'. retryLoop \<lparr>Attempts = maxAttempts, Interval = retryDelay, OnRetry = None, WaitFor = None\<rparr>
      (bootstrap_Wait (\<lambda>(d, _). ctx_error rt d) ?timer) (\<lambda>(d, _). ctx_error rt d) ?att 0 None (d, None) = Some (r, s') \<and>
      ?c s' \<le> ?c (d, None) + 3"
  proof (rule retryLoop_bounded)
    show "?c t' \<le> ?c t + 1" if "?att t = (r, t')" for t r t'
      using that att by (auto split: prod.splits sum.splits)
    show "?c t' \<le> ?c t"
      if "bootstrap_Wait (\<lambda>(d, _). ctx_error rt d) ?timer
            (Interval \<lparr>Attempts = maxAttempts, Interval = retryDelay, OnRetry = None, WaitFor = None\<rparr>) t = (r, t')" for t r t'
    proof -
      obtain d0 v0 where t: "t = (d0, v0)" by fastforce
      have "count (snd (sleep rt retryDelay d0)) \<le> count d0" by (rule assms(2))
      with that show ?thesis
        by (auto simp: t bootstrap_Wait_def retryDelay_def seconds_def split: prod.splits)
    qed
  qed (simp_all add: maxAttempts_def)
  then obtain r d' v where run: "retryLoop \<lparr>Attempts = maxAttempts, Interval = retryDelay, OnRetry = None, WaitFor = None\<rparr>
      (bootstrap_Wait (\<lambda>(d, _). ctx_error rt d) ?timer) (\<lambda>(d, _). ctx_error rt d) ?att 0 None (d, None) = Some (r, (d', v))"
    "count d' \<le> count d + 3" by auto
  show ?thesis
    unfolding vault_request_def retry_remote_def Retry_def
    using run by (cases r; cases v) auto
qed

lemma vault_request_bounded_witness:
  "\<exists>r n. vault_request quiet_runtime sample_vault emptyTLSConfig
     \<lparr>Method = ''GET'', URL = ''https://vault/v1/secret/data/zabbix'', Headers = [], RequestBody = []\<rparr> (0 :: nat) = Some (r, n) \<and> n \<le> 3"
proof -
  have 1: "snd (http_do sample_vault t r d) \<le> d + 1" for t r d by (simp add: sample_vault_def)
  have 2: "snd (sleep quiet_runtime i d) \<le> d" for i and d :: nat by (simp add: quiet_runtime_def)
  have "\<exists>r n. vault_request quiet_runtime sample_vault tls req 0 = Some (r, n) \<and> n \<le> 0 + 3" for tls req
    by (rule vault_request_bounded [where count = "\<lambda>n. n", OF 1 2])
  then show ?thesis by simp
qed

end
