(* ===== verification/Quoting.thy ===== *)
theory Quoting
  imports Strings
begin

text \<open>
  Quoted text inside a generated statement: what the identifiers of MySQL and PostgreSQL and the
  options of the storage providers have in common.  The contract is that a reader of the language
  gets back exactly the text that was quoted, wherever the quoted text stands, so that no text can
  end its own quotation; the interpretations are with the theories of the code that quotes.
\<close>

section \<open>The contract\<close>

locale quoting =
  fixes encode :: "string \<Rightarrow> string"
    and read :: "string \<Rightarrow> (string \<times> string) option"
    and follows :: "string \<Rightarrow> bool"
  assumes read_encode: "follows rest \<Longrightarrow> read (encode s @ rest) = Some (s, rest)"
    and follows_Nil: "follows []"
begin

text \<open>Two statements with the same text quote the same thing and go on alike.\<close>

lemma encode_append_inject:
  assumes "follows r" "follows r'" "encode s @ r = encode t @ r'"
  shows "s = t \<and> r = r'"
proof -
  have "Some (s, r) = read (encode s @ r)" by (rule read_encode [OF assms(1), symmetric])
  also have "\<dots> = read (encode t @ r')" by (rule arg_cong [OF assms(3)])
  also have "\<dots> = Some (t, r')" by (rule read_encode [OF assms(2)])
  finally show ?thesis by simp
qed

lemma encode_inject: "encode s = encode t \<Longrightarrow> s = t"
  by (rule encode_append_inject [OF follows_Nil follows_Nil, THEN conjunct1]) (rule arg_cong)

lemma statement_inject:
  assumes "follows r" "follows r'" "pre @ encode s @ r = pre @ encode t @ r'"
  shows "s = t \<and> r = r'"
  by (rule encode_append_inject [OF assms(1,2) same_append_eq [THEN iffD1, OF assms(3)]])

text \<open>A reader that has reached the quoted text leaves exactly what follows it.\<close>

lemma read_within:
  assumes "follows r"
  shows "map_option snd (read (encode s @ r)) = Some r"
  by (simp add: read_encode [OF assms])

end

section \<open>Doubled quotation marks\<close>

definition double_quoted :: "char \<Rightarrow> string \<Rightarrow> string" where
  "double_quoted q s = [q] @ ReplaceAll s [q] [q, q] @ [q]"

text \<open>The reader of such a text, after its opening mark: a doubled mark is the mark itself, a single
  one ends the text.\<close>

fun read_doubled :: "char \<Rightarrow> string \<Rightarrow> (string \<times> string) option" where
  "read_doubled q [] = None"
| "read_doubled q [c] = (if c = q then Some ([], []) else None)"
| "read_doubled q (c # d # cs) =
     (if c \<noteq> q then map_option (\<lambda>(s, r). (c # s, r)) (read_doubled q (d # cs))
      else if d = q then map_option (\<lambda>(s, r). (q # s, r)) (read_doubled q cs)
      else Some ([], d # cs))"

definition read_quoted :: "char \<Rightarrow> string \<Rightarrow> (string \<times> string) option" where
  "read_quoted q s = (case s of [] \<Rightarrow> None | c # cs \<Rightarrow> if c = q then read_doubled q cs else None)"

definition other_mark :: "char \<Rightarrow> string \<Rightarrow> bool" where
  "other_mark q rest \<longleftrightarrow> \<not> HasPrefix rest [q]"

lemma read_doubled_cons:
  "c \<noteq> q \<Longrightarrow> read_doubled q (c # cs) = map_option (\<lambda>(s, r). (c # s, r)) (read_doubled q cs)"
  by (cases cs) auto

lemma read_doubled_quoted:
  assumes "other_mark q rest"
  shows "read_doubled q (ReplaceAll s [q] [q, q] @ q # rest) = Some (s, rest)"
proof (induction s)
  case Nil
  show ?case using assms by (cases rest) (auto simp: other_mark_def HasPrefix_def)
next
  case (Cons c s)
  then show ?case by (simp add: ReplaceAll_char read_doubled_cons)
qed

lemma quoting_doubled: "quoting (double_quoted q) (read_quoted q) (other_mark q)"
  by unfold_locales
    (simp_all add: double_quoted_def read_quoted_def read_doubled_quoted, simp add: other_mark_def HasPrefix_def)

section \<open>Escaped quotation marks\<close>

text \<open>The other way to quote: a backslash in front of the mark and of the backslash itself.\<close>

definition escape_quoted :: "char \<Rightarrow> string \<Rightarrow> string" where
  "escape_quoted q s = concat (map (\<lambda>c. if c = CHR 0x5C \<or> c = q then [CHR 0x5C, c] else [c]) s)"

definition escaped :: "char \<Rightarrow> string \<Rightarrow> string" where
  "escaped q s = [q] @ escape_quoted q s @ [q]"

fun read_escaped_body :: "char \<Rightarrow> string \<Rightarrow> (string \<times> string) option" where
  "read_escaped_body q [] = None"
| "read_escaped_body q (c # cs) =
     (if c = q then Some ([], cs)
      else if c = CHR 0x5C then
        (case cs of [] \<Rightarrow> None | d # ds \<Rightarrow> map_option (\<lambda>(s, r). (d # s, r)) (read_escaped_body q ds))
      else map_option (\<lambda>(s, r). (c # s, r)) (read_escaped_body q cs))"

definition read_escaped :: "char \<Rightarrow> string \<Rightarrow> (string \<times> string) option" where
  "read_escaped q s = (case s of [] \<Rightarrow> None | c # cs \<Rightarrow> if c = q then read_escaped_body q cs else None)"

lemma read_escaped_body_quoted:
  "q \<noteq> CHR 0x5C \<Longrightarrow> read_escaped_body q (escape_quoted q s @ q # rest) = Some (s, rest)"
  by (induction s) (simp_all add: escape_quoted_def)

lemma quoting_escaped: "q \<noteq> CHR 0x5C \<Longrightarrow> quoting (escaped q) (read_escaped q) (\<lambda>_. True)"
  by unfold_locales (simp_all add: escaped_def read_escaped_def read_escaped_body_quoted)

end
