(* ===== verification/Backend.thy ===== *)
theory Backend
  imports Vault
begin

text \<open>
  What the configuration of the two database backends has in common: the connection target comes
  from the environment, the credentials from Vault when it is used, and the result is exported to the
  environment of the service.  The contract of a backend is that its export does not look at what
  Vault answered; the lemma is that then the whole configuration keeps that to itself.
\<close>

definition configure_db ::
  "('p, 'c, 'k, 'd) platform \<Rightarrow> (environment \<Rightarrow> DBTLSConfig result) \<Rightarrow> (DBTLSConfig \<Rightarrow> (environment, 'db) eff) \<Rightarrow>
   (environment \<Rightarrow> string \<Rightarrow> Credentials option \<Rightarrow> 'db \<Rightarrow> 'db result) \<Rightarrow> string \<Rightarrow> ('d machine, 'db) run" where
  "configure_db pf resolveTLS target credentials defaultDBName s =
     (case resolveTLS (environ s) of
        Inl e \<Rightarrow> Some (Inl e, s)
      | Inr tls \<Rightarrow>
          bind_run (once (on_environ (target tls))) (\<lambda>db.
          bind_run (\<lambda>s. on_remote_run
              (ResolveDBCredentials (pf_x509 pf) (pf_clock pf) (pf_http pf) (files s) (environ s)) s) (\<lambda>creds.
          once (\<lambda>s. (credentials (environ s) defaultDBName creds db, s)))) s)"

lemma ResolveDBCredentials_used:
  assumes "ResolveDBCredentials x rt h fs env d = Some (Inr creds, d')" "env_get env ''ZBX_VAULTDBPATH'' \<noteq> []"
  shows "\<exists>c. creds = Some c"
  using assms by (auto simp: ResolveDBCredentials_def split: option.splits prod.splits sum.splits)

locale vault_backend =
  fixes target :: "DBTLSConfig \<Rightarrow> (environment, 'db) eff"
    and credentials :: "environment \<Rightarrow> string \<Rightarrow> Credentials option \<Rightarrow> 'db \<Rightarrow> 'db result"
    and export :: "'db \<Rightarrow> environment \<Rightarrow> environment"
  assumes target_keeps: "target tls env = (r, env') \<Longrightarrow>
      env_get env' ''ZBX_VAULTDBPATH'' = env_get env ''ZBX_VAULTDBPATH''"
    and export_blind: "credentials env name (Some c1) db = Inr db1 \<Longrightarrow>
      credentials env name (Some c2) db = Inr db2 \<Longrightarrow> export db1 env = export db2 env"
begin

lemma configured:
  assumes "configure_db pf resolveTLS target credentials name s = Some (Inr db', s')"
    and "env_get (environ s) ''ZBX_VAULTDBPATH'' \<noteq> []"
  shows "\<exists>tls db c. resolveTLS (environ s) = Inr tls \<and> target tls (environ s) = (Inr db, environ s') \<and>
    credentials (environ s') name (Some c) db = Inr db'"
proof -
  from assms(1) obtain tls where tls: "resolveTLS (environ s) = Inr tls"
    by (auto simp: configure_db_def split: sum.splits)
  obtain r env where t: "target tls (environ s) = (r, env)" by fastforce
  from assms(1) tls t obtain db creds d where db: "r = Inr db" and
    c: "ResolveDBCredentials (pf_x509 pf) (pf_clock pf) (pf_http pf) (files s) env (remote s) = Some (Inr creds, d)"
    and q: "credentials env name creds db = Inr db'" and s': "environ s' = env"
    by (auto simp: configure_db_def bind_run_Some on_environ_def on_remote_run_def split: sum.splits)
  have "env_get env ''ZBX_VAULTDBPATH'' \<noteq> []" using target_keeps [OF t] assms(2) by simp
  then show ?thesis using ResolveDBCredentials_used [OF c] q tls t s' db by auto
qed

lemma kept:
  assumes "configure_db pf resolveTLS target credentials name s = Some (Inr db1, s1)"
    and "configure_db pf' resolveTLS target credentials name s = Some (Inr db2, s2)"
    and "env_get (environ s) ''ZBX_VAULTDBPATH'' \<noteq> []"
  shows "export db1 (environ s1) = export db2 (environ s2)"
proof -
  from configured [OF assms(1,3)] configured [OF assms(2,3)]
  obtain db c1 c2 where same: "environ s2 = environ s1"
    and c: "credentials (environ s1) name (Some c1) db = Inr db1" "credentials (environ s2) name (Some c2) db = Inr db2"
    by auto
  show ?thesis using export_blind [OF c(1) c(2) [unfolded same]] by (simp add: same)
qed

end

end
