(* ===== verification/MySQL.thy ===== *)
theory MySQL
  imports Quoting SqlScript Backend
begin

text \<open>
  The package \<open>internal/mysql\<close> (\<open>connection.go\<close>, \<open>database.go\<close>, \<open>schema.go\<close>, \<open>tls.go\<close>; the script
  splitter is in \<open>SqlScript\<close>): where the database is, with which credentials, and how it is
  provisioned.  Go's \<open>database/sql\<close> and the MySQL driver are arguments: operations on the remote
  state and handles \<open>'h\<close> they return.  Logging and the deadlines of single connections are not
  modelled.
\<close>

section \<open>The driver\<close>

text \<open>The fields of the driver's configuration that the program sets; \<open>driver_options\<close> is the rest.\<close>

record ('p, 'c, 'k, 'o) mysql_config =
  cfg_User :: string
  cfg_Passwd :: string
  cfg_Net :: string
  cfg_Addr :: string
  cfg_DBName :: string
  cfg_Timeout :: int
  cfg_InterpolateParams :: bool
  cfg_TLS :: "('p, 'c, 'k) tls_config option"
  driver_options :: 'o

record ('g, 'h, 'd) sql_package =
  NewConfig :: 'g
  Charset :: "string \<Rightarrow> string \<Rightarrow> 'g \<Rightarrow> 'g result"
  NewConnector :: "'g \<Rightarrow> 'h result"
  OpenDB :: "'h \<Rightarrow> 'd \<Rightarrow> 'h \<times> 'd"
  db_Conn :: "'h \<Rightarrow> ('d, 'h) eff"
  db_Close :: "'h \<Rightarrow> ('d, unit) eff"
  PingContext :: "'h \<Rightarrow> ('d, unit) eff"
  QueryRow :: "'h \<Rightarrow> string \<Rightarrow> string list \<Rightarrow> ('d, string option option) eff"
  ExecContext :: "'h \<Rightarrow> string \<Rightarrow> string list \<Rightarrow> ('d, unit) eff"
  conn_Close :: "'h \<Rightarrow> ('d, unit) eff"

text \<open>The row of a query is missing, has a null or has a value.\<close>

record 'h sqlDBSession =
  sess_db :: 'h
  sess_conn :: 'h

definition session_Ping :: "('g, 'h, 'd) sql_package \<Rightarrow> 'h sqlDBSession \<Rightarrow> ('d, unit) eff" where
  "session_Ping sql sess = PingContext sql (sess_conn sess)"

definition session_QueryString ::
  "('g, 'h, 'd) sql_package \<Rightarrow> 'h sqlDBSession \<Rightarrow> string \<Rightarrow> string list \<Rightarrow> ('d, string) eff" where
  "session_QueryString sql sess q args d =
     (case QueryRow sql (sess_conn sess) q args d of
        (Inl e, d') \<Rightarrow> (Inl e, d')
      | (Inr None, d') \<Rightarrow> (Inr [], d')
      | (Inr (Some None), d') \<Rightarrow> (Inr [], d')
      | (Inr (Some (Some v)), d') \<Rightarrow> (Inr v, d'))"

definition session_Exec ::
  "('g, 'h, 'd) sql_package \<Rightarrow> 'h sqlDBSession \<Rightarrow> string \<Rightarrow> string list \<Rightarrow> ('d, unit) eff" where
  "session_Exec sql sess = ExecContext sql (sess_conn sess)"

definition session_Close :: "('g, 'h, 'd) sql_package \<Rightarrow> 'h sqlDBSession \<Rightarrow> ('d, unit) eff" where
  "session_Close sql sess d =
     (case conn_Close sql (sess_conn sess) d of
        (r1, d1) \<Rightarrow> (case db_Close sql (sess_db sess) d1 of (r2, d2) \<Rightarrow> (errors_Join [r1, r2], d2)))"

definition openSQLDBSession :: "('g, 'h, 'd) sql_package \<Rightarrow> 'h \<Rightarrow> ('d, 'h sqlDBSession) eff" where
  "openSQLDBSession sql connector d =
     (case OpenDB sql connector d of
        (db, d1) \<Rightarrow>
          (case db_Conn sql db d1 of
             (Inl e, d2) \<Rightarrow> (Inl e, snd (db_Close sql db d2))
           | (Inr conn, d2) \<Rightarrow> (Inr \<lparr>sess_db = db, sess_conn = conn\<rparr>, d2)))"

definition openDBSession :: "('g, 'h, 'd) sql_package \<Rightarrow> 'g \<Rightarrow> ('d, 'h sqlDBSession) eff" where
  "openDBSession sql config d =
     (case NewConnector sql config of
        Inl e \<Rightarrow> (Inl e, d)
      | Inr connector \<Rightarrow> openSQLDBSession sql connector d)"

definition mysql_query ::
  "('g, 'h, 'd) sql_package \<Rightarrow> 'h sqlDBSession \<Rightarrow> string \<Rightarrow> string list \<Rightarrow> ('d, string) eff" where
  "mysql_query sql sess q args = wrap_eff ''execute database query: %w'' [] (session_QueryString sql sess q args)"

definition mysql_execute ::
  "('g, 'h, 'd) sql_package \<Rightarrow> 'h sqlDBSession \<Rightarrow> string \<Rightarrow> string list \<Rightarrow> ('d, unit) eff" where
  "mysql_execute sql sess q args = wrap_eff ''execute database statement: %w'' [] (session_Exec sql sess q args)"

section \<open>Configuration\<close>

record MySQL_DB =
  my_tls :: DBTLSConfig
  my_network :: string
  my_address :: string
  my_charset :: string
  my_collation :: string
  my_adminUser :: string
  my_adminPass :: string
  my_user :: string
  my_password :: string
  my_name :: string
  my_createUser :: bool
  my_fromVault :: bool
  my_resolveTLS :: "environment \<Rightarrow> DBTLSConfig result"

definition mysql_newDB :: "environment \<Rightarrow> (environment \<Rightarrow> DBTLSConfig result) \<Rightarrow> MySQL_DB" where
  "mysql_newDB env resolveTLS =
     \<lparr>my_tls = \<lparr>ConnectMode = [], CAFile = [], CertFile = [], KeyFile = []\<rparr>, my_network = [], my_address = [],
      my_charset = ValueOrDefaultNonEmpty env ''DB_CHARACTER_SET'' ''utf8mb4'',
      my_collation = ValueOrDefaultNonEmpty env ''DB_CHARACTER_COLLATE'' ''utf8mb4_bin'',
      my_adminUser = [], my_adminPass = [], my_user = [], my_password = [], my_name = [],
      my_createUser = False, my_fromVault = False, my_resolveTLS = resolveTLS\<rparr>"

definition mysql_NewForBackend :: "environment \<Rightarrow> MySQL_DB" where
  "mysql_NewForBackend env = mysql_newDB env ResolveServiceDBTLS"

definition mysql_NewForFrontend :: "environment \<Rightarrow> MySQL_DB" where
  "mysql_NewForFrontend env = mysql_newDB env ResolveFrontendDBTLS"

definition mysql_target :: "MySQL_DB \<Rightarrow> (environment, MySQL_DB) eff" where
  "mysql_target db env =
     (let socket = env_get env ''DB_SERVER_SOCKET'' in
      if socket \<noteq> [] then (Inr (db\<lparr>my_network := ''unix'', my_address := socket\<rparr>), env)
      else
        (let host = ValueOrDefaultNonEmpty env ''DB_SERVER_HOST'' ''mysql-server'' in
         case ResolveDBPort ''3306'' env of
           (Inl e, env') \<Rightarrow> (Inl e, env')
         | (Inr port, env') \<Rightarrow>
             (Inr (db\<lparr>my_network := ''tcp'', my_address := JoinHostPort (Trim host ''[]'') port\<rparr>),
              env_set env' ''DB_SERVER_HOST'' host)))"

definition mysql_credentials ::
  "environment \<Rightarrow> string \<Rightarrow> Credentials option \<Rightarrow> MySQL_DB \<Rightarrow> MySQL_DB result" where
  "mysql_credentials env defaultDBName creds db =
     (let mysqlUser = (case creds of None \<Rightarrow> env_get env ''MYSQL_USER'' | Some c \<Rightarrow> Username c);
          mysqlPassword = (case creds of None \<Rightarrow> env_get env ''MYSQL_PASSWORD'' | Some c \<Rightarrow> Password c);
          mysqlRootUser = env_get env ''MYSQL_ROOT_USER'';
          mysqlRootPassword = env_get env ''MYSQL_ROOT_PASSWORD'';
          allowEmptyPassword = (env_get env ''MYSQL_ALLOW_EMPTY_PASSWORD'' = ''true'') in
      if mysqlUser = [] \<and> mysqlRootPassword = [] \<and> \<not> allowEmptyPassword
      then Inl (Errorf ''impossible to use MySQL server because MYSQL_ROOT_PASSWORD is not defined and empty password is not allowed'' [])
      else
        (let useMySQLRoot = (allowEmptyPassword \<or> mysqlRootPassword \<noteq> []);
             adminUser = (if useMySQLRoot then cmp_Or mysqlRootUser ''root'' else env_get env ''DB_SERVER_ROOT_USER'');
             adminPass = (if useMySQLRoot then mysqlRootPassword else env_get env ''DB_SERVER_ROOT_PASS'');
             hasAdminCredentials = (useMySQLRoot \<or> (adminUser \<noteq> [] \<and> env_has env ''DB_SERVER_ROOT_PASS'')) in
         Inr (db\<lparr>my_createUser := mysqlUser \<noteq> [] \<and> hasAdminCredentials,
                 my_adminUser := (if adminUser = [] then mysqlUser else adminUser),
                 my_adminPass := (if adminUser = [] then mysqlPassword else adminPass),
                 my_user := cmp_Or mysqlUser ''zabbix'',
                 my_password := cmp_Or mysqlPassword ''zabbix'',
                 my_name := ValueOrDefaultNonEmpty env ''MYSQL_DATABASE'' defaultDBName,
                 my_fromVault := (creds \<noteq> None)\<rparr>)))"

definition mysql_Configure ::
  "('p, 'c, 'k, 'd) platform \<Rightarrow> string \<Rightarrow> MySQL_DB \<Rightarrow> ('d machine, MySQL_DB) run" where
  "mysql_Configure pf defaultDBName db s =
     (case my_resolveTLS db (environ s) of
        Inl e \<Rightarrow> Some (Inl e, s)
      | Inr tls \<Rightarrow>
          bind_run (once (on_environ (mysql_target (db\<lparr>my_tls := tls\<rparr>)))) (\<lambda>db.
          bind_run (\<lambda>s. on_remote_run
              (ResolveDBCredentials (pf_x509 pf) (pf_clock pf) (pf_http pf) (files s) (environ s)) s) (\<lambda>creds.
          once (\<lambda>s. (mysql_credentials (environ s) defaultDBName creds db, s)))) s)"

definition mysql_ExportEnv :: "MySQL_DB \<Rightarrow> environment \<Rightarrow> environment" where
  "mysql_ExportEnv db env =
     (let copy = (\<lambda>from to env. if env_get env from \<noteq> [] then env_set env to (env_get env from) else env);
          env = copy ''DB_SERVER_SOCKET'' ''ZBX_DB_SOCKET'' env;
          env = copy ''DB_SERVER_HOST'' ''ZBX_DB_HOST'' env;
          env = copy ''DB_SERVER_PORT'' ''ZBX_DB_PORT'' env;
          env = env_set env ''ZBX_DB_NAME'' (my_name db) in
      if my_fromVault db then env_delete (env_delete env ''ZBX_DB_USER'') ''ZBX_DB_PASSWORD''
      else env_set (env_set env ''ZBX_DB_USER'' (my_user db)) ''ZBX_DB_PASSWORD'' (my_password db))"

section \<open>TLS\<close>

definition loadCertificatePool :: "('p, 'c, 'k) x509 \<Rightarrow> filesystem \<Rightarrow> string \<Rightarrow> 'p result" where
  "loadCertificatePool x fs path =
     (if path = [] then wrap_res ''load system certificate pool: %w'' [] (SystemCertPool x)
      else
        (case os_ReadFile fs path of
           Inl e \<Rightarrow> Inl (Wrapf ''read database CA file %s: %w'' [path] e)
         | Inr data \<Rightarrow>
             (case AppendCertsFromPEM x (NewCertPool x) data of
                (pool, added) \<Rightarrow>
                  if added then Inr pool
                  else Inl (Errorf ''database CA file %s does not contain a certificate'' [path]))))"

text \<open>The verification that a mode asks for, on a configuration with its pool and key pair.\<close>

definition tlsMode ::
  "('p, 'c, 'k) x509 \<Rightarrow> environment \<Rightarrow> string \<Rightarrow> 'p option \<Rightarrow> ('p, 'c, 'k) tls_config \<Rightarrow> ('p, 'c, 'k) tls_config" where
  "tlsMode x env mode roots config =
     (if mode = ''required'' then config\<lparr>InsecureSkipVerify := True\<rparr>
      else if mode = ''verify_ca''
      then config\<lparr>InsecureSkipVerify := True,
             VerifyConnection := map_option (\<lambda>pool certs. VerifyCertificateChain x certs pool) roots\<rparr>
      else
        (let host = Trim (env_get env ''DB_SERVER_HOST'') ''[]'' in
         config\<lparr>ServerName := (if host = [] then ''localhost'' else host)\<rparr>))"

definition mysql_tlsConfig ::
  "('p, 'c, 'k) x509 \<Rightarrow> filesystem \<Rightarrow> environment \<Rightarrow> DBTLSConfig \<Rightarrow> ('p, 'c, 'k) tls_config option result" where
  "mysql_tlsConfig x fs env tls =
     (let mode = ToLower (ConnectMode tls) in
      if mode = [] then Inr None
      else if mode \<noteq> ''required'' \<and> mode \<noteq> ''verify_ca'' \<and> mode \<noteq> ''verify_full''
      then Inl (Errorf ''unsupported database TLS connection mode %q'' [ConnectMode tls])
      else
        bind_res (if CAFile tls \<noteq> [] \<or> mode \<noteq> ''required''
                  then map_sum id Some (loadCertificatePool x fs (CAFile tls)) else Inr None) (\<lambda>roots.
        if (CertFile tls = []) \<noteq> (KeyFile tls = [])
        then Inl (Errorf ''ZBX_DBTLSCERTFILE and ZBX_DBTLSKEYFILE must be set together'' [])
        else
          bind_res (if CertFile tls \<noteq> []
                    then map_sum id (\<lambda>k. [k]) (wrap_res ''load database client certificate: %w'' []
                           (LoadX509KeyPair x fs (CertFile tls) (KeyFile tls)))
                    else Inr []) (\<lambda>certs.
          Inr (Some (tlsMode x env mode roots (emptyTLSConfig\<lparr>RootCAs := roots, Certificates := certs\<rparr>))))))"

text \<open>The pool of \<open>verify_ca\<close> is always there, so its verification is set: shown below.\<close>

section \<open>Connections\<close>

definition connectTimeout :: int where "connectTimeout = seconds 10"
definition reconnectInterval :: int where "reconnectInterval = seconds 5"

definition mysql_connConfig ::
  "('p, 'c, 'k, 'd) platform \<Rightarrow> (('p, 'c, 'k, 'o) mysql_config, 'h, 'd) sql_package \<Rightarrow> MySQL_DB \<Rightarrow>
   filesystem \<Rightarrow> environment \<Rightarrow> string \<Rightarrow> string \<Rightarrow> string \<Rightarrow> ('p, 'c, 'k, 'o) mysql_config result" where
  "mysql_connConfig pf sql db fs env dbName user password =
     bind_res (mysql_tlsConfig (pf_x509 pf) fs env (my_tls db)) (\<lambda>tlsConfig.
       wrap_res ''configure database character set: %w'' []
         (Charset sql (my_charset db) ''''
           ((NewConfig sql)\<lparr>cfg_User := user, cfg_Passwd := password, cfg_Net := my_network db,
              cfg_Addr := my_address db, cfg_DBName := dbName, cfg_Timeout := connectTimeout,
              cfg_InterpolateParams := True, cfg_TLS := tlsConfig\<rparr>)))"

definition mysql_attempt :: "('g, 'h, 'd) sql_package \<Rightarrow> 'g \<Rightarrow> ('d, 'h sqlDBSession) eff" where
  "mysql_attempt sql config d =
     (case openDBSession sql config d of
        (Inl e, d1) \<Rightarrow> (Inl e, d1)
      | (Inr opened, d1) \<Rightarrow>
          (case session_Ping sql opened d1 of
             (Inl e, d2) \<Rightarrow> (Inl e, snd (session_Close sql opened d2))
           | (Inr _, d2) \<Rightarrow> (Inr opened, d2)))"

definition mysql_waitForConnection ::
  "('p, 'c, 'k, 'd) platform \<Rightarrow> (('p, 'c, 'k, 'o) mysql_config, 'h, 'd) sql_package \<Rightarrow> MySQL_DB \<Rightarrow>
   string \<Rightarrow> string \<Rightarrow> ('d machine, 'h sqlDBSession) run" where
  "mysql_waitForConnection pf sql db user password s =
     (case mysql_connConfig pf sql db (files s) (environ s) '''' user password of
        Inl e \<Rightarrow> Some (Inl e, s)
      | Inr config \<Rightarrow>
          on_remote_run (retry_remote (pf_clock pf) 0 reconnectInterval (mysql_attempt sql config)) s)"

definition mysql_Wait ::
  "('p, 'c, 'k, 'd) platform \<Rightarrow> (('p, 'c, 'k, 'o) mysql_config, 'h, 'd) sql_package \<Rightarrow> MySQL_DB \<Rightarrow>
   ('d machine, unit) run" where
  "mysql_Wait pf sql db =
     bind_run (mysql_waitForConnection pf sql db (my_user db) (my_password db)) (\<lambda>sess.
       once (on_remote (wrap_eff ''close MySQL connection: %w'' [] (session_Close sql sess))))"

section \<open>The schema\<close>

definition mysql_quoteIdentifier :: "string \<Rightarrow> string" where
  "mysql_quoteIdentifier v = ''`'' @ ReplaceAll v ''`'' ''``'' @ ''`''"

definition zabbixDBPrivileges :: string where
  "zabbixDBPrivileges = ''SELECT, INSERT, UPDATE, DELETE, CREATE, DROP, ALTER, INDEX, CREATE TEMPORARY TABLES, TRIGGER, REFERENCES''"

definition readSQLStatements ::
  "('p, 'c, 'k, 'd) platform \<Rightarrow> filesystem \<Rightarrow> string \<Rightarrow> string list result option" where
  "readSQLStatements pf fs path =
     (case ReadSQLFile (pf_gunzip pf) fs path of
        Inl e \<Rightarrow> Some (Inl e)
      | Inr data \<Rightarrow> map_option (wrap_res ''parse SQL script %s: %w'' [path]) (splitSQLStatements data))"

text \<open>The statements of a script, one after another, numbered from one.\<close>

fun execute_all ::
  "('g, 'h, 'd) sql_package \<Rightarrow> 'h sqlDBSession \<Rightarrow> string \<Rightarrow> nat \<Rightarrow> string list \<Rightarrow> ('d, unit) eff" where
  "execute_all sql sess path n [] d = (Inr (), d)"
| "execute_all sql sess path n (st # rest) d =
     (case session_Exec sql sess st [] d of
        (Inl e, d') \<Rightarrow> (Inl (Wrapf ''execute SQL script %s statement %d: %w'' [path, Itoa (int n + 1)] e), d')
      | (Inr _, d') \<Rightarrow> execute_all sql sess path (Suc n) rest d')"

definition mysql_executeSQLFile ::
  "('p, 'c, 'k, 'd) platform \<Rightarrow> (('p, 'c, 'k, 'o) mysql_config, 'h, 'd) sql_package \<Rightarrow> MySQL_DB \<Rightarrow>
   string \<Rightarrow> ('d machine, unit) run" where
  "mysql_executeSQLFile pf sql db path s =
     (case readSQLStatements pf (files s) path of
        None \<Rightarrow> None
      | Some (Inl e) \<Rightarrow> Some (Inl e, s)
      | Some (Inr sts) \<Rightarrow>
          (case mysql_connConfig pf sql db (files s) (environ s) (my_name db) (my_adminUser db) (my_adminPass db) of
             Inl e \<Rightarrow> Some (Inl e, s)
           | Inr config \<Rightarrow>
               bind_run (once (on_remote (wrap_eff ''connect to database %s: %w'' [my_name db] (openDBSession sql config))))
                 (\<lambda>sess. defer_run (on_remote (session_Close sql sess))
                    (once (on_remote (execute_all sql sess path 0 sts)))) s))"

definition mysql_grant :: "MySQL_DB \<Rightarrow> string" where
  "mysql_grant db =
     ''GRANT '' @ zabbixDBPrivileges @ '' ON '' @ mysql_quoteIdentifier (my_name db) @ ''.* TO ?@'' @ [CHR 0x27, CHR ''%'', CHR 0x27]"

definition mysql_ensureUser ::
  "('g, 'h, 'd) sql_package \<Rightarrow> MySQL_DB \<Rightarrow> 'h sqlDBSession \<Rightarrow> ('d, unit) eff" where
  "mysql_ensureUser sql db sess =
     (if \<not> my_createUser db then ret ()
      else
        bind_eff (mysql_query sql sess
            (''SELECT 1 FROM mysql.user WHERE user = ? AND host = '' @ [CHR 0x27, CHR ''%'', CHR 0x27]) [my_user db])
          (\<lambda>exists.
        bind_eff (mysql_execute sql sess
            ((if exists \<noteq> [] then ''ALTER'' else ''CREATE'') @ '' USER ?@'' @ [CHR 0x27, CHR ''%'', CHR 0x27] @
             '' IDENTIFIED BY ?'') [my_user db, my_password db])
          (\<lambda>_. mysql_execute sql sess (mysql_grant db) [my_user db])))"

definition mysql_createDatabase :: "MySQL_DB \<Rightarrow> string" where
  "mysql_createDatabase db =
     ''CREATE DATABASE '' @ mysql_quoteIdentifier (my_name db) @
     '' CHARACTER SET '' @ mysql_quoteIdentifier (my_charset db) @
     '' COLLATE '' @ mysql_quoteIdentifier (my_collation db)"

definition mysql_createDB ::
  "('g, 'h, 'd) sql_package \<Rightarrow> MySQL_DB \<Rightarrow> 'h sqlDBSession \<Rightarrow> ('d, unit) eff" where
  "mysql_createDB sql db sess =
     bind_eff (mysql_query sql sess
         ''SELECT SCHEMA_NAME FROM information_schema.SCHEMATA WHERE SCHEMA_NAME = ?'' [my_name db]) (\<lambda>exists.
     if exists \<noteq> [] then ret ()
     else
       bind_eff (mysql_execute sql sess (mysql_createDatabase db) [])
         (\<lambda>_. mysql_execute sql sess (mysql_grant db) [my_user db]))"

text \<open>The version in the database: nothing when there is no version table.\<close>

definition mysql_tableQuery :: string where
  "mysql_tableQuery =
     ''SELECT 1 FROM information_schema.tables WHERE table_schema = ? AND table_name = '' @
     [CHR 0x27] @ ''dbversion'' @ [CHR 0x27]"

definition mysql_versionQuery :: "MySQL_DB \<Rightarrow> string" where
  "mysql_versionQuery db = ''SELECT mandatory FROM '' @ mysql_quoteIdentifier (my_name db) @ ''.dbversion''"

definition mysql_version ::
  "('g, 'h, 'd) sql_package \<Rightarrow> MySQL_DB \<Rightarrow> 'h sqlDBSession \<Rightarrow> ('d, string) eff" where
  "mysql_version sql db sess =
     bind_eff (mysql_query sql sess mysql_tableQuery [my_name db]) (\<lambda>exists.
     if exists = [] then ret [] else mysql_query sql sess (mysql_versionQuery db) [])"

definition mysql_createSchema ::
  "('p, 'c, 'k, 'd) platform \<Rightarrow> (('p, 'c, 'k, 'o) mysql_config, 'h, 'd) sql_package \<Rightarrow> MySQL_DB \<Rightarrow>
   'h sqlDBSession \<Rightarrow> string \<Rightarrow> ('d machine, unit) run" where
  "mysql_createSchema pf sql db sess schemaFile =
     bind_run (once (on_remote (mysql_version sql db sess))) (\<lambda>version.
     if version \<noteq> [] then once (ret ())
     else
       bind_run (mysql_executeSQLFile pf sql db schemaFile) (\<lambda>_.
         RunAdditionalSQLScripts (mysql_executeSQLFile pf sql db)))"

definition mysql_Prepare ::
  "('p, 'c, 'k, 'd) platform \<Rightarrow> (('p, 'c, 'k, 'o) mysql_config, 'h, 'd) sql_package \<Rightarrow> MySQL_DB \<Rightarrow>
   string \<Rightarrow> ('d machine, unit) run" where
  "mysql_Prepare pf sql db schemaFile =
     bind_run (mysql_waitForConnection pf sql db (my_adminUser db) (my_adminPass db)) (\<lambda>admin.
     defer_run (on_remote (session_Close sql admin))
       (bind_run (once (on_remote (mysql_ensureUser sql db admin))) (\<lambda>_.
        bind_run (once (on_remote (mysql_createDB sql db admin))) (\<lambda>_.
        mysql_createSchema pf sql db admin schemaFile))))"

section \<open>Statements\<close>

interpretation backtick: quoting mysql_quoteIdentifier "read_quoted (CHR ''`'')" "other_mark (CHR ''`'')"
proof -
  have eq: "mysql_quoteIdentifier = double_quoted (CHR ''`'')"
    by (simp add: fun_eq_iff mysql_quoteIdentifier_def double_quoted_def)
  show "quoting mysql_quoteIdentifier (read_quoted (CHR ''`'')) (other_mark (CHR ''`''))"
    unfolding eq by (rule quoting_doubled)
qed

text \<open>The names in \<open>CREATE DATABASE\<close> are exactly the configured ones: no database name, character
  set or collation, whatever backticks or blanks it has, produces the statement of another choice.\<close>

theorem mysql_createDatabase_inject:
  "mysql_createDatabase db = mysql_createDatabase db' \<longleftrightarrow>
     my_name db = my_name db' \<and> my_charset db = my_charset db' \<and> my_collation db = my_collation db'"
proof
  assume same: "mysql_createDatabase db = mysql_createDatabase db'"
  have charset: "other_mark (CHR ''`'') ('' CHARACTER SET '' @ r)" for r by (simp add: other_mark_def HasPrefix_def)
  have collate: "other_mark (CHR ''`'') ('' COLLATE '' @ r)" for r by (simp add: other_mark_def HasPrefix_def)
  note 1 = backtick.statement_inject [OF charset charset same [unfolded mysql_createDatabase_def]]
  note 2 = backtick.statement_inject [OF collate collate conjunct2 [OF 1]]
  note 3 = backtick.encode_inject [OF same_append_eq [THEN iffD1, OF conjunct2 [OF 2]]]
  show "my_name db = my_name db' \<and> my_charset db = my_charset db' \<and> my_collation db = my_collation db'"
    using 1 2 3 by blast
qed (simp add: mysql_createDatabase_def)

section \<open>TLS of the connections\<close>

lemma mysql_tlsConfig_cases:
  assumes "mysql_tlsConfig x fs env tls = Inr config" and "mode = ToLower (ConnectMode tls)"
  shows "(mode = [] \<and> config = None) \<or>
    (mode \<in> {''required'', ''verify_ca'', ''verify_full''} \<and>
     (\<exists>roots certs. config = Some (tlsMode x env mode roots (emptyTLSConfig\<lparr>RootCAs := roots, Certificates := certs\<rparr>)) \<and>
        (mode = ''required'' \<and> CAFile tls = [] \<or>
         (\<exists>pool. roots = Some pool \<and> loadCertificatePool x fs (CAFile tls) = Inr pool))))"
  using assms
  by (auto simp: mysql_tlsConfig_def Let_def map_sum_def split: if_splits sum.splits)

text \<open>C12: every connection is as protected as the configured mode says.  Without a mode there is no
  TLS; any mode uses TLS; \<open>verify_ca\<close> and \<open>verify_full\<close> verify the chain against the configured
  authorities and nothing else; \<open>verify_full\<close> also checks the configured host name; a mode that is
  none of these is an error.\<close>

theorem mysql_connConfig_verifies:
  assumes "mysql_connConfig pf sql db fs env dbName user password = Inr config"
    and "\<And>cs co c. Charset sql cs co c = Inr config \<Longrightarrow> cfg_TLS config = cfg_TLS c"
    and "mode = ToLower (ConnectMode (my_tls db))"
  shows "case cfg_TLS config of
      None \<Rightarrow> mode = []
    | Some t \<Rightarrow>
        (if mode = ''verify_full''
         then \<not> InsecureSkipVerify t \<and>
           map_sum id Some (loadCertificatePool (pf_x509 pf) fs (CAFile (my_tls db))) = Inr (RootCAs t) \<and>
           ServerName t = cmp_Or (Trim (env_get env ''DB_SERVER_HOST'') ''[]'') ''localhost''
         else if mode = ''verify_ca''
         then (\<exists>pool. loadCertificatePool (pf_x509 pf) fs (CAFile (my_tls db)) = Inr pool \<and>
           VerifyConnection t = Some (\<lambda>certs. VerifyCertificateChain (pf_x509 pf) certs pool))
         else mode = ''required'')"
proof -
  from assms(1) obtain tc where tc: "mysql_tlsConfig (pf_x509 pf) fs env (my_tls db) = Inr tc"
    and "cfg_TLS config = tc"
    by (auto simp: mysql_connConfig_def dest: assms(2))
  with mysql_tlsConfig_cases [OF tc assms(3)] show ?thesis
    by (auto simp: tlsMode_def emptyTLSConfig_def cmp_Or_def Let_def)
qed

section \<open>Provisioning\<close>

text \<open>Provisioning without any import: the user, the database and a look at the version.\<close>

definition mysql_provision ::
  "('p, 'c, 'k, 'd) platform \<Rightarrow> (('p, 'c, 'k, 'o) mysql_config, 'h, 'd) sql_package \<Rightarrow> MySQL_DB \<Rightarrow>
   ('d machine, unit) run" where
  "mysql_provision pf sql db =
     bind_run (mysql_waitForConnection pf sql db (my_adminUser db) (my_adminPass db)) (\<lambda>admin.
     defer_run (on_remote (session_Close sql admin))
       (once (on_remote
         (bind_eff (mysql_ensureUser sql db admin) (\<lambda>_.
          bind_eff (mysql_createDB sql db admin) (\<lambda>_.
          bind_eff (mysql_version sql db admin) (\<lambda>_. ret ())))))))"

lemma on_remote_bind:
  "once (on_remote (bind_eff m f)) = bind_run (once (on_remote m)) (\<lambda>x. once (on_remote (f x)))"
  by (rule ext) (auto simp: on_remote_def bind_eff_def bind_run_def split: prod.split sum.split)


section \<open>Credentials\<close>

text \<open>The two accounts of a configured database.  Both have a name and the working account also a
  password; a user is only created for a configured working account and only by an administrator
  whose credentials were given as such, never with the working account's own; and what cannot be
  used, no working account and no administrator, is an error.\<close>

theorem mysql_credentials_roles:
  "case mysql_credentials env defaultDBName creds db of
      Inl _ \<Rightarrow>
        (case creds of None \<Rightarrow> env_get env ''MYSQL_USER'' | Some c \<Rightarrow> Username c) = [] \<and>
        env_get env ''MYSQL_ROOT_PASSWORD'' = [] \<and> env_get env ''MYSQL_ALLOW_EMPTY_PASSWORD'' \<noteq> ''true''
    | Inr db' \<Rightarrow>
        my_user db' \<noteq> [] \<and> my_password db' \<noteq> [] \<and> my_adminUser db' \<noteq> [] \<and>
        (my_fromVault db' \<longleftrightarrow> creds \<noteq> None) \<and>
        (if my_createUser db'
         then my_user db' = (case creds of None \<Rightarrow> env_get env ''MYSQL_USER'' | Some c \<Rightarrow> Username c) \<and>
           ((my_adminUser db', my_adminPass db') =
              (cmp_Or (env_get env ''MYSQL_ROOT_USER'') ''root'', env_get env ''MYSQL_ROOT_PASSWORD'') \<or>
            env_has env ''DB_SERVER_ROOT_PASS'' \<and>
            (my_adminUser db', my_adminPass db') =
              (env_get env ''DB_SERVER_ROOT_USER'', env_get env ''DB_SERVER_ROOT_PASS''))
         else True)"
  by (auto simp: mysql_credentials_def Let_def cmp_Or_def split: option.split)

lemma mysql_target_get:
  assumes "mysql_target db env = (r, env')" "name \<noteq> ''DB_SERVER_PORT''" "name \<noteq> ''DB_SERVER_HOST''"
  shows "env_get env' name = env_get env name"
  using assms
  by (auto simp: mysql_target_def Let_def ResolveDBPort_def env_simps split: if_splits option.splits)

lemma mysql_ExportEnv_cong:
  assumes "my_name db1 = my_name db2" "my_fromVault db1" "my_fromVault db2"
  shows "mysql_ExportEnv db1 env = mysql_ExportEnv db2 env"
  unfolding mysql_ExportEnv_def assms(1) by (simp only: assms(2,3) if_True)

interpretation mysql: vault_backend "\<lambda>tls. mysql_target (db\<lparr>my_tls := tls\<rparr>)" mysql_credentials mysql_ExportEnv for db
proof unfold_locales
  show "env_get env' ''ZBX_VAULTDBPATH'' = env_get env ''ZBX_VAULTDBPATH''"
    if "mysql_target (db\<lparr>my_tls := tls\<rparr>) env = (r, env')" for tls env r env'
    using mysql_target_get [OF that] by simp
  show "mysql_ExportEnv db1 env = mysql_ExportEnv db2 env"
    if "mysql_credentials env name (Some c1) db = Inr db1" "mysql_credentials env name (Some c2) db = Inr db2"
    for env name c1 c2 db db1 db2
    using that by (intro mysql_ExportEnv_cong) (auto simp: mysql_credentials_def Let_def split: if_splits)
qed

lemma mysql_Configure_db:
  "mysql_Configure pf name db =
     configure_db pf (my_resolveTLS db) (\<lambda>tls. mysql_target (db\<lparr>my_tls := tls\<rparr>)) mysql_credentials name"
  by (simp add: fun_eq_iff mysql_Configure_def configure_db_def)

text \<open>C14: database credentials that come from Vault stay in the entrypoint: whatever Vault answers, the
  environment of the started service is the same, so that no part of the answer can be read from
  it.\<close>

theorem mysql_Vault_private:
  assumes "mysql_Configure pf defaultDBName db s = Some (Inr db1, s1)"
    and "mysql_Configure pf' defaultDBName db s = Some (Inr db2, s2)"
    and "env_get (environ s) ''ZBX_VAULTDBPATH'' \<noteq> []"
  shows "mysql_ExportEnv db1 (environ s1) = mysql_ExportEnv db2 (environ s2)"
  by (rule mysql.kept [OF assms(1,2) [unfolded mysql_Configure_db] assms(3)])

section \<open>Samples\<close>

text \<open>A server that has a schema, and counts the operations it has seen.\<close>

definition sample_sql :: "((unit, unit, unit, unit) mysql_config, nat, nat) sql_package" where
  "sample_sql =
     \<lparr>NewConfig = \<lparr>cfg_User = [], cfg_Passwd = [], cfg_Net = [], cfg_Addr = [], cfg_DBName = [], cfg_Timeout = 0,
        cfg_InterpolateParams = False, cfg_TLS = None, driver_options = ()\<rparr>,
      Charset = (\<lambda>_ _ c. Inr c), NewConnector = (\<lambda>_. Inr 0), OpenDB = (\<lambda>_ d. (1, d)), db_Conn = (\<lambda>_ d. (Inr 2, d)),
      db_Close = (\<lambda>_ d. (Inr (), d)), PingContext = (\<lambda>_ d. (Inr (), d)),
      QueryRow = (\<lambda>_ _ _ d. (Inr (Some (Some ''7000000'')), Suc d)),
      ExecContext = (\<lambda>_ _ _ d. (Inr (), Suc d)), conn_Close = (\<lambda>_ d. (Inr (), d))\<rparr>"

text \<open>A Vault that answers with a user and a password.\<close>

definition answering_vault :: "string \<Rightarrow> ((unit, unit, unit) tls_config, nat) http" where
  "answering_vault answer = \<lparr>request_error = (\<lambda>_ _. None),
     http_do = (\<lambda>_ _ n. (Inr \<lparr>StatusCode = 200, Status = ''200 OK'', ResponseBody = (answer, None)\<rparr>, Suc n))\<rparr>"

definition sample_platform :: "string \<Rightarrow> (unit, unit, unit, nat) platform" where
  "sample_platform answer =
     \<lparr>pf_x509 = sample_x509, pf_clock = quiet_runtime, pf_http = answering_vault answer, pf_gunzip = Inr\<rparr>"

definition sample_machine :: "environment \<Rightarrow> nat machine" where
  "sample_machine env = \<lparr>environ = env, files = quiet_fs [], remote = 0\<rparr>"

lemma mysql_connConfig_verifies_witness:
  "\<exists>config t. mysql_connConfig (sample_platform []) sample_sql
      ((mysql_newDB [] ResolveServiceDBTLS)\<lparr>my_tls := \<lparr>ConnectMode = ''Verify_Full'', CAFile = [], CertFile = [], KeyFile = []\<rparr>\<rparr>)
      (quiet_fs []) [(''DB_SERVER_HOST'', ''[::1]'')] ''zabbix'' ''zabbix'' ''secret'' = Inr config \<and>
    cfg_TLS config = Some t \<and> \<not> InsecureSkipVerify t \<and> ServerName t = ''::1''"
proof -
  let ?db = "(mysql_newDB [] ResolveServiceDBTLS)\<lparr>my_tls := \<lparr>ConnectMode = ''Verify_Full'', CAFile = [], CertFile = [], KeyFile = []\<rparr>\<rparr>"
  let ?env = "[(''DB_SERVER_HOST'', ''[::1]'')]"
  have low: "ToLower ''Verify_Full'' = ''verify_full''" by code_simp
  then have mode: "''verify_full'' = ToLower (ConnectMode (my_tls ?db))" by simp
  from low obtain config where c: "mysql_connConfig (sample_platform []) sample_sql ?db (quiet_fs []) ?env
      ''zabbix'' ''zabbix'' ''secret'' = Inr config"
    by (auto simp: mysql_connConfig_def mysql_tlsConfig_def loadCertificatePool_def sample_platform_def sample_x509_def
        sample_sql_def Let_def)
  have name: "cmp_Or (Trim (env_get ?env ''DB_SERVER_HOST'') ''[]'') ''localhost'' = ''::1''"
    by code_simp
  have keep: "cfg_TLS config = cfg_TLS g" if "Charset sample_sql cs co g = Inr config" for cs co g
    using that by (simp add: sample_sql_def)
  show ?thesis
    using mysql_connConfig_verifies [OF c keep mode] c name by (cases "cfg_TLS config") auto
qed

text \<open>Two answers of Vault, with different users and passwords.\<close>

definition sample_answer :: "string \<Rightarrow> string" where
  "sample_answer user = ''{'' @ marshal_string ''data'' @ '':{'' @ marshal_string ''data'' @ '':{'' @
     marshal_string ''username'' @ '':'' @ marshal_string user @ '','' @
     marshal_string ''password'' @ '':'' @ marshal_string user @ ''}}}''"

definition sample_settings :: environment where
  "sample_settings =
     [(''ZBX_VAULT'', ''HashiCorp''), (''ZBX_VAULTURL'', ''https://vault''), (''VAULT_TOKEN'', ''t''),
      (''ZBX_VAULTDBPATH'', ''secret/zabbix'')]"

definition sample_configured :: "string \<Rightarrow> (nat machine \<Rightarrow> MySQL_DB \<Rightarrow> 'a) \<Rightarrow> 'a option" where
  "sample_configured user f =
     (case mysql_Configure (sample_platform (sample_answer user)) ''zabbix'' (mysql_newDB sample_settings ResolveServiceDBTLS)
         (sample_machine sample_settings) of
        Some (Inr db, s) \<Rightarrow> Some (f s db) | _ \<Rightarrow> None)"

lemma mysql_Vault_private_witness:
  "sample_configured ''alice'' (\<lambda>_. my_user) = Some ''alice'' \<and>
   sample_configured ''bob'' (\<lambda>_. my_user) = Some ''bob'' \<and>
   sample_configured ''alice'' (\<lambda>s db. mysql_ExportEnv db (environ s)) =
     sample_configured ''bob'' (\<lambda>s db. mysql_ExportEnv db (environ s))"
proof -
  have 1: "sample_configured ''alice'' (\<lambda>_. my_user) = Some ''alice''" by code_simp
  have 2: "sample_configured ''bob'' (\<lambda>_. my_user) = Some ''bob''" by code_simp
  obtain db1 s1 where a: "mysql_Configure (sample_platform (sample_answer ''alice'')) ''zabbix''
      (mysql_newDB sample_settings ResolveServiceDBTLS) (sample_machine sample_settings) = Some (Inr db1, s1)"
    using 1 by (auto simp: sample_configured_def split: option.splits prod.splits sum.splits)
  obtain db2 s2 where b: "mysql_Configure (sample_platform (sample_answer ''bob'')) ''zabbix''
      (mysql_newDB sample_settings ResolveServiceDBTLS) (sample_machine sample_settings) = Some (Inr db2, s2)"
    using 2 by (auto simp: sample_configured_def split: option.splits prod.splits sum.splits)
  have "env_get (environ (sample_machine sample_settings)) ''ZBX_VAULTDBPATH'' \<noteq> []" by code_simp
  note mysql_Vault_private [OF a b this]
  with 1 2 show ?thesis by (simp add: sample_configured_def a b)
qed


end
