(* ===== verification/Endpoints.thy ===== *)
theory Endpoints
  imports Database
begin

text \<open>
  \<open>internal/postgresql/endpoints.go\<close>: the comma separated list of hosts of \<open>DB_SERVER_HOST\<close>, each
  with an optional port, IPv6 addresses in brackets.
\<close>

definition socketDir :: string where "socketDir = ''/var/run/postgresql''"

record endpoint =
  ep_host :: string
  ep_port :: string

definition validatePort :: "string \<Rightarrow> unit result" where
  "validatePort port =
     (if port = [] then Inl (Errorf ''port is empty'' [])
      else if ParseUint port 16 = None
      then Inl (Wrapf ''invalid port %q: %w'' [port] (SysError ''strconv.ParseUint''))
      else Inr ())"

definition checkedPort :: "string \<Rightarrow> string \<Rightarrow> endpoint result" where
  "checkedPort host port =
     bind_res (validatePort port) (\<lambda>_. Inr \<lparr>ep_host = host, ep_port = port\<rparr>)"

definition parseEndpoint :: "string \<Rightarrow> string \<Rightarrow> endpoint result" where
  "parseEndpoint v defaultPort =
     (if HasPrefix v ''['' then
        (case Cut (tl v) (CHR '']'') of
           (inside, after, found) \<Rightarrow>
             if \<not> found then Inl (Errorf ''missing closing bracket in IPv6 address'' [])
             else
               (let host = TrimSpace inside; suffix = TrimSpace after in
                if host = [] then Inl (Errorf ''host is empty'' [])
                else if suffix = [] then Inr \<lparr>ep_host = host, ep_port = defaultPort\<rparr>
                else if \<not> HasPrefix suffix '':'' then Inl (Errorf ''unexpected data after IPv6 address'' [])
                else checkedPort host (TrimSpace (tl suffix))))
      else if count_list v (CHR '':'') \<noteq> 1 then Inr \<lparr>ep_host = v, ep_port = defaultPort\<rparr>
      else
        (case Cut v (CHR '':'') of
           (host, port, _) \<Rightarrow>
             if TrimSpace host = [] then Inl (Errorf ''host is empty'' [])
             else checkedPort (TrimSpace host) (TrimSpace port)))"

fun parse_each :: "nat \<Rightarrow> string list \<Rightarrow> string \<Rightarrow> endpoint list result" where
  "parse_each i [] defaultPort = Inr []"
| "parse_each i (raw # parts) defaultPort =
     (let v = TrimSpace raw in
      if v = [] then Inl (Errorf ''endpoint %d is empty'' [Itoa (int (i + 1))])
      else
        bind_res (wrap_res ''endpoint %d %q: %w'' [Itoa (int (i + 1)), v] (parseEndpoint v defaultPort)) (\<lambda>e.
        bind_res (parse_each (Suc i) parts defaultPort) (\<lambda>es. Inr (e # es))))"

definition parseEndpoints :: "string \<Rightarrow> string \<Rightarrow> endpoint list result" where
  "parseEndpoints hosts defaultPort =
     (if hosts = [] then Inr [\<lparr>ep_host = socketDir, ep_port = defaultPort\<rparr>]
      else parse_each 0 (Split hosts CHR '','') defaultPort)"

text \<open>The closing bracket is looked for in the whole value, whose first byte is the opening one, so
  cutting what follows the opening bracket finds the same place.\<close>

section \<open>Valid endpoints\<close>

lemma validatePort_ok [simp]: "validatePort port = Inr u \<longleftrightarrow> (\<exists>n. ParseUint port 16 = Some n)"
  by (cases port) (auto simp: validatePort_def ParseUint_def all_digits_def)

definition valid_endpoint :: "string \<Rightarrow> endpoint \<Rightarrow> bool" where
  "valid_endpoint defaultPort e \<longleftrightarrow>
     ep_host e \<noteq> [] \<and>
     (ep_port e = defaultPort \<or> list_all is_digit (ep_port e) \<and> ep_port e \<noteq> [] \<and> nat_of_dec (ep_port e) < 65536)"

lemma checkedPort_valid:
  "checkedPort host port = Inr e \<Longrightarrow> host \<noteq> [] \<Longrightarrow> valid_endpoint defaultPort e"
  by (auto simp: checkedPort_def valid_endpoint_def ParseUint_def all_digits_def split: if_splits)

lemma parseEndpoint_valid:
  assumes "parseEndpoint v defaultPort = Inr e" "v \<noteq> []"
  shows "valid_endpoint defaultPort e"
  using assms
  by (auto simp: parseEndpoint_def Let_def valid_endpoint_def split: if_splits prod.splits
      dest!: checkedPort_valid [where defaultPort = defaultPort])

lemma parse_each_valid:
  "parse_each i parts defaultPort = Inr es \<Longrightarrow> list_all (valid_endpoint defaultPort) es \<and> length es = length parts"
proof (induction parts arbitrary: i es)
  case (Cons raw parts)
  then show ?case by (auto simp: Let_def parseEndpoint_valid split: if_splits)
qed simp

text \<open>C37: what the list of hosts parses to can be connected to: it has at least one endpoint, each
  with a host and with a port that is the default or a decimal number below 65536; there is one
  endpoint per comma separated entry, none of them dropped.\<close>

theorem parseEndpoints_valid:
  "case parseEndpoints hosts defaultPort of
      Inl _ \<Rightarrow> hosts \<noteq> []
    | Inr es \<Rightarrow> es \<noteq> [] \<and> list_all (valid_endpoint defaultPort) es \<and> length es = length (Split hosts CHR '','')"
proof (cases "parseEndpoints hosts defaultPort")
  case (Inl e)
  then show ?thesis by (auto simp: parseEndpoints_def)
next
  case (Inr es)
  show ?thesis
  proof (cases "hosts = []")
    case True
    with Inr show ?thesis by (auto simp: parseEndpoints_def valid_endpoint_def socketDir_def)
  next
    case False
    with Inr have "parse_each 0 (Split hosts CHR '','') defaultPort = Inr es" by (simp add: parseEndpoints_def)
    from parse_each_valid [OF this] show ?thesis
      by (simp add: Inr) (metis Split_nonempty length_0_conv)
  qed
qed

section \<open>Round trip\<close>

text \<open>Hosts as they are written: printable, without the characters of the list's own syntax.\<close>

definition host_char :: "char \<Rightarrow> bool" where
  "host_char c \<longleftrightarrow> plain_char c \<and> c \<noteq> CHR '','' \<and> c \<noteq> CHR ''['' \<and> c \<noteq> CHR '']''"

definition printable_endpoint :: "endpoint \<Rightarrow> bool" where
  "printable_endpoint e \<longleftrightarrow>
     ep_host e \<noteq> [] \<and> list_all host_char (ep_host e) \<and> (\<exists>n < 65536. ep_port e = dec_of_nat n)"

definition printEndpoint :: "endpoint \<Rightarrow> string" where
  "printEndpoint e = JoinHostPort (ep_host e) (ep_port e)"

lemma digits_plain: "list_all is_digit s \<Longrightarrow> list_all plain_char s"
  by (induction s) (auto simp: is_digit_def plain_char_def)

lemma digit_no_mark:
  assumes "list_all is_digit s" "\<not> is_digit c"
  shows "c \<notin> set s"
  using assms by (auto simp: list_all_iff)

lemma marks_not_digits: "\<not> is_digit CHR '',''" "\<not> is_digit CHR '':''"
  by code_simp+

lemma host_char_no_comma: "list_all host_char s \<Longrightarrow> CHR '','' \<notin> set s"
  by (auto simp: list_all_iff host_char_def)

lemma printEndpoint_plain:
  assumes "printable_endpoint e"
  shows "list_all plain_char (printEndpoint e)" "CHR '','' \<notin> set (printEndpoint e)" "printEndpoint e \<noteq> []"
proof -
  from assms obtain n where e: "list_all host_char (ep_host e)" "ep_port e = dec_of_nat n"
    by (auto simp: printable_endpoint_def)
  have "list_all plain_char (ep_host e)" using e(1) by (rule list.pred_mono_strong) (simp add: host_char_def)
  then show "list_all plain_char (printEndpoint e)"
    using digits_plain [of "ep_port e"] e(2)
    by (auto simp: printEndpoint_def JoinHostPort_def plain_char_def)
  show "CHR '','' \<notin> set (printEndpoint e)"
    using digit_no_mark [of "ep_port e" "CHR '',''"] marks_not_digits e host_char_no_comma
    by (simp add: printEndpoint_def JoinHostPort_def)
  show "printEndpoint e \<noteq> []" by (simp add: printEndpoint_def JoinHostPort_def)
qed

lemma parseEndpoint_print:
  assumes "printable_endpoint e"
  shows "parseEndpoint (printEndpoint e) defaultPort = Inr e"
proof -
  from assms obtain n where host: "ep_host e \<noteq> []" "list_all host_char (ep_host e)"
    and port: "n < 65536" "ep_port e = dec_of_nat n"
    by (auto simp: printable_endpoint_def)
  have "list_all plain_char (ep_host e)" using host(2) by (rule list.pred_mono_strong) (simp add: host_char_def)
  moreover have "list_all plain_char (ep_port e)" using port(2) by (simp add: digits_plain)
  moreover have "plain_char CHR '':''" by code_simp
  ultimately have trim: "TrimSpace (ep_host e) = ep_host e" "TrimSpace (ep_port e) = ep_port e"
    "TrimSpace (CHR '':'' # ep_port e) = CHR '':'' # ep_port e"
    by (simp_all add: TrimSpace_plain)
  have checked: "checkedPort (ep_host e) (ep_port e) = Inr e"
    using port by (simp add: checkedPort_def validatePort_def)
  have marks: "CHR '']'' \<notin> set (ep_host e)" "\<not> HasPrefix (ep_host e @ r) ''[''" for r
    using host by (cases "ep_host e"; auto simp: list_all_iff host_char_def HasPrefix_def)+
  show ?thesis
  proof (cases "CHR '':'' \<in> set (ep_host e)")
    case True
    then show ?thesis
      using host(1) by (simp add: printEndpoint_def JoinHostPort_def parseEndpoint_def HasPrefix_def Let_def marks trim checked)
  next
    case False
    moreover have "CHR '':'' \<notin> set (ep_port e)" using digit_no_mark marks_not_digits port(2) by simp
    ultimately show ?thesis
      using host(1) by (simp add: printEndpoint_def JoinHostPort_def parseEndpoint_def Let_def marks trim checked)
  qed
qed

text \<open>C38: the list of endpoints that is written is the one that is read: hosts and IPv6 addresses with
  their ports, joined by commas, parse to exactly those endpoints in their order.\<close>

theorem parseEndpoints_roundtrip:
  assumes "es \<noteq> []" "list_all printable_endpoint es"
  shows "parseEndpoints (Join (map printEndpoint es) '','') defaultPort = Inr es"
proof -
  have each: "parse_each i (map printEndpoint es) defaultPort = Inr es" for i
    using assms(2)
  proof (induction es arbitrary: i)
    case (Cons e es)
    then show ?case
      using printEndpoint_plain [of e] by (simp add: TrimSpace_plain parseEndpoint_print)
  qed simp
  have "Split (Join (map printEndpoint es) '','') (CHR '','') = map printEndpoint es"
    using assms printEndpoint_plain(2) by (intro Split_Join) (auto simp: list_all_iff)
  moreover have "Join (map printEndpoint es) '','' \<noteq> []"
    using assms printEndpoint_plain(3) by (cases es; cases "tl es") auto
  ultimately show ?thesis by (simp add: parseEndpoints_def each)
qed

lemma parseEndpoints_roundtrip_witness:
  "parseEndpoints ''db1:5432,[2001:db8::2]:5433'' ''5432'' =
     Inr [\<lparr>ep_host = ''db1'', ep_port = ''5432''\<rparr>, \<lparr>ep_host = ''2001:db8::2'', ep_port = ''5433''\<rparr>]"
proof -
  let ?es = "[\<lparr>ep_host = ''db1'', ep_port = ''5432''\<rparr>, \<lparr>ep_host = ''2001:db8::2'', ep_port = ''5433''\<rparr>]"
  have ports: "''5432'' = dec_of_nat 5432" "''5433'' = dec_of_nat 5433" by code_simp+
  have hosts: "list_all host_char ''db1''" "list_all host_char ''2001:db8::2''" by code_simp+
  have "list_all printable_endpoint ?es"
    using hosts by (auto simp: printable_endpoint_def intro: exI [of _ 5432] exI [of _ 5433] ports)
  then have "parseEndpoints (Join (map printEndpoint ?es) '','') ''5432'' = Inr ?es"
    by (intro parseEndpoints_roundtrip) simp_all
  moreover have "Join (map printEndpoint ?es) '','' = ''db1:5432,[2001:db8::2]:5433''" by code_simp
  ultimately show ?thesis by simp
qed

end
