(* ===== verification/Urls.thy ===== *)
theory Urls
  imports Json
begin

text \<open>
  What the entrypoints use of Go's \<open>net/url\<close> to write URLs: percent encoding in its modes,
  \<open>url.Values\<close> and a URL with credentials; and, as their specification, a reader of such URLs that
  follows \<open>url.Parse\<close> on what a URL of this shape can contain.
\<close>

section \<open>Percent encoding\<close>

datatype url_mode = EncodePath | EncodeUserPassword | EncodeQuery

definition is_alnum :: "char \<Rightarrow> bool" where
  "is_alnum c \<longleftrightarrow> is_digit c \<or> CHR ''A'' \<le> c \<and> c \<le> CHR ''Z'' \<or> CHR ''a'' \<le> c \<and> c \<le> CHR ''z''"

definition shouldEscape :: "url_mode \<Rightarrow> char \<Rightarrow> bool" where
  "shouldEscape mode c =
     (if is_alnum c \<or> List.member ''-_.~'' c then False
      else if List.member ''$&+,/:;=?@'' c then
        (case mode of
           EncodePath \<Rightarrow> c = CHR ''?''
         | EncodeUserPassword \<Rightarrow> List.member ''@/?:'' c
         | EncodeQuery \<Rightarrow> True)
      else True)"

definition upper_hex :: "nat \<Rightarrow> char" where
  "upper_hex d = (if d < 10 then char_of (48 + d) else char_of (55 + d))"

definition escape_char :: "url_mode \<Rightarrow> char \<Rightarrow> string" where
  "escape_char mode c =
     (if \<not> shouldEscape mode c then [c]
      else if c = CHR '' '' \<and> mode = EncodeQuery then ''+''
      else [CHR ''%'', upper_hex (of_char c div 16), upper_hex (of_char c mod 16)])"

definition url_escape :: "url_mode \<Rightarrow> string \<Rightarrow> string" where
  "url_escape mode s = concat (map (escape_char mode) s)"

text \<open>\<open>url.Values\<close> with one value per key, \<open>Values.Encode\<close> in the order of the keys.\<close>

type_synonym url_values = "(string \<times> string) list"

definition encode_values :: "url_values \<Rightarrow> string" where
  "encode_values values =
     Join (map (\<lambda>(k, v). url_escape EncodeQuery k @ ''='' @ url_escape EncodeQuery v) (sort_key fst values)) ''&''"

text \<open>\<open>URL.String\<close> for a URL with a user, a password and a host that needs no escaping.\<close>

definition url_string :: "string \<Rightarrow> string \<Rightarrow> string \<Rightarrow> string \<Rightarrow> string \<Rightarrow> string \<Rightarrow> string" where
  "url_string scheme user password host path query =
     scheme @ ''://'' @ url_escape EncodeUserPassword user @ '':'' @ url_escape EncodeUserPassword password @ ''@'' @
     host @ url_escape EncodePath path @ ''?'' @ query"

section \<open>Reading\<close>

fun url_unescape :: "bool \<Rightarrow> string \<Rightarrow> string option" where
  "url_unescape blanks [] = Some []"
| "url_unescape blanks (c # cs) =
     (if c = CHR ''%'' then
        (case cs of
           a # b # rest \<Rightarrow>
             (case (hex_val a, hex_val b) of
                (Some i, Some j) \<Rightarrow> map_option ((#) (char_of (16 * i + j))) (url_unescape blanks rest)
              | _ \<Rightarrow> None)
         | _ \<Rightarrow> None)
      else map_option ((#) (if blanks \<and> c = CHR ''+'' then CHR '' '' else c)) (url_unescape blanks cs))"

fun read_values :: "string list \<Rightarrow> url_values option" where
  "read_values [] = Some []"
| "read_values (part # parts) =
     (case Cut part CHR ''='' of
        (k, v, _) \<Rightarrow>
          (case (url_unescape True k, url_unescape True v, read_values parts) of
             (Some k, Some v, Some rest) \<Rightarrow> Some ((k, v) # rest)
           | _ \<Rightarrow> None))"

text \<open>The parts of a URL with credentials: user, password, host, path and query values.\<close>

definition read_url :: "string \<Rightarrow> string \<Rightarrow> (string \<times> string \<times> string \<times> string \<times> url_values) option" where
  "read_url scheme url =
     (case CutPrefix url (scheme @ ''://'') of
        None \<Rightarrow> None
      | Some r1 \<Rightarrow>
          (case Cut r1 CHR ''?'' of
             (r2, query, _) \<Rightarrow>
               (case Cut r2 CHR ''/'' of
                  (authority, path, _) \<Rightarrow>
                    (case Cut authority CHR ''@'' of
                       (userinfo, host, _) \<Rightarrow>
                         (case Cut userinfo CHR '':'' of
                            (user, password, _) \<Rightarrow>
                              (case (url_unescape False user, url_unescape False password, url_unescape False path,
                                     read_values (Split query CHR ''&'')) of
                                 (Some user, Some password, Some path, Some vs) \<Rightarrow> Some (user, password, host, path, vs)
                               | _ \<Rightarrow> None))))))"

section \<open>Round trips\<close>

lemma hex_val_upper: "d < 16 \<Longrightarrow> hex_val (upper_hex d) = Some d"
proof -
  have "\<forall>d \<in> set [0 ..< 16]. hex_val (upper_hex d) = Some d" by code_simp
  then show "d < 16 \<Longrightarrow> hex_val (upper_hex d) = Some d" by simp
qed

lemma upper_hex_unescaped: "d < 16 \<Longrightarrow> \<not> shouldEscape mode (upper_hex d)"
proof -
  have "\<forall>d \<in> set [0 ..< 16]. is_alnum (upper_hex d)" by code_simp
  then have "d < 16 \<Longrightarrow> is_alnum (upper_hex d)" by simp
  then show "d < 16 \<Longrightarrow> \<not> shouldEscape mode (upper_hex d)" by (simp add: shouldEscape_def)
qed

lemma nibbles:
  fixes c :: char
  shows "of_char c div 16 < (16 :: nat)" "char_of (16 * (of_char c div 16) + of_char c mod 16 :: nat) = c"
proof -
  have "(of_char c :: nat) < 256" using of_char_mod_256 [of c] by (metis mod_less_divisor zero_less_numeral)
  then show "of_char c div 16 < (16 :: nat)" by (simp add: less_mult_imp_div_less)
  show "char_of (16 * (of_char c div 16) + of_char c mod 16 :: nat) = c"
    by (simp only: mult_div_mod_eq char_of_char)
qed

lemma percent_escaped: "shouldEscape mode CHR ''%''" "shouldEscape EncodeQuery CHR ''+''"
  by (simp_all add: shouldEscape_def is_alnum_def is_digit_def)

lemma unescape_char:
  "url_unescape (mode = EncodeQuery) (escape_char mode c @ r) =
     map_option ((#) c) (url_unescape (mode = EncodeQuery) r)"
proof (cases "shouldEscape mode c")
  case False
  then have "c \<noteq> CHR ''%''" "\<not> (mode = EncodeQuery \<and> c = CHR ''+'')" using percent_escaped by auto
  with False show ?thesis by (auto simp: escape_char_def)
next
  case True
  then show ?thesis
    by (simp add: escape_char_def hex_val_upper nibbles)
qed

lemma unescape_escape: "url_unescape (mode = EncodeQuery) (url_escape mode s) = Some s"
  by (induction s) (simp_all add: url_escape_def unescape_char)

lemmas unescape_modes = unescape_escape [of EncodeQuery, simplified] unescape_escape [of EncodePath, simplified]
  unescape_escape [of EncodeUserPassword, simplified]

lemma escape_no:
  assumes "shouldEscape mode c" "c \<noteq> CHR ''%''" "c \<noteq> CHR ''+''"
  shows "c \<notin> set (url_escape mode s)"
proof -
  have "c \<notin> set (escape_char mode d)" for d
  proof -
    have "c \<noteq> upper_hex (of_char d div 16)" "c \<noteq> upper_hex (of_char d mod 16)"
      using assms(1) upper_hex_unescaped [of "of_char d div 16" mode] upper_hex_unescaped [of "of_char d mod 16" mode] nibbles(1) [of d]
      by auto
    with assms show ?thesis by (auto simp: escape_char_def)
  qed
  then show ?thesis by (simp add: url_escape_def)
qed

lemma escape_query_marks:
  "CHR ''='' \<notin> set (url_escape EncodeQuery s)" "CHR ''&'' \<notin> set (url_escape EncodeQuery s)"
  by (rule escape_no; code_simp)+

lemma escape_user_marks:
  "CHR ''@'' \<notin> set (url_escape EncodeUserPassword s)" "CHR ''/'' \<notin> set (url_escape EncodeUserPassword s)"
  "CHR ''?'' \<notin> set (url_escape EncodeUserPassword s)" "CHR '':'' \<notin> set (url_escape EncodeUserPassword s)"
  by (rule escape_no; code_simp)+

lemma escape_path_mark: "CHR ''?'' \<notin> set (url_escape EncodePath s)"
  by (rule escape_no; code_simp)

lemma read_values_encoded:
  "read_values (map (\<lambda>(k, v). url_escape EncodeQuery k @ ''='' @ url_escape EncodeQuery v) vs) = Some vs"
  by (induction vs) (auto simp: unescape_modes escape_query_marks)

lemma read_encode_values:
  assumes "vs \<noteq> []"
  shows "read_values (Split (encode_values vs) CHR ''&'') = Some (sort_key fst vs)"
proof -
  have "sort_key fst vs \<noteq> []" using assms by (metis length_0_conv length_sort)
  then have "Split (encode_values vs) CHR ''&'' =
      map (\<lambda>(k, v). url_escape EncodeQuery k @ ''='' @ url_escape EncodeQuery v) (sort_key fst vs)"
    unfolding encode_values_def
    by (intro Split_Join) (auto simp: escape_query_marks)
  then show ?thesis by (simp only: read_values_encoded)
qed

lemma escape_slash: "url_escape EncodePath (CHR ''/'' # s) = CHR ''/'' # url_escape EncodePath s"
proof -
  have "\<not> shouldEscape EncodePath CHR ''/''" by code_simp
  then show ?thesis by (simp add: url_escape_def escape_char_def)
qed

lemma read_url_string:
  assumes "vs \<noteq> []" "host = ''localhost''"
  shows "read_url scheme (url_string scheme user password host (CHR ''/'' # path) (encode_values vs)) =
    Some (user, password, host, path, sort_key fst vs)"
proof -
  let ?u = "url_escape EncodeUserPassword user" and ?w = "url_escape EncodeUserPassword password"
    and ?p = "url_escape EncodePath path"
  have 1: "CutPrefix (url_string scheme user password host (CHR ''/'' # path) (encode_values vs)) (scheme @ ''://'') =
      Some ((?u @ '':'' @ ?w @ ''@'' @ host @ ''/'' @ ?p) @ CHR ''?'' # encode_values vs)"
    by (simp add: url_string_def escape_slash)
  have 2: "Cut ((?u @ '':'' @ ?w @ ''@'' @ host @ ''/'' @ ?p) @ CHR ''?'' # encode_values vs) CHR ''?'' =
      (?u @ '':'' @ ?w @ ''@'' @ host @ ''/'' @ ?p, encode_values vs, True)"
    by (rule Cut_append) (simp add: escape_user_marks escape_path_mark assms(2))
  have 3: "Cut (?u @ '':'' @ ?w @ ''@'' @ host @ ''/'' @ ?p) CHR ''/'' = (?u @ '':'' @ ?w @ ''@'' @ host, ?p, True)"
    using Cut_append [of "CHR ''/''" "?u @ '':'' @ ?w @ ''@'' @ host" ?p] by (simp add: escape_user_marks assms(2))
  have 4: "Cut (?u @ '':'' @ ?w @ ''@'' @ host) CHR ''@'' = (?u @ '':'' @ ?w, host, True)"
    using Cut_append [of "CHR ''@''" "?u @ '':'' @ ?w" host] by (simp add: escape_user_marks)
  have 5: "Cut (?u @ '':'' @ ?w) CHR '':'' = (?u, ?w, True)"
    using Cut_append [of "CHR '':''" ?u ?w] by (simp add: escape_user_marks)
  show ?thesis
    by (simp only: read_url_def 1 2 3 4 5 option.case prod.case unescape_modes read_encode_values [OF assms(1)])
qed

end
