(* ===== verification/PostgreSQL.thy ===== *)
theory PostgreSQL
  imports Quoting Endpoints Urls Backend
begin

text \<open>
  The package \<open>internal/postgresql\<close> (\<open>connection.go\<close>, \<open>database.go\<close>, \<open>schema.go\<close>; the list of endpoints
  is in \<open>Endpoints\<close>): the connection string, the credentials and how the database is provisioned.
  The driver \<open>pgx\<close> is an argument: operations on the remote state and handles \<open>'h\<close>.  Logging and
  the deadlines of single connections are not modelled.
\<close>

section \<open>The driver\<close>

record 'o pgx_config =
  DefaultQueryExecMode :: string
  RuntimeParams :: "(string \<times> string) list"
  pgx_options :: 'o

record ('g, 'h, 'd) pgx_package =
  ParseConfig :: "string \<Rightarrow> 'g result"
  ConnectConfig :: "'g \<Rightarrow> ('d, 'h) eff"
  pgx_QueryRow :: "'h \<Rightarrow> string \<Rightarrow> string list \<Rightarrow> ('d, string option) eff"
  pgx_Exec :: "'h \<Rightarrow> string \<Rightarrow> string list \<Rightarrow> ('d, unit) eff"
  pgx_Close :: "'h \<Rightarrow> ('d, unit) eff"

text \<open>A query without a row is \<open>None\<close>.\<close>

definition pg_QueryString ::
  "('g, 'h, 'd) pgx_package \<Rightarrow> 'h \<Rightarrow> string \<Rightarrow> string list \<Rightarrow> ('d, string) eff" where
  "pg_QueryString pgx conn q args d =
     (case pgx_QueryRow pgx conn q args d of
        (Inl e, d') \<Rightarrow> (Inl e, d')
      | (Inr None, d') \<Rightarrow> (Inr [], d')
      | (Inr (Some v), d') \<Rightarrow> (Inr v, d'))"

definition pg_Exec :: "('g, 'h, 'd) pgx_package \<Rightarrow> 'h \<Rightarrow> string \<Rightarrow> string list \<Rightarrow> ('d, unit) eff" where
  "pg_Exec = pgx_Exec"

definition pg_Close :: "('g, 'h, 'd) pgx_package \<Rightarrow> 'h \<Rightarrow> ('d, unit) eff" where
  "pg_Close = pgx_Close"

definition pg_openDBSession :: "('g, 'h, 'd) pgx_package \<Rightarrow> 'g \<Rightarrow> ('d, 'h) eff" where
  "pg_openDBSession = ConnectConfig"

section \<open>Configuration\<close>

record PostgreSQL_DB =
  pg_tls :: DBTLSConfig
  pg_host :: string
  pg_port :: string
  pg_endpoints :: "endpoint list"
  pg_adminUser :: string
  pg_adminPass :: string
  pg_user :: string
  pg_password :: string
  pg_name :: string
  pg_schema :: string
  pg_implicitSearchPath :: bool
  pg_fromVault :: bool
  pg_resolveTLS :: "environment \<Rightarrow> DBTLSConfig result"

definition pg_newDB :: "(environment \<Rightarrow> DBTLSConfig result) \<Rightarrow> PostgreSQL_DB" where
  "pg_newDB resolveTLS =
     \<lparr>pg_tls = \<lparr>ConnectMode = [], CAFile = [], CertFile = [], KeyFile = []\<rparr>, pg_host = [], pg_port = [],
      pg_endpoints = [], pg_adminUser = [], pg_adminPass = [], pg_user = [], pg_password = [], pg_name = [],
      pg_schema = [], pg_implicitSearchPath = False, pg_fromVault = False, pg_resolveTLS = resolveTLS\<rparr>"

definition pg_NewForBackend :: PostgreSQL_DB where
  "pg_NewForBackend = pg_newDB ResolveServiceDBTLS"

definition pg_NewForFrontend :: PostgreSQL_DB where
  "pg_NewForFrontend = pg_newDB ResolveFrontendDBTLS"

definition pg_target :: "PostgreSQL_DB \<Rightarrow> (environment, PostgreSQL_DB) eff" where
  "pg_target db env =
     (let host = ValueOrDefault env ''DB_SERVER_HOST'' ''postgres-server'' in
      case ResolveDBPort ''5432'' env of
        (Inl e, env) \<Rightarrow> (Inl e, env)
      | (Inr port, env) \<Rightarrow>
          (let env = env_set env ''DB_SERVER_HOST'' host in
           case parseEndpoints host port of
             Inl e \<Rightarrow> (Inl (Wrapf ''invalid DB_SERVER_HOST %q: %w'' [host] e), env)
           | Inr endpoints \<Rightarrow>
               (let schema = ValueOrDefault env ''DB_SERVER_SCHEMA'' ''public'' in
                (Inr (db\<lparr>pg_host := host, pg_port := port, pg_endpoints := endpoints, pg_schema := schema\<rparr>),
                 env_set env ''DB_SERVER_SCHEMA'' schema))))"

definition pg_credentials ::
  "environment \<Rightarrow> string \<Rightarrow> Credentials option \<Rightarrow> PostgreSQL_DB \<Rightarrow> PostgreSQL_DB" where
  "pg_credentials env defaultDBName creds db =
     (let postgresUser = env_get env ''POSTGRES_USER''; postgresPassword = env_get env ''POSTGRES_PASSWORD'';
          db = db\<lparr>pg_adminUser := cmp_Or postgresUser ''postgres'', pg_adminPass := postgresPassword,
                  pg_user := cmp_Or postgresUser ''zabbix'', pg_password := cmp_Or postgresPassword ''zabbix''\<rparr>;
          db = (case creds of
                  None \<Rightarrow> db
                | Some c \<Rightarrow>
                    (let db = db\<lparr>pg_user := Username c, pg_password := Password c\<rparr> in
                     if postgresUser = [] \<and> postgresPassword = []
                     then db\<lparr>pg_adminUser := Username c, pg_adminPass := Password c\<rparr> else db)) in
      db\<lparr>pg_name := ValueOrDefaultNonEmpty env ''POSTGRES_DB'' defaultDBName,
         pg_implicitSearchPath :=
           EqualFold (ValueOrDefaultNonEmpty env ''POSTGRES_USE_IMPLICIT_SEARCH_PATH'' ''false'') ''true'',
         pg_fromVault := (creds \<noteq> None)\<rparr>)"

definition pg_Configure ::
  "('p, 'c, 'k, 'd) platform \<Rightarrow> string \<Rightarrow> PostgreSQL_DB \<Rightarrow> ('d machine, PostgreSQL_DB) run" where
  "pg_Configure pf defaultDBName db s =
     (case pg_resolveTLS db (environ s) of
        Inl e \<Rightarrow> Some (Inl e, s)
      | Inr tls \<Rightarrow>
          bind_run (once (on_environ (pg_target (db\<lparr>pg_tls := tls\<rparr>)))) (\<lambda>db.
          bind_run (\<lambda>s. on_remote_run
              (ResolveDBCredentials (pf_x509 pf) (pf_clock pf) (pf_http pf) (files s) (environ s)) s) (\<lambda>creds.
          once (\<lambda>s. (Inr (pg_credentials (environ s) defaultDBName creds db), s)))) s)"

definition pg_ExportEnv :: "PostgreSQL_DB \<Rightarrow> environment \<Rightarrow> environment" where
  "pg_ExportEnv db env =
     (let env = env_set env ''ZBX_DB_HOST'' (env_get env ''DB_SERVER_HOST'');
          env = (if env_get env ''DB_SERVER_PORT'' \<noteq> []
                 then env_set env ''ZBX_DB_PORT'' (env_get env ''DB_SERVER_PORT'') else env);
          env = env_set env ''ZBX_DB_NAME'' (pg_name db);
          env = (if pg_schema db \<noteq> [] then env_set env ''ZBX_DB_SCHEMA'' (pg_schema db) else env) in
      if pg_fromVault db then env_delete (env_delete env ''ZBX_DB_USER'') ''ZBX_DB_PASSWORD''
      else env_set (env_set env ''ZBX_DB_USER'' (pg_user db)) ''ZBX_DB_PASSWORD'' (pg_password db))"

section \<open>Connections\<close>

definition connectTimeoutSeconds :: int where "connectTimeoutSeconds = 10"
definition pg_reconnectInterval :: int where "pg_reconnectInterval = seconds 5"

definition pg_sslmode :: "string \<Rightarrow> string" where
  "pg_sslmode connectMode =
     (let mode = ReplaceAll connectMode ''_'' ''-'' in
      if mode = ''required'' then ''require'' else if mode = [] then ''disable'' else mode)"

definition pg_params :: "PostgreSQL_DB \<Rightarrow> url_values" where
  "pg_params db =
     (let set_value = (\<lambda>key v params. AList.update key v params);
          set_option = (\<lambda>(v, key) params. if v \<noteq> [] then AList.update key v params else params);
          params = set_value ''host'' (Join (map ep_host (pg_endpoints db)) '','') [];
          params = set_value ''port'' (Join (map ep_port (pg_endpoints db)) '','') params;
          params = set_value ''connect_timeout'' (Itoa connectTimeoutSeconds) params;
          params = (if 1 < length (pg_endpoints db)
                    then set_value ''target_session_attrs'' ''read-write'' params else params);
          params = set_value ''sslmode'' (pg_sslmode (ConnectMode (pg_tls db))) params in
      fold set_option
        [(CAFile (pg_tls db), ''sslrootcert''), (CertFile (pg_tls db), ''sslcert''), (KeyFile (pg_tls db), ''sslkey'')]
        params)"

definition pg_connURL :: "PostgreSQL_DB \<Rightarrow> string \<Rightarrow> string \<Rightarrow> string \<Rightarrow> string" where
  "pg_connURL db dbName user password =
     url_string ''postgres'' user password ''localhost'' (''/'' @ dbName) (encode_values (pg_params db))"

definition pg_connConfig ::
  "('o pgx_config, 'h, 'd) pgx_package \<Rightarrow> PostgreSQL_DB \<Rightarrow> string \<Rightarrow> string \<Rightarrow> string \<Rightarrow> 'o pgx_config result" where
  "pg_connConfig pgx db dbName user password =
     bind_res (wrap_res ''configure PostgreSQL connection: %w'' [] (ParseConfig pgx (pg_connURL db dbName user password)))
       (\<lambda>config.
        let config = config\<lparr>DefaultQueryExecMode := ''QueryExecModeSimpleProtocol''\<rparr> in
        Inr (if \<not> pg_implicitSearchPath db \<and> pg_schema db \<noteq> []
             then config\<lparr>RuntimeParams := AList.update ''search_path'' (pg_schema db) (RuntimeParams config)\<rparr>
             else config))"

definition pg_connect ::
  "('o pgx_config, 'h, 'd) pgx_package \<Rightarrow> PostgreSQL_DB \<Rightarrow> string \<Rightarrow> string \<Rightarrow> string \<Rightarrow> ('d, 'h) eff" where
  "pg_connect pgx db dbName user password d =
     (case pg_connConfig pgx db dbName user password of
        Inl e \<Rightarrow> (Inl (Stop e), d)
      | Inr config \<Rightarrow> pg_openDBSession pgx config d)"

definition pg_connectTarget ::
  "('o pgx_config, 'h, 'd) pgx_package \<Rightarrow> PostgreSQL_DB \<Rightarrow> string \<Rightarrow> string \<Rightarrow> ('d, 'h) eff" where
  "pg_connectTarget pgx db = pg_connect pgx db (pg_name db)"

text \<open>One attempt: the database of the user, then the target.\<close>

definition pg_attempt ::
  "('o pgx_config, 'h, 'd) pgx_package \<Rightarrow> PostgreSQL_DB \<Rightarrow> string \<Rightarrow> string \<Rightarrow> ('d, 'h) eff" where
  "pg_attempt pgx db user password d =
     (case pg_connect pgx db user user password d of
        (Inr sess, d1) \<Rightarrow> (Inr sess, d1)
      | (Inl _, d1) \<Rightarrow> pg_connect pgx db (pg_name db) user password d1)"

definition pg_waitForConnection ::
  "('p, 'c, 'k, 'd) platform \<Rightarrow> ('o pgx_config, 'h, 'd) pgx_package \<Rightarrow> PostgreSQL_DB \<Rightarrow> string \<Rightarrow> string \<Rightarrow>
   ('d machine, 'h) run" where
  "pg_waitForConnection pf pgx db user password =
     on_remote_run (retry_remote (pf_clock pf) 0 pg_reconnectInterval (pg_attempt pgx db user password))"

definition pg_Wait ::
  "('p, 'c, 'k, 'd) platform \<Rightarrow> ('o pgx_config, 'h, 'd) pgx_package \<Rightarrow> PostgreSQL_DB \<Rightarrow> ('d machine, unit) run" where
  "pg_Wait pf pgx db =
     bind_run (pg_waitForConnection pf pgx db (pg_user db) (pg_password db)) (\<lambda>sess.
       once (on_remote (wrap_eff ''close PostgreSQL connection: %w'' [] (pg_Close pgx sess))))"

section \<open>The schema\<close>

definition pg_quoteIdentifier :: "string \<Rightarrow> string" where
  "pg_quoteIdentifier v = [CHR 0x22] @ ReplaceAll v [CHR 0x22] [CHR 0x22, CHR 0x22] @ [CHR 0x22]"

definition pg_createDatabase :: "PostgreSQL_DB \<Rightarrow> string" where
  "pg_createDatabase db =
     ''CREATE DATABASE '' @ pg_quoteIdentifier (pg_name db) @ '' OWNER '' @ pg_quoteIdentifier (pg_user db) @
     '' LC_CTYPE '' @ [CHR 0x27] @ ''en_US.utf8'' @ [CHR 0x27] @ '' LC_COLLATE '' @ [CHR 0x27] @ ''en_US.utf8'' @ [CHR 0x27]"

definition pg_createDB ::
  "('g, 'h, 'd) pgx_package \<Rightarrow> PostgreSQL_DB \<Rightarrow> 'h \<Rightarrow> ('d, unit) eff" where
  "pg_createDB pgx db sess =
     bind_eff (pg_QueryString pgx sess ''SELECT 1::text FROM pg_database WHERE datname=$1'' [pg_name db]) (\<lambda>exists.
     if exists \<noteq> [] then ret ()
     else wrap_eff ''create PostgreSQL database: %w'' [] (pg_Exec pgx sess (pg_createDatabase db) []))"

definition pg_createNamespace ::
  "('g, 'h, 'd) pgx_package \<Rightarrow> PostgreSQL_DB \<Rightarrow> 'h \<Rightarrow> ('d, unit) eff" where
  "pg_createNamespace pgx db sess =
     (if pg_schema db = [] then ret ()
      else
        bind_eff (pg_QueryString pgx sess ''SELECT 1::text FROM pg_namespace WHERE nspname=$1'' [pg_schema db]) (\<lambda>exists.
        if exists = []
        then pg_Exec pgx sess
               (''CREATE SCHEMA '' @ pg_quoteIdentifier (pg_schema db) @ '' AUTHORIZATION '' @ pg_quoteIdentifier (pg_user db)) []
        else ret ()))"

definition pg_executeSQLFile ::
  "('p, 'c, 'k, 'd) platform \<Rightarrow> ('o pgx_config, 'h, 'd) pgx_package \<Rightarrow> PostgreSQL_DB \<Rightarrow> string \<Rightarrow>
   ('d machine, unit) run" where
  "pg_executeSQLFile pf pgx db path s =
     (case ReadSQLFile (pf_gunzip pf) (files s) path of
        Inl e \<Rightarrow> Some (Inl e, s)
      | Inr data \<Rightarrow>
          bind_run (once (on_remote (wrap_eff ''connect to PostgreSQL database %s: %w'' [pg_name db]
                                       (pg_connectTarget pgx db (pg_user db) (pg_password db)))))
            (\<lambda>sess. defer_run (on_remote (pg_Close pgx sess))
               (once (on_remote (wrap_eff ''execute SQL script %s: %w'' [path] (pg_Exec pgx sess data []))))) s)"

definition pg_tableQuery :: "PostgreSQL_DB \<Rightarrow> string" where
  "pg_tableQuery db =
     ''SELECT 1::text FROM pg_catalog.pg_class c JOIN pg_catalog.pg_namespace n ON n.oid=c.relnamespace WHERE c.relname='' @
     [CHR 0x27] @ ''dbversion'' @ [CHR 0x27] @ (if pg_schema db \<noteq> [] then '' AND n.nspname = $1'' else [])"

definition pg_versionQuery :: "PostgreSQL_DB \<Rightarrow> string" where
  "pg_versionQuery db =
     ''SELECT mandatory::text FROM '' @
     (if pg_schema db \<noteq> [] then pg_quoteIdentifier (pg_schema db) @ ''.dbversion'' else ''dbversion'')"

definition pg_version ::
  "('g, 'h, 'd) pgx_package \<Rightarrow> PostgreSQL_DB \<Rightarrow> 'h \<Rightarrow> ('d, string) eff" where
  "pg_version pgx db sess =
     bind_eff (pg_QueryString pgx sess (pg_tableQuery db) (if pg_schema db \<noteq> [] then [pg_schema db] else [])) (\<lambda>exists.
     if exists = [] then ret [] else pg_QueryString pgx sess (pg_versionQuery db) [])"

definition pg_importSchema ::
  "('p, 'c, 'k, 'd) platform \<Rightarrow> ('o pgx_config, 'h, 'd) pgx_package \<Rightarrow> PostgreSQL_DB \<Rightarrow> 'h \<Rightarrow> string \<Rightarrow> string \<Rightarrow>
   ('d machine, unit) run" where
  "pg_importSchema pf pgx db sess schemaFile timescaleFile =
     bind_run (pg_executeSQLFile pf pgx db schemaFile) (\<lambda>_.
     bind_run (\<lambda>s. if EqualFold (env_get (environ s) ''ENABLE_TIMESCALEDB'') ''true''
               then bind_run (once (on_remote (pg_Exec pgx sess ''CREATE EXTENSION IF NOT EXISTS timescaledb CASCADE'' [])))
                      (\<lambda>_. pg_executeSQLFile pf pgx db timescaleFile) s
               else Some (Inr (), s)) (\<lambda>_.
     RunAdditionalSQLScripts (pg_executeSQLFile pf pgx db)))"

definition pg_createSchema ::
  "('p, 'c, 'k, 'd) platform \<Rightarrow> ('o pgx_config, 'h, 'd) pgx_package \<Rightarrow> PostgreSQL_DB \<Rightarrow> string \<Rightarrow> string \<Rightarrow>
   ('d machine, unit) run" where
  "pg_createSchema pf pgx db schemaFile timescaleFile =
     bind_run (once (on_remote (pg_connectTarget pgx db (pg_adminUser db) (pg_adminPass db)))) (\<lambda>sess.
     defer_run (on_remote (pg_Close pgx sess))
       (bind_run (once (on_remote (pg_createNamespace pgx db sess))) (\<lambda>_.
        bind_run (once (on_remote (pg_version pgx db sess))) (\<lambda>version.
        if version \<noteq> [] then once (ret ())
        else pg_importSchema pf pgx db sess schemaFile timescaleFile))))"

definition pg_Prepare ::
  "('p, 'c, 'k, 'd) platform \<Rightarrow> ('o pgx_config, 'h, 'd) pgx_package \<Rightarrow> PostgreSQL_DB \<Rightarrow> string \<Rightarrow> string \<Rightarrow>
   ('d machine, unit) run" where
  "pg_Prepare pf pgx db schemaFile timescaleFile =
     bind_run (pg_waitForConnection pf pgx db (pg_adminUser db) (pg_adminPass db)) (\<lambda>sess.
     bind_run (defer_run (on_remote (pg_Close pgx sess)) (once (on_remote (pg_createDB pgx db sess)))) (\<lambda>_.
     pg_createSchema pf pgx db schemaFile timescaleFile))"

section \<open>The connection string\<close>

lemma map_of_sort_key: "distinct (map fst xs) \<Longrightarrow> map_of (sort_key fst xs) = map_of xs"
  by (rule map_of_inject_set [THEN iffD2]) (simp_all add: distinct_map)

lemma distinct_if:
  "distinct (map fst xs) \<Longrightarrow> distinct (map fst ys) \<Longrightarrow> distinct (map fst (if c then xs else ys))"
  by simp

lemma pg_params_distinct: "distinct (map fst (pg_params db))"
  unfolding pg_params_def Let_def by (simp only: fold.simps prod.case comp_apply id_apply) (intro distinct_if distinct_update, simp_all)

lemma pg_params_nonempty: "pg_params db \<noteq> []"
  unfolding pg_params_def Let_def by (simp only: fold.simps prod.case comp_apply id_apply) (simp add: update_nonempty)

lemma map_of_update: "map_of (AList.update k v xs) q = (if q = k then Some v else map_of xs q)"
  by (simp add: AList.update_conv')

lemma map_of_if: "map_of (if c then xs else ys) q = (if c then map_of xs q else map_of ys q)"
  by simp

lemma pg_params_get:
  "map_of (pg_params db) ''host'' = Some (Join (map ep_host (pg_endpoints db)) '','')"
  "map_of (pg_params db) ''port'' = Some (Join (map ep_port (pg_endpoints db)) '','')"
  "map_of (pg_params db) ''sslmode'' = Some (pg_sslmode (ConnectMode (pg_tls db)))"
  "map_of (pg_params db) ''sslrootcert'' = (if CAFile (pg_tls db) = [] then None else Some (CAFile (pg_tls db)))"
  "map_of (pg_params db) ''target_session_attrs'' = (if length (pg_endpoints db) \<le> 1 then None else Some ''read-write'')"
  unfolding pg_params_def Let_def
  by (simp only: fold.simps prod.case comp_apply id_apply map_of_if map_of_update list.inject char.inject
      list.distinct simp_thms if_True if_False if_cancel map_of.simps, simp)+


section \<open>Statements\<close>

interpretation double_quote: quoting pg_quoteIdentifier "read_quoted (CHR 0x22)" "other_mark (CHR 0x22)"
proof -
  have eq: "pg_quoteIdentifier = double_quoted (CHR 0x22)"
    by (simp add: fun_eq_iff pg_quoteIdentifier_def double_quoted_def)
  show "quoting pg_quoteIdentifier (read_quoted (CHR 0x22)) (other_mark (CHR 0x22))"
    unfolding eq by (rule quoting_doubled)
qed

text \<open>The names in \<open>CREATE DATABASE\<close> are exactly the configured ones.\<close>

theorem pg_createDatabase_inject:
  "pg_createDatabase db = pg_createDatabase db' \<longleftrightarrow> pg_name db = pg_name db' \<and> pg_user db = pg_user db'"
proof
  assume same: "pg_createDatabase db = pg_createDatabase db'"
  have mark: "other_mark (CHR 0x22) ('' OWNER '' @ r)" "other_mark (CHR 0x22) ('' LC_CTYPE '' @ r)" for r
    by (simp_all add: other_mark_def HasPrefix_def)
  note 1 = double_quote.statement_inject [OF mark(1) mark(1) same [unfolded pg_createDatabase_def]]
  note 2 = double_quote.statement_inject [OF mark(2) mark(2) conjunct2 [OF 1]]
  show "pg_name db = pg_name db' \<and> pg_user db = pg_user db'"
    using 1 2 by blast
qed (simp add: pg_createDatabase_def)

section \<open>Provisioning\<close>

text \<open>Provisioning without any import: the database, its name space and a look at the version.\<close>

definition pg_provision ::
  "('p, 'c, 'k, 'd) platform \<Rightarrow> ('o pgx_config, 'h, 'd) pgx_package \<Rightarrow> PostgreSQL_DB \<Rightarrow> ('d machine, unit) run" where
  "pg_provision pf pgx db =
     bind_run (pg_waitForConnection pf pgx db (pg_adminUser db) (pg_adminPass db)) (\<lambda>sess.
     bind_run (defer_run (on_remote (pg_Close pgx sess)) (once (on_remote (pg_createDB pgx db sess)))) (\<lambda>_.
     bind_run (once (on_remote (pg_connectTarget pgx db (pg_adminUser db) (pg_adminPass db)))) (\<lambda>sess.
     defer_run (on_remote (pg_Close pgx sess))
       (bind_run (once (on_remote (pg_createNamespace pgx db sess))) (\<lambda>_.
        bind_run (once (on_remote (pg_version pgx db sess))) (\<lambda>_. once (ret ())))))))"

text \<open>A PostgreSQL database that has its schema is never touched by an import: when the version
  table answers with a version, the run reads no script and opens no session as the service's user;
  a look-up that fails imports nothing either.\<close>

theorem pg_Prepare_installed:
  assumes "\<And>sess d v d'. pg_version pgx db sess d = (Inr v, d') \<Longrightarrow> v \<noteq> []"
  shows "pg_Prepare pf pgx db schemaFile timescaleFile = pg_provision pf pgx db"
proof -
  have "bind_run (once (on_remote (pg_version pgx db sess))) (\<lambda>version.
        if version \<noteq> [] then once (ret ()) else pg_importSchema pf pgx db sess schemaFile timescaleFile) t =
      bind_run (once (on_remote (pg_version pgx db sess))) (\<lambda>_. once (ret ())) t" for sess t
  proof (cases "pg_version pgx db sess (remote t)")
    case (Pair r d)
    then show ?thesis
      using assms [of sess "remote t"] by (cases r) (simp_all add: bind_run_def on_remote_def)
  qed
  then have version: "bind_run (once (on_remote (pg_version pgx db sess))) (\<lambda>version.
        if version \<noteq> [] then once (ret ()) else pg_importSchema pf pgx db sess schemaFile timescaleFile) =
      bind_run (once (on_remote (pg_version pgx db sess))) (\<lambda>_. once (ret ()))" for sess
    by (rule ext)
  show ?thesis by (simp only: pg_Prepare_def pg_createSchema_def pg_provision_def version)
qed

section \<open>Credentials\<close>

lemma pg_target_get:
  assumes "pg_target db env = (r, env')" "name \<notin> {''DB_SERVER_PORT'', ''DB_SERVER_HOST'', ''DB_SERVER_SCHEMA''}"
  shows "env_get env' name = env_get env name"
  using assms
  by (auto simp: pg_target_def Let_def ResolveDBPort_def env_simps split: if_splits option.splits sum.splits prod.splits)

lemma pg_ExportEnv_cong:
  assumes "pg_name db1 = pg_name db2" "pg_schema db1 = pg_schema db2" "pg_fromVault db1" "pg_fromVault db2"
  shows "pg_ExportEnv db1 env = pg_ExportEnv db2 env"
  unfolding pg_ExportEnv_def assms(1,2) by (simp only: assms(3,4) if_True)

lemma pg_credentials_fields:
  "pg_name (pg_credentials env name creds db) = ValueOrDefaultNonEmpty env ''POSTGRES_DB'' name"
  "pg_schema (pg_credentials env name creds db) = pg_schema db"
  "pg_fromVault (pg_credentials env name creds db) \<longleftrightarrow> creds \<noteq> None"
  by (simp_all add: pg_credentials_def Let_def split: option.split)

interpretation pg: vault_backend "\<lambda>tls. pg_target (db\<lparr>pg_tls := tls\<rparr>)"
  "\<lambda>env name creds db. Inr (pg_credentials env name creds db)" pg_ExportEnv for db
proof unfold_locales
  show "env_get env' ''ZBX_VAULTDBPATH'' = env_get env ''ZBX_VAULTDBPATH''"
    if "pg_target (db\<lparr>pg_tls := tls\<rparr>) env = (r, env')" for tls env r env'
    using pg_target_get [OF that] by simp
  show "pg_ExportEnv db1 env = pg_ExportEnv db2 env"
    if "Inr (pg_credentials env name (Some c1) db) = Inr db1" "Inr (pg_credentials env name (Some c2) db) = Inr db2"
    for env name c1 c2 db db1 db2
    using that by (intro pg_ExportEnv_cong) (auto simp: pg_credentials_fields)
qed

lemma pg_Configure_db:
  "pg_Configure pf name db =
     configure_db pf (pg_resolveTLS db) (\<lambda>tls. pg_target (db\<lparr>pg_tls := tls\<rparr>))
       (\<lambda>env name creds db. Inr (pg_credentials env name creds db)) name"
  by (simp add: fun_eq_iff pg_Configure_def configure_db_def)

text \<open>Credentials that come from Vault stay in the entrypoint here too.\<close>

theorem pg_Vault_private:
  assumes "pg_Configure pf defaultDBName db s = Some (Inr db1, s1)"
    and "pg_Configure pf' defaultDBName db s = Some (Inr db2, s2)"
    and "env_get (environ s) ''ZBX_VAULTDBPATH'' \<noteq> []"
  shows "pg_ExportEnv db1 (environ s1) = pg_ExportEnv db2 (environ s2)"
  by (rule pg.kept [OF assms(1,2) [unfolded pg_Configure_db] assms(3)])

section \<open>Samples\<close>

definition sample_pgx :: "(unit pgx_config, nat, nat) pgx_package" where
  "sample_pgx =
     \<lparr>ParseConfig = (\<lambda>_. Inr \<lparr>DefaultQueryExecMode = [], RuntimeParams = [], pgx_options = ()\<rparr>),
      ConnectConfig = (\<lambda>_ d. (Inr 1, d)), pgx_QueryRow = (\<lambda>_ _ _ d. (Inr (Some ''7000000''), Suc d)),
      pgx_Exec = (\<lambda>_ _ _ d. (Inr (), Suc d)), pgx_Close = (\<lambda>_ d. (Inr (), d))\<rparr>"

lemma pg_Prepare_installed_witness:
  "\<exists>pf :: (unit, unit, unit, nat) platform.
     pg_Prepare pf sample_pgx pg_NewForBackend ''create.sql.gz'' ''timescaledb.sql'' = pg_provision pf sample_pgx pg_NewForBackend"
proof (rule exI, rule pg_Prepare_installed)
  show "v \<noteq> []" if "pg_version sample_pgx pg_NewForBackend sess d = (Inr v, d')" for sess d v d'
    using that by (auto simp: pg_version_def pg_QueryString_def sample_pgx_def bind_eff_Inr)
qed

end
