(* ===== verification/HttpApi.thy ===== *)
theory HttpApi
  imports Vault Urls
begin

text \<open>
  The package \<open>internal/httpapi\<close>: bounded requests of the schema preparation, and error texts without
  the password.  Go's \<open>net/http\<close> is an operation on the remote state that depends on the settings of
  the client.
\<close>

section \<open>Definitions\<close>

text \<open>What a client is configured with: TLS, the address it binds to, and that it follows no
  redirects.\<close>

record ('p, 'c, 'k) api_client =
  client_tls :: "('p, 'c, 'k) tls_config option"
  client_source :: string
  client_redirects :: bool

record api_request = http_request +
  BasicAuth :: "(string \<times> string) option"

record api_reply =
  reply_status :: int
  reply_header :: "string \<Rightarrow> string"
  reply_body :: "string \<times> error option"

record api_response =
  resp_StatusCode :: int
  resp_Header :: "string \<Rightarrow> string"
  resp_Body :: string

record ('t, 'd) api =
  api_request_error :: "string \<Rightarrow> string \<Rightarrow> error option"
  api_send :: "'t \<Rightarrow> api_request \<Rightarrow> ('d, api_reply) eff"

definition api_NewClient :: "('p, 'c, 'k) api_client" where
  "api_NewClient = \<lparr>client_tls = None, client_source = [], client_redirects = False\<rparr>"

definition maxResponse :: nat where "maxResponse = 2 ^ 20"

definition api_Do :: "('t, 'd) api \<Rightarrow> 't \<Rightarrow> api_request \<Rightarrow> ('d, api_response) eff" where
  "api_Do http client req d =
     (case api_send http client req d of
        (Inl e, d') \<Rightarrow> (Inl (Wrapf ''request: %w'' [] e), d')
      | (Inr resp, d') \<Rightarrow>
          (case read_limited (maxResponse + 1) (reply_body resp) of
             Inl e \<Rightarrow> (Inl e, d')
           | Inr data \<Rightarrow>
               (if maxResponse < length data then Inl (Errorf ''response exceeds 1 MiB'' [])
                else Inr \<lparr>resp_StatusCode = reply_status resp, resp_Header = reply_header resp, resp_Body = data\<rparr>, d')))"

definition ErrorMessage :: "string \<Rightarrow> string \<Rightarrow> string" where
  "ErrorMessage body secret =
     (let message = TrimSpace body;
          message = (if secret \<noteq> [] then ReplaceAll message secret ''[redacted]'' else message) in
      if 2048 < length message then take 2048 message else message)"

section \<open>URLs of any shape\<close>

text \<open>The fields of Go's \<open>url.URL\<close> that the program reads or changes; parsing and printing URLs that
  the user has written are operations of \<open>net/url\<close>.\<close>

record 'z url =
  url_Scheme :: string
  url_User :: "(string \<times> string option) option"
  url_RawQuery :: string
  url_Fragment :: string
  url_ForceQuery :: bool
  url_rest :: 'z

type_synonym query_values = "(string \<times> string list) list"

record 'z url_package =
  url_Parse :: "string \<Rightarrow> 'z url result"
  url_Hostname :: "'z url \<Rightarrow> string"
  url_Query :: "'z url \<Rightarrow> query_values"
  url_String :: "'z url \<Rightarrow> string"

definition encode_query :: "query_values \<Rightarrow> string" where
  "encode_query q =
     Join (concat (map (\<lambda>(k, vs). map (\<lambda>v. url_escape EncodeQuery k @ ''='' @ url_escape EncodeQuery v) vs)
       (sort_key fst q))) ''&''"

definition is_endpoint :: "'z url_package \<Rightarrow> 'z url \<Rightarrow> bool" where
  "is_endpoint urls u \<longleftrightarrow> url_Hostname urls u \<noteq> [] \<and> (url_Scheme u = ''http'' \<or> url_Scheme u = ''https'')"

section \<open>The platform of the storage packages\<close>

text \<open>A finished command: its output, its error and that of the context.\<close>

record command_output =
  cmd_stdout :: string
  cmd_stderr :: string
  cmd_error :: "error option"
  cmd_ctx :: "error option"

text \<open>Besides what the database packages need: the HTTP client, URLs, \<open>net.ParseIP\<close>, commands with
  an input, the schema files embedded in the binaries and the text of a \<open>float64\<close> that was read
  from a JSON number (\<open>strconv.FormatFloat\<close> without exponent and the form of \<open>json.Marshal\<close>).\<close>

record ('p, 'c, 'k, 'd, 'z) storage_platform = "('p, 'c, 'k, 'd) platform" +
  st_api :: "(('p, 'c, 'k) api_client, 'd) api"
  st_urls :: "'z url_package"
  st_ParseIP :: "string \<Rightarrow> bool"
  st_command :: "string list \<Rightarrow> string \<Rightarrow> 'd \<Rightarrow> command_output \<times> 'd"
  st_file :: "string \<Rightarrow> string result"
  st_float :: "string \<Rightarrow> string"
  st_json_float :: "string \<Rightarrow> string"

section \<open>Requests\<close>

lemma preserves_api_Do:
  assumes "preserves P (api_send api client req)"
  shows "preserves P (api_Do api client req)"
proof (rule preservesI)
  show "P d'" if "P d" "api_Do api client req d = (r, d')" for d r d'
    using preserves_snd [OF assms that(1)] that(2) by (auto simp: api_Do_def split: prod.splits sum.splits)
qed

section \<open>Redaction\<close>

text \<open>Text that replaces a pattern with something that shares no character with it does not
  contain the pattern any more.\<close>

lemma sublist_appendD:
  assumes "sublist (c # cs) (a @ b)" "set a \<inter> set (c # cs) = {}"
  shows "sublist (c # cs) b"
proof -
  from assms(1) consider "sublist (c # cs) a" | "sublist (c # cs) b"
    | x y where "c # cs = x @ y" "suffix x a" "prefix y b"
    by (auto simp: sublist_append)
  then show ?thesis
  proof cases
    case 1
    then have "set (c # cs) \<subseteq> set a" by (rule set_mono_sublist)
    with assms(2) show ?thesis by auto
  next
    case 3
    have "set x \<subseteq> set a" using 3(2) by (auto simp: suffix_def)
    moreover have "set x \<subseteq> set (c # cs)" using 3(1) by auto
    ultimately have "x = []" using assms(2) by (cases x) auto
    with 3 show ?thesis by (simp add: prefix_imp_sublist)
  qed
qed

lemma prefix_ReplaceAll:
  assumes "prefix cs (ReplaceAll s (c # cs') new)" "set new \<inter> set cs = {}" "new \<noteq> []"
  shows "prefix cs s"
  using assms
proof (induction s arbitrary: cs)
  case (Cons x xs)
  show ?case
  proof (cases "prefix (c # cs') (x # xs)")
    case True
    with Cons.prems have "prefix cs (new @ ReplaceAll (drop (length (c # cs')) (x # xs)) (c # cs') new)" by simp
    then show ?thesis using Cons.prems(2,3) by (cases cs; cases new) auto
  next
    case False
    then have eq: "ReplaceAll (x # xs) (c # cs') new = x # ReplaceAll xs (c # cs') new"
      by (simp only: ReplaceAll.simps list.distinct if_False)
    show ?thesis
    proof (cases cs)
      case (Cons d ds)
      with Cons.prems eq have "d = x" "prefix ds (ReplaceAll xs (c # cs') new)" "set new \<inter> set ds = {}" by auto
      with Cons.IH [of ds] Cons.prems(3) Cons show ?thesis by simp
    qed simp
  qed
qed simp

lemma ReplaceAll_removes:
  assumes "set new \<inter> set old = {}" "old \<noteq> []" "new \<noteq> []"
  shows "\<not> sublist old (ReplaceAll s old new)"
proof -
  obtain c cs where old: "old = c # cs" using assms(2) by (cases old) auto
  note disjoint = assms(1) [unfolded old]
  have "\<not> sublist (c # cs) (ReplaceAll s (c # cs) new)"
  proof (induction s rule: length_induct)
    case (1 s)
    show ?case
    proof (cases s)
      case (Cons x xs)
      show ?thesis
      proof (cases "prefix (c # cs) (x # xs)")
        case True
        have "\<not> sublist (c # cs) (ReplaceAll (drop (length (c # cs)) (x # xs)) (c # cs) new)"
          using 1 Cons by (auto simp del: ReplaceAll.simps)
        with True sublist_appendD [OF _ disjoint] show ?thesis by (auto simp: Cons)
      next
        case False
        have "\<not> sublist (c # cs) (ReplaceAll xs (c # cs) new)"
          using 1 Cons by (auto simp del: ReplaceAll.simps)
        moreover have "\<not> prefix (c # cs) (x # ReplaceAll xs (c # cs) new)"
          using False prefix_ReplaceAll [of cs xs c cs new] disjoint assms(3) by auto
        moreover have "ReplaceAll (x # xs) (c # cs) new = x # ReplaceAll xs (c # cs) new"
          using False by (simp only: ReplaceAll.simps list.distinct if_False)
        ultimately show ?thesis by (simp add: Cons sublist_Cons_right del: ReplaceAll.simps)
      qed
    qed simp
  qed
  then show ?thesis by (simp add: old)
qed



section \<open>A platform to try the storage packages on\<close>

definition sample_urls :: "unit url_package" where
  "sample_urls =
     \<lparr>url_Parse = (\<lambda>u. if HasPrefix u ''https://''
                        then Inr \<lparr>url_Scheme = ''https'', url_User = None, url_RawQuery = [], url_Fragment = [],
                                  url_ForceQuery = False, url_rest = ()\<rparr>
                        else Inl (SysError ''url'')),
      url_Hostname = (\<lambda>_. ''storage''), url_Query = (\<lambda>_. []), url_String = (\<lambda>u. ''https://storage?'' @ url_RawQuery u)\<rparr>"

definition sample_storage ::
  "((unit, unit, unit) api_client, 'd) api \<Rightarrow> (string \<Rightarrow> string result) \<Rightarrow> (unit, unit, unit, 'd, unit) storage_platform" where
  "sample_storage api schemas =
     \<lparr>pf_x509 = sample_x509, pf_clock = quiet_runtime,
      pf_http = \<lparr>request_error = (\<lambda>_ _. None), http_do = (\<lambda>_ _. raise (SysError ''no vault''))\<rparr>, pf_gunzip = Inr,
      st_api = api, st_urls = sample_urls, st_ParseIP = (\<lambda>_. True),
      st_command = (\<lambda>_ _ d. (\<lparr>cmd_stdout = [], cmd_stderr = [], cmd_error = None, cmd_ctx = None\<rparr>, d)),
      st_file = schemas, st_float = id, st_json_float = id\<rparr>"

end
