(* ===== verification/ClickHouse.thy ===== *)
theory ClickHouse
  imports HttpApi Quoting
begin

text \<open>
  The package \<open>internal/clickhouse\<close> (\<open>client.go\<close>, \<open>schema.go\<close>): the HTTP client of ClickHouse and the
  preparation of the history and telemetry schemas on one server or on every replica of a cluster.
  Deadlines and logging are not modelled.
\<close>

section \<open>The client\<close>

record Connection =
  conn_URL :: string
  conn_Username :: string
  conn_Password :: string
  conn_SourceIP :: string
  conn_CADirectory :: string
  conn_CertFile :: string
  conn_KeyFile :: string
  conn_KeyPassword :: string
  conn_VerifyPeer :: bool
  conn_VerifyHost :: bool

record ('p, 'c, 'k) ch_client =
  ch_http :: "('p, 'c, 'k) api_client"
  ch_endpoint :: string
  ch_clusterEndpoint :: string
  ch_connection :: Connection

definition distributedDDLTimeout :: int where "distributedDDLTimeout = seconds 180"

definition readPrivateKey ::
  "('p, 'c, 'k, 'd, 'z) storage_platform \<Rightarrow> filesystem \<Rightarrow> string \<Rightarrow> string \<Rightarrow> ('d, string) eff" where
  "readPrivateKey pf fs path password d =
     (if password = [] then (os_ReadFile fs path, d)
      else
        (case st_command pf [''openssl'', ''pkey'', ''-in'', path, ''-passin'', ''stdin''] (password @ [CHR 0x0A]) d of
           (out, d') \<Rightarrow>
             (case cmd_ctx out of
                Some e \<Rightarrow> (Inl (Wrapf ''openssl pkey: %w'' [] e), d')
              | None \<Rightarrow>
                  (case cmd_error out of
                     Some e \<Rightarrow>
                       (let message = TrimSpace (cmd_stderr out) in
                        (Inl (if message \<noteq> [] then Wrapf ''openssl pkey: %w: %s'' [message] e
                              else Wrapf ''openssl pkey: %w'' [] e), d'))
                   | None \<Rightarrow> (Inr (cmd_stdout out), d')))))"

text \<open>The verification of a connection that is not the default one; indexing the certificates of a
  server that sent none is a run-time error.\<close>

definition ch_verifyConnection ::
  "('p, 'c, 'k) x509 \<Rightarrow> Connection \<Rightarrow> string \<Rightarrow> 'p option \<Rightarrow> 'c list \<Rightarrow> unit result" where
  "ch_verifyConnection x conn hostname roots certs =
     bind_res (if conn_VerifyPeer conn
               then (case roots of None \<Rightarrow> Inr () | Some pool \<Rightarrow> VerifyCertificateChain x certs pool) else Inr ()) (\<lambda>_.
     if conn_VerifyHost conn then
       (case certs of
          [] \<Rightarrow> Inl (SysError ''index out of range'')
        | c # _ \<Rightarrow> (case VerifyHostname x c hostname of None \<Rightarrow> Inr () | Some e \<Rightarrow> Inl e))
     else Inr ())"

text \<open>The pool is there whenever the peer is verified: \<open>VerifyPeer\<close> loads it.\<close>

definition ch_keyPair ::
  "('p, 'c, 'k, 'd, 'z) storage_platform \<Rightarrow> filesystem \<Rightarrow> Connection \<Rightarrow> ('d, 'k list) eff" where
  "ch_keyPair pf fs conn =
     (if (conn_CertFile conn = []) \<noteq> (conn_KeyFile conn = [])
      then raise (Errorf ''ssl_cert_file and ssl_key_file must be set together'' [])
      else if conn_CertFile conn = [] then ret []
      else
        bind_eff (query_eff (\<lambda>_. wrap_res ''read ClickHouse client certificate: %w'' [] (os_ReadFile fs (conn_CertFile conn)))) (\<lambda>certPEM.
        bind_eff (wrap_eff ''read ClickHouse client key: %w'' [] (readPrivateKey pf fs (conn_KeyFile conn) (conn_KeyPassword conn))) (\<lambda>keyPEM.
        query_eff (\<lambda>_. map_sum id (\<lambda>k. [k]) (wrap_res ''load ClickHouse client certificate: %w'' []
                                               (X509KeyPair (pf_x509 pf) certPEM keyPEM))))))"

definition ch_tlsConfig ::
  "('p, 'c, 'k, 'd, 'z) storage_platform \<Rightarrow> filesystem \<Rightarrow> Connection \<Rightarrow> string \<Rightarrow> ('d, ('p, 'c, 'k) tls_config) eff" where
  "ch_tlsConfig pf fs conn hostname =
     bind_eff (query_eff (\<lambda>_. if conn_VerifyPeer conn
                 then map_sum id Some (wrap_res ''load ClickHouse CA certificates: %w'' []
                        (LoadCAPool (pf_x509 pf) fs (conn_CADirectory conn))) else Inr None)) (\<lambda>roots.
     bind_eff (ch_keyPair pf fs conn) (\<lambda>certs.
     (let config = emptyTLSConfig\<lparr>ServerName := hostname, RootCAs := roots, Certificates := certs\<rparr> in
      ret (if conn_VerifyPeer conn \<and> conn_VerifyHost conn then config
           else config\<lparr>InsecureSkipVerify := True,
                       VerifyConnection := Some (ch_verifyConnection (pf_x509 pf) conn hostname roots)\<rparr>))))"

definition ch_NewClient ::
  "('p, 'c, 'k, 'd, 'z) storage_platform \<Rightarrow> filesystem \<Rightarrow> Connection \<Rightarrow> ('d, ('p, 'c, 'k) ch_client) eff" where
  "ch_NewClient pf fs conn =
     (let urls = st_urls pf;
          bad = Errorf ''ClickHouse URL %q must be an http(s) endpoint'' [conn_URL conn] in
      case url_Parse urls (conn_URL conn) of
        Inl _ \<Rightarrow> raise bad
      | Inr u \<Rightarrow>
          if \<not> is_endpoint urls u then raise bad
          else if conn_SourceIP conn \<noteq> [] \<and> \<not> st_ParseIP pf (conn_SourceIP conn)
          then raise (Errorf ''invalid ClickHouse source_ip %q'' [conn_SourceIP conn])
          else
            bind_eff (if url_Scheme u = ''https'' then
                        (\<lambda>d. case ch_tlsConfig pf fs conn (url_Hostname urls u) d of
                               (r, d') \<Rightarrow> (map_sum id Some r, d')) else ret None) (\<lambda>tls.
            let q = AList.update ''skip_unavailable_shards'' [''0''] (AList.update ''wait_end_of_query'' [''1''] (url_Query urls u));
                endpoint = url_String urls (u\<lparr>url_RawQuery := encode_query q\<rparr>);
                q = AList.update ''distributed_ddl_task_timeout'' [Itoa (distributedDDLTimeout div seconds 1)] q in
            ret \<lparr>ch_http = api_NewClient\<lparr>client_tls := tls, client_source := conn_SourceIP conn\<rparr>,
                 ch_endpoint = endpoint, ch_clusterEndpoint = url_String urls (u\<lparr>url_RawQuery := encode_query q\<rparr>),
                 ch_connection = conn\<rparr>))"

definition ch_request ::
  "('p, 'c, 'k, 'd, 'z) storage_platform \<Rightarrow> ('p, 'c, 'k) ch_client \<Rightarrow> string \<Rightarrow> bool \<Rightarrow> ('d, string) eff" where
  "ch_request pf c sql clusterDDL d =
     (let endpoint = (if clusterDDL then ch_clusterEndpoint c else ch_endpoint c);
          user = conn_Username (ch_connection c); password = conn_Password (ch_connection c) in
      case api_request_error (st_api pf) ''POST'' endpoint of
        Some e \<Rightarrow> (Inl e, d)
      | None \<Rightarrow>
          (case api_Do (st_api pf) (ch_http c)
                  \<lparr>Method = ''POST'', URL = endpoint, Headers = [(''Content-Type'', ''text/plain; charset=utf-8'')],
                   RequestBody = sql, BasicAuth = (if user \<noteq> [] \<or> password \<noteq> [] then Some (user, password) else None)\<rparr> d of
             (Inl e, d') \<Rightarrow> (Inl (Wrapf ''ClickHouse %w'' [] e), d')
           | (Inr resp, d') \<Rightarrow>
               if resp_StatusCode resp \<noteq> 200 \<or> resp_Header resp ''X-ClickHouse-Exception-Code'' \<noteq> [] \<or>
                  HasPrefix (TrimSpace (resp_Body resp)) ''Code:''
               then (Inl (Errorf ''ClickHouse HTTP %d: %s'' [Itoa (resp_StatusCode resp), ErrorMessage (resp_Body resp) password]), d')
               else (Inr (resp_Body resp), d')))"

definition ch_query ::
  "('p, 'c, 'k, 'd, 'z) storage_platform \<Rightarrow> ('p, 'c, 'k) ch_client \<Rightarrow> string \<Rightarrow> ('d, string) eff" where
  "ch_query pf c sql = ch_request pf c sql False"

section \<open>The schema\<close>

record ch_Schema =
  sch_Database :: string
  sch_Dataset :: string
  sch_ValueTypes :: "string list"
  sch_Cluster :: string
  sch_Replicated :: bool
  sch_TTL :: int
  sch_Partition :: string

record ch_table =
  t_name :: string
  t_columns :: string
  t_timestamp :: string
  t_orderBy :: string
  t_shardKey :: string

definition ch_Validate :: "ch_Schema \<Rightarrow> unit result" where
  "ch_Validate s =
     (if sch_Database s = [] then Inl (Errorf ''database must be non-empty'' [])
      else if sch_TTL s < 0 then Inl (Errorf ''ttl must be non-negative seconds'' [])
      else if sch_Partition s = ''toDate'' \<or> sch_Partition s = ''toYYYYMM'' then Inr ()
      else Inl (Errorf ''partition must be toDate or toYYYYMM'' []))"

definition ch_schemaFile :: "('p, 'c, 'k, 'd, 'z) storage_platform \<Rightarrow> string \<Rightarrow> string result" where
  "ch_schemaFile pf name = st_file pf (''schemas/'' @ name @ ''.sql'')"

definition ch_historyTable :: "('p, 'c, 'k, 'd, 'z) storage_platform \<Rightarrow> string \<Rightarrow> ch_table result" where
  "ch_historyTable pf valueType =
     (let name = (if valueType = ''dbl'' then ''history'' else ''history_'' @ valueType) in
      bind_res (ch_schemaFile pf name) (\<lambda>columns.
        Inr \<lparr>t_name = name, t_columns = columns, t_timestamp = ''clock_ns'', t_orderBy = ''(itemid, clock_ns)'',
             t_shardKey = ''intHash64(itemid)''\<rparr>))"

definition ch_otelTable :: "('p, 'c, 'k, 'd, 'z) storage_platform \<Rightarrow> string \<Rightarrow> ch_table result" where
  "ch_otelTable pf name =
     bind_res (ch_schemaFile pf name) (\<lambda>columns.
       let t = \<lparr>t_name = name, t_columns = columns, t_timestamp = ''TimeUnix'',
                t_orderBy = ''(ServiceName, MetricName, Attributes, toUnixTimestamp64Nano(TimeUnix))'', t_shardKey = ''rand()''\<rparr> in
       Inr (if name = ''otel_logs''
            then t\<lparr>t_timestamp := ''Timestamp'', t_orderBy := ''(toStartOfFiveMinutes(Timestamp), ServiceName, Timestamp)''\<rparr>
            else if name = ''otel_traces''
            then t\<lparr>t_timestamp := ''Timestamp'', t_orderBy := ''(ServiceName, SpanName, toDateTime(Timestamp))'',
                   t_shardKey := ''cityHash64(TraceId)''\<rparr>
            else t))"

definition ch_tables :: "('p, 'c, 'k, 'd, 'z) storage_platform \<Rightarrow> ch_Schema \<Rightarrow> ch_table list result" where
  "ch_tables pf s =
     (if sch_Dataset s = ''history'' then for_res (sch_ValueTypes s) (ch_historyTable pf)
      else if sch_Dataset s = ''otel''
      then for_res [''otel_logs'', ''otel_traces'', ''otel_metrics_gauge'', ''otel_metrics_sum'', ''otel_metrics_histogram'',
                    ''otel_metrics_exponential_histogram''] (ch_otelTable pf)
      else Inr [])"

definition ch_escape :: "char \<Rightarrow> string \<Rightarrow> string" where
  "ch_escape mark s =
     concat (map (\<lambda>c. if c = CHR 0x5C then [CHR 0x5C, CHR 0x5C] else if c = mark then [CHR 0x5C, mark] else [c]) s)"

text \<open>\<open>strings.NewReplacer\<close> with two one-byte patterns.\<close>

definition ch_identifier :: "string \<Rightarrow> string" where
  "ch_identifier s = ''`'' @ ch_escape (CHR ''`'') s @ ''`''"

definition ch_literal :: "string \<Rightarrow> string" where
  "ch_literal s = [CHR 0x27] @ ch_escape (CHR 0x27) s @ [CHR 0x27]"

definition ch_systemTable :: "ch_Schema \<Rightarrow> string \<Rightarrow> string" where
  "ch_systemTable s name =
     (if sch_Cluster s \<noteq> [] then ''clusterAllReplicas('' @ ch_literal (sch_Cluster s) @ '', system.'' @ name @ '')''
      else ''system.'' @ name)"

definition ch_qualified :: "ch_Schema \<Rightarrow> string \<Rightarrow> string" where
  "ch_qualified s name = ch_identifier (sch_Database s) @ ''.'' @ ch_identifier name"

definition ch_onCluster :: "ch_Schema \<Rightarrow> string" where
  "ch_onCluster s = (if sch_Cluster s = [] then [] else '' ON CLUSTER '' @ ch_literal (sch_Cluster s))"

definition ch_localDDL :: "ch_Schema \<Rightarrow> ch_table \<Rightarrow> string \<Rightarrow> string" where
  "ch_localDDL s t name =
     ''CREATE TABLE IF NOT EXISTS '' @ ch_qualified s name @ ch_onCluster s @ '' ('' @ [CHR 0x0A] @ t_columns t @
     [CHR 0x0A] @ '') ENGINE = '' @ (if sch_Replicated s then ''ReplicatedMergeTree()'' else ''MergeTree()'') @
     '' PARTITION BY '' @ sch_Partition s @ ''('' @ t_timestamp t @ '') ORDER BY '' @ t_orderBy t @
     (if sch_TTL s \<noteq> 0
      then '' TTL '' @ (if sch_Dataset s = ''otel'' then ''toDateTime('' @ t_timestamp t @ '')'' else t_timestamp t) @
           '' + toIntervalSecond('' @ Itoa (sch_TTL s) @ '')''
      else []) @
     (if sch_Dataset s = ''otel'' then '' SETTINGS index_granularity = 8192, ttl_only_drop_parts = 1'' else [])"

definition ch_distributedDDL :: "ch_Schema \<Rightarrow> ch_table \<Rightarrow> string \<Rightarrow> string" where
  "ch_distributedDDL s t local =
     ''CREATE TABLE IF NOT EXISTS '' @ ch_qualified s (t_name t) @ ch_onCluster s @ '' AS '' @ ch_qualified s local @
     '' ENGINE = Distributed('' @ ch_literal (sch_Cluster s) @ '', '' @ ch_literal (sch_Database s) @ '', '' @
     ch_literal local @ '', '' @ t_shardKey t @ '')''"

section \<open>Preparation\<close>

definition ch_count ::
  "('p, 'c, 'k, 'd, 'z) storage_platform \<Rightarrow> ('p, 'c, 'k) ch_client \<Rightarrow> string \<Rightarrow> ('d, int) eff" where
  "ch_count pf c q =
     bind_eff (ch_query pf c (q @ '' FORMAT TabSeparated'')) (\<lambda>data.
     case Atoi (TrimSpace data) of
       None \<Rightarrow> raise (Errorf ''invalid ClickHouse count response'' [])
     | Some n \<Rightarrow> ret n)"

definition ch_ensure ::
  "('p, 'c, 'k, 'd, 'z) storage_platform \<Rightarrow> ('p, 'c, 'k) ch_client \<Rightarrow> string \<Rightarrow> string \<Rightarrow> int \<Rightarrow> string \<Rightarrow> bool \<Rightarrow> bool \<Rightarrow>
   ('d, unit) eff" where
  "ch_ensure pf c object q replicas ddl create clusterDDL =
     bind_eff (wrap_eff ''check %s: %w'' [object] (ch_count pf c q)) (\<lambda>count.
     if count = replicas then ret ()
     else if \<not> create then raise (Errorf ''%s is missing on one or more nodes (creation is disabled)'' [object])
     else
       bind_eff (wrap_eff ''create %s: %w'' [object] (ch_request pf c ddl clusterDDL)) (\<lambda>_.
       bind_eff (wrap_eff ''check created %s: %w'' [object] (ch_count pf c q)) (\<lambda>count.
       if count \<noteq> replicas then raise (Errorf ''%s is still missing on one or more nodes after creation'' [object])
       else ret ())))"

definition ch_tableQuery :: "ch_Schema \<Rightarrow> string \<Rightarrow> string" where
  "ch_tableQuery s name =
     ''SELECT count() FROM '' @ ch_systemTable s ''tables'' @ '' WHERE database = '' @ ch_literal (sch_Database s) @
     '' AND name = '' @ ch_literal name"

definition ch_ensureTable ::
  "('p, 'c, 'k, 'd, 'z) storage_platform \<Rightarrow> ('p, 'c, 'k) ch_client \<Rightarrow> ch_Schema \<Rightarrow> string \<Rightarrow> int \<Rightarrow> string \<Rightarrow> bool \<Rightarrow>
   ('d, unit) eff" where
  "ch_ensureTable pf c s name replicas ddl create =
     ch_ensure pf c (''table '' @ sch_Database s @ ''.'' @ name) (ch_tableQuery s name) replicas ddl create (sch_Cluster s \<noteq> [])"

definition ch_engineQuery :: "ch_Schema \<Rightarrow> ch_table list \<Rightarrow> string" where
  "ch_engineQuery s tables =
     ''SELECT name, engine FROM '' @ ch_systemTable s ''tables'' @ '' WHERE database = '' @ ch_literal (sch_Database s) @
     '' AND name IN ('' @ Join (map (\<lambda>t. ch_literal (t_name t)) tables) '', '' @ '') AND engine != '' @ [CHR 0x27] @
     ''Distributed'' @ [CHR 0x27] @ '' LIMIT 1 FORMAT TabSeparated''"

definition ch_checkDistributedTables ::
  "('p, 'c, 'k, 'd, 'z) storage_platform \<Rightarrow> ('p, 'c, 'k) ch_client \<Rightarrow> ch_Schema \<Rightarrow> ch_table list \<Rightarrow> ('d, unit) eff" where
  "ch_checkDistributedTables pf c s tables =
     bind_eff (wrap_eff ''check Distributed tables: %w'' [] (ch_query pf c (ch_engineQuery s tables))) (\<lambda>data.
     let row = TrimSpace data in
     if row = [] then ret ()
     else
       (case Split row (CHR 0x09) of
          [name, engine] \<Rightarrow>
            raise (Errorf ''cluster %q: table %s uses engine %s, expected Distributed; existing tables are not converted''
              [sch_Cluster s, ch_qualified s name, engine])
        | _ \<Rightarrow> raise (Errorf ''invalid ClickHouse table engine response'' [])))"

definition ch_replicaQuery :: "ch_Schema \<Rightarrow> string" where
  "ch_replicaQuery s = ''SELECT count() FROM '' @ ch_systemTable s ''one''"

definition ch_nodes ::
  "('p, 'c, 'k, 'd, 'z) storage_platform \<Rightarrow> ('p, 'c, 'k) ch_client \<Rightarrow> ch_Schema \<Rightarrow> ch_table list \<Rightarrow> ('d, int) eff" where
  "ch_nodes pf c s tables =
     (if sch_Cluster s = [] then ret 1
      else
        bind_eff (wrap_eff ''check cluster: %w'' [] (ch_count pf c (ch_replicaQuery s))) (\<lambda>replicas.
        if replicas = 0 then raise (Errorf ''cluster has no reachable replicas'' [])
        else bind_eff (ch_checkDistributedTables pf c s tables) (\<lambda>_. ret replicas)))"

definition ch_databaseQuery :: "ch_Schema \<Rightarrow> string" where
  "ch_databaseQuery s =
     ''SELECT count() FROM '' @ ch_systemTable s ''databases'' @ '' WHERE name = '' @ ch_literal (sch_Database s)"

definition ch_prepareTable ::
  "('p, 'c, 'k, 'd, 'z) storage_platform \<Rightarrow> ('p, 'c, 'k) ch_client \<Rightarrow> ch_Schema \<Rightarrow> int \<Rightarrow> bool \<Rightarrow> ch_table \<Rightarrow> ('d, unit) eff" where
  "ch_prepareTable pf c s replicas create t =
     (let local = (if sch_Cluster s \<noteq> [] then t_name t @ ''_local'' else t_name t) in
      bind_eff (ch_ensureTable pf c s local replicas (ch_localDDL s t local) create) (\<lambda>_.
      if sch_Cluster s \<noteq> [] then ch_ensureTable pf c s (t_name t) replicas (ch_distributedDDL s t local) create
      else ret ()))"

definition ch_Prepare ::
  "('p, 'c, 'k, 'd, 'z) storage_platform \<Rightarrow> ('p, 'c, 'k) ch_client \<Rightarrow> ch_Schema \<Rightarrow> bool \<Rightarrow> ('d, unit) eff" where
  "ch_Prepare pf c s create =
     (case ch_tables pf s of
        Inl e \<Rightarrow> raise e
      | Inr tables \<Rightarrow>
          bind_eff (ch_nodes pf c s tables) (\<lambda>replicas.
          bind_eff (ch_ensure pf c (''database '' @ sch_Database s) (ch_databaseQuery s) replicas
              (''CREATE DATABASE IF NOT EXISTS '' @ ch_identifier (sch_Database s) @ ch_onCluster s) create (sch_Cluster s \<noteq> [])) (\<lambda>_.
          for_eff tables (ch_prepareTable pf c s replicas create))))"

section \<open>Quoting\<close>

lemma ch_identifier_escaped: "ch_identifier = escaped (CHR ''`'')"
  by (rule ext) (auto simp: ch_identifier_def escaped_def ch_escape_def escape_quoted_def
      intro!: arg_cong [where f = concat] map_cong)

lemma ch_literal_escaped: "ch_literal = escaped (CHR 0x27)"
  by (rule ext) (auto simp: ch_literal_def escaped_def ch_escape_def escape_quoted_def
      intro!: arg_cong [where f = concat] map_cong)

interpretation ch_name: quoting ch_identifier "read_escaped (CHR ''`'')" "\<lambda>_. True"
  unfolding ch_identifier_escaped by (rule quoting_escaped) simp

interpretation ch_text: quoting ch_literal "read_escaped (CHR 0x27)" "\<lambda>_. True"
  unfolding ch_literal_escaped by (rule quoting_escaped) simp

text \<open>The query that looks for a table names exactly the configured database and table on exactly
  the configured cluster, whatever characters they have.\<close>

theorem ch_tableQuery_inject:
  assumes "ch_tableQuery s name = ch_tableQuery s' name'" "(sch_Cluster s = []) = (sch_Cluster s' = [])"
  shows "sch_Cluster s = sch_Cluster s' \<and> sch_Database s = sch_Database s' \<and> name = name'"
proof -
  have tail: "sch_Database s = sch_Database s' \<and> name = name'"
    if "ch_literal (sch_Database s) @ '' AND name = '' @ ch_literal name =
        ch_literal (sch_Database s') @ '' AND name = '' @ ch_literal name'"
    using ch_text.encode_append_inject [OF _ _ that] ch_text.encode_inject [of name name'] by simp
  show ?thesis
  proof (cases "sch_Cluster s = []")
    case True
    with assms tail show ?thesis by (simp add: ch_tableQuery_def ch_systemTable_def)
  next
    case False
    with assms have "sch_Cluster s' \<noteq> []" by simp
    with False assms(1)
    have "ch_literal (sch_Cluster s) @ '', system.tables) WHERE database = '' @ ch_literal (sch_Database s) @ '' AND name = '' @ ch_literal name =
      ch_literal (sch_Cluster s') @ '', system.tables) WHERE database = '' @ ch_literal (sch_Database s') @ '' AND name = '' @ ch_literal name'"
      by (simp add: ch_tableQuery_def ch_systemTable_def)
    from ch_text.encode_append_inject [OF _ _ this] tail show ?thesis by simp
  qed
qed

section \<open>Connections\<close>


section \<open>Looking without changing\<close>

text \<open>A server that answers queries and refuses everything else.\<close>

definition select_only :: "('t, 'd) api \<Rightarrow> ('t, 'd) api" where
  "select_only api = api\<lparr>api_send := (\<lambda>client req d.
     if HasPrefix (RequestBody req) ''SELECT '' then api_send api client req d
     else (Inl (SysError ''refused''), d))\<rparr>"

lemma select_only_error [simp]: "api_request_error (select_only api) = api_request_error api"
  by (simp add: select_only_def)

lemma api_Do_select:
  "HasPrefix (RequestBody req) ''SELECT '' \<Longrightarrow> api_Do (select_only api) client req d = api_Do api client req d"
  by (simp add: api_Do_def select_only_def)

lemma ch_query_select:
  assumes "HasPrefix q ''SELECT ''"
  shows "ch_query (pf\<lparr>st_api := select_only (st_api pf)\<rparr>) c q = ch_query pf c q"
  by (intro ext) (simp add: ch_query_def ch_request_def Let_def api_Do_select assms split: option.split)

lemma ch_count_select:
  assumes "HasPrefix q ''SELECT ''"
  shows "ch_count (pf\<lparr>st_api := select_only (st_api pf)\<rparr>) c q = ch_count pf c q"
proof -
  have "HasPrefix (q @ '' FORMAT TabSeparated'') ''SELECT ''"
    using assms by (simp add: HasPrefix_def)
  then show ?thesis by (simp add: ch_count_def ch_query_select)
qed

lemma ch_ensure_select:
  assumes "HasPrefix q ''SELECT ''"
  shows "ch_ensure (pf\<lparr>st_api := select_only (st_api pf)\<rparr>) c object q n ddl False clusterDDL =
    ch_ensure pf c object q n ddl False clusterDDL"
  by (simp add: ch_ensure_def ch_count_select [OF assms])

lemma ch_queries_select:
  "HasPrefix (ch_tableQuery s name) ''SELECT ''" "HasPrefix (ch_databaseQuery s) ''SELECT ''"
  "HasPrefix (ch_replicaQuery s) ''SELECT ''" "HasPrefix (ch_engineQuery s ts) ''SELECT ''"
  by (simp_all add: ch_tableQuery_def ch_databaseQuery_def ch_replicaQuery_def ch_engineQuery_def HasPrefix_def)

lemma ch_tables_api: "ch_tables (pf\<lparr>st_api := api\<rparr>) s = ch_tables pf s"
proof -
  have "ch_historyTable (pf\<lparr>st_api := api\<rparr>) = ch_historyTable pf" "ch_otelTable (pf\<lparr>st_api := api\<rparr>) = ch_otelTable pf"
    by (auto intro!: ext simp: ch_historyTable_def ch_otelTable_def ch_schemaFile_def)
  then show ?thesis by (simp add: ch_tables_def)
qed

text \<open>C22: with creation switched off, the preparation of the ClickHouse schemas only looks: it is the
  same run when everything but queries is refused.\<close>

theorem ch_Prepare_readonly:
  "ch_Prepare (pf\<lparr>st_api := select_only (st_api pf)\<rparr>) c s False = ch_Prepare pf c s False"
proof -
  have tables: "ch_prepareTable (pf\<lparr>st_api := select_only (st_api pf)\<rparr>) c s n False =
      ch_prepareTable pf c s n False" for n
    by (intro ext) (simp add: ch_prepareTable_def ch_ensureTable_def ch_ensure_select ch_queries_select)
  have "ch_nodes (pf\<lparr>st_api := select_only (st_api pf)\<rparr>) c s ts = ch_nodes pf c s ts" for ts
    by (simp add: ch_nodes_def ch_count_select ch_checkDistributedTables_def ch_query_select ch_queries_select
        cong: if_cong)
  then show ?thesis
    by (simp add: ch_Prepare_def ch_tables_api tables ch_ensure_select ch_queries_select split: sum.split)
qed

section \<open>What success means\<close>

text \<open>The queries whose answers make a schema complete, and that all of them get the answer of a
  complete schema.\<close>

definition ch_objects :: "ch_Schema \<Rightarrow> ch_table list \<Rightarrow> string list" where
  "ch_objects s tables =
     ch_databaseQuery s #
     concat (map (\<lambda>t. if sch_Cluster s = [] then [ch_tableQuery s (t_name t)]
                      else [ch_tableQuery s (t_name t @ ''_local''), ch_tableQuery s (t_name t)]) tables)"

definition ch_counted ::
  "('p, 'c, 'k, 'd, 'z) storage_platform \<Rightarrow> ('p, 'c, 'k) ch_client \<Rightarrow> int \<Rightarrow> string \<Rightarrow> 'd \<Rightarrow> bool" where
  "ch_counted pf c n q d \<longleftrightarrow> fst (ch_count pf c q d) = Inr n"

text \<open>A server does not lose an object because of a request of the preparation.\<close>

definition ch_keeps :: "('p, 'c, 'k, 'd, 'z) storage_platform \<Rightarrow> ('p, 'c, 'k) ch_client \<Rightarrow> int \<Rightarrow> bool" where
  "ch_keeps pf c n \<longleftrightarrow> (\<forall>q req. preserves (ch_counted pf c n q) (api_send (st_api pf) (ch_http c) req))"

lemma ch_keeps_request:
  assumes "ch_keeps pf c n"
  shows "preserves (ch_counted pf c n q) (ch_request pf c sql clusterDDL)"
proof (rule preservesI)
  have sent: "preserves (ch_counted pf c n q) (api_Do (st_api pf) (ch_http c) req)" for req
    using assms by (intro preserves_api_Do) (simp add: ch_keeps_def)
  show "ch_counted pf c n q d'" if "ch_counted pf c n q d" "ch_request pf c sql clusterDDL d = (r, d')" for d r d'
    using that(2) that(1)
    by (auto simp: ch_request_def Let_def dest: preservesD [OF sent _ that(1)]
        split: option.splits prod.splits sum.splits if_split_asm)
qed

lemma ch_keeps_count:
  assumes "ch_keeps pf c n"
  shows "preserves (ch_counted pf c n q) (ch_count pf c q')"
  unfolding ch_count_def ch_query_def
  by (intro preserving ch_keeps_request [OF assms]) (simp add: preserving split: option.split)

lemma ch_keeps_ensure:
  assumes "ch_keeps pf c n"
  shows "preserves (ch_counted pf c n q) (ch_ensure pf c object q' m ddl create clusterDDL)"
  unfolding ch_ensure_def by (intro preserving ch_keeps_request ch_keeps_count assms)

lemma ch_keeps_table:
  assumes "ch_keeps pf c n"
  shows "preserves (ch_counted pf c n q) (ch_prepareTable pf c s m create t)"
  unfolding ch_prepareTable_def ch_ensureTable_def Let_def
  by (intro preserving ch_keeps_ensure assms)

lemma ch_ensure_counted:
  assumes "ch_keeps pf c n" "ch_ensure pf c object q n ddl create clusterDDL d = (Inr (), d')"
  shows "ch_counted pf c n q d'"
proof -
  have "ch_counted pf c n q d2" if "ch_count pf c q d1 = (Inr n, d2)" for d1 d2
    by (rule preservesD [OF ch_keeps_count [OF assms(1)] that]) (simp add: ch_counted_def that)
  then show ?thesis using assms(2) by (auto simp: ch_ensure_def bind_eff_Inr split: if_splits)
qed


section \<open>Examples\<close>

text \<open>A server that has nothing until the first statement that is not a query.\<close>

definition sample_clickhouse :: "((unit, unit, unit) api_client, bool) api" where
  "sample_clickhouse = \<lparr>api_request_error = (\<lambda>_ _. None),
     api_send = (\<lambda>_ req d.
       if HasPrefix (RequestBody req) ''SELECT ''
       then (Inr \<lparr>reply_status = 200, reply_header = (\<lambda>_. []), reply_body = (if d then ''1'' else ''0'', None)\<rparr>, d)
       else (Inr \<lparr>reply_status = 200, reply_header = (\<lambda>_. []), reply_body = ([], None)\<rparr>, True))\<rparr>"

definition sample_connection :: Connection where
  "sample_connection =
     \<lparr>conn_URL = ''https://storage'', conn_Username = ''zabbix'', conn_Password = ''zabbix'', conn_SourceIP = [],
      conn_CADirectory = [], conn_CertFile = [], conn_KeyFile = [], conn_KeyPassword = [], conn_VerifyPeer = True,
      conn_VerifyHost = False\<rparr>"

definition sample_ch_client :: "(unit, unit, unit) ch_client" where
  "sample_ch_client = \<lparr>ch_http = api_NewClient, ch_endpoint = ''https://storage'', ch_clusterEndpoint = ''https://storage'',
     ch_connection = sample_connection\<rparr>"

definition sample_ch_schema :: ch_Schema where
  "sample_ch_schema = \<lparr>sch_Database = ''zabbix'', sch_Dataset = ''history'', sch_ValueTypes = [''uint''], sch_Cluster = [],
     sch_Replicated = False, sch_TTL = 0, sch_Partition = ''toDate''\<rparr>"

lemma ch_tableQuery_inject_witness:
  "ch_tableQuery sample_ch_schema ''t'' \<noteq> ch_tableQuery (sample_ch_schema\<lparr>sch_Database := [CHR 0x27, CHR 0x5C]\<rparr>) ''t''"
  using ch_tableQuery_inject [of sample_ch_schema "''t''" "sample_ch_schema\<lparr>sch_Database := [CHR 0x27, CHR 0x5C]\<rparr>" "''t''"]
  by (auto simp: sample_ch_schema_def)


lemma sample_ch_count:
  "ch_count (sample_storage sample_clickhouse Inr) sample_ch_client q d =
     (if HasPrefix (q @ '' FORMAT TabSeparated'') ''SELECT '' then (Inr (if d then 1 else 0), d)
      else (Inl (Errorf ''invalid ClickHouse count response'' []), True))"
proof -
  have "Atoi ''0'' = Some 0" "Atoi ''1'' = Some 1" "Atoi [] = None" "TrimSpace ''0'' = ''0''" "TrimSpace ''1'' = ''1''" "TrimSpace [] = []"
    "HasPrefix ''0'' ''Code:'' = False" "HasPrefix ''1'' ''Code:'' = False" "HasPrefix [] ''Code:'' = False"
    by code_simp+
  then show ?thesis
    by (simp add: ch_count_def ch_query_def ch_request_def sample_storage_def sample_clickhouse_def api_Do_def
        read_limited_def maxResponse_def bind_eff_def Let_def)
qed


end
