(* ===== verification/Elasticsearch.thy ===== *)
theory Elasticsearch
  imports HttpApi Marshal
begin

text \<open>
  The package \<open>internal/elasticsearch\<close> (\<open>client.go\<close>, \<open>schema.go\<close>): the HTTP client of Elasticsearch
  and the preparation of the history indices, templates and ingest pipelines.  Deadlines and logging
  are not modelled; the schema files are those embedded in the binary.
\<close>

section \<open>The client\<close>

record ('p, 'c, 'k) es_client =
  es_http :: "('p, 'c, 'k) api_client"
  es_endpoint :: string
  es_query :: query_values
  es_username :: string
  es_password :: string

definition es_NewClient ::
  "('p, 'c, 'k, 'd, 'z) storage_platform \<Rightarrow> string \<Rightarrow> ('p, 'c, 'k) es_client result" where
  "es_NewClient pf endpoint =
     (let urls = st_urls pf;
          bad = Errorf ''Elasticsearch URL %q must be an http(s) endpoint'' [endpoint] in
      case url_Parse urls endpoint of
        Inl _ \<Rightarrow> Inl bad
      | Inr u \<Rightarrow>
          if \<not> is_endpoint urls u then Inl bad
          else
            (let bare = u\<lparr>url_User := None, url_RawQuery := [], url_Fragment := [], url_ForceQuery := False\<rparr> in
             Inr \<lparr>es_http = api_NewClient, es_endpoint = TrimRight (url_String urls bare) ''/'', es_query = url_Query urls u,
                  es_username = (case url_User u of None \<Rightarrow> [] | Some (user, _) \<Rightarrow> user),
                  es_password = (case url_User u of Some (_, Some password) \<Rightarrow> password | _ \<Rightarrow> [])\<rparr>))"

text \<open>The query of a request: its own parameters, then those of the configured URL that it does not
  set itself.\<close>

definition merge_query :: "query_values \<Rightarrow> query_values \<Rightarrow> query_values" where
  "merge_query q extra = q @ filter (\<lambda>(k, _). \<not> List.member (map fst q) k) extra"

definition es_request ::
  "('p, 'c, 'k, 'd, 'z) storage_platform \<Rightarrow> ('p, 'c, 'k) es_client \<Rightarrow> string \<Rightarrow> string \<Rightarrow> string option \<Rightarrow> ('d, unit) eff" where
  "es_request pf c httpMethod path body d =
     (let urls = st_urls pf; target = es_endpoint c @ path; user = es_username c; password = es_password c in
      case api_request_error (st_api pf) httpMethod target of
        Some e \<Rightarrow> (Inl e, d)
      | None \<Rightarrow>
          (case url_Parse urls target of
             Inl e \<Rightarrow> (Inl e, d)
           | Inr u \<Rightarrow>
               (let query = encode_query (merge_query (url_Query urls u) (es_query c)) in
                case api_Do (st_api pf) (es_http c)
                       \<lparr>Method = httpMethod, URL = url_String urls (u\<lparr>url_RawQuery := query\<rparr>),
                        Headers = (if body = None then [] else [(''Content-Type'', ''application/json'')]),
                        RequestBody = (case body of None \<Rightarrow> [] | Some b \<Rightarrow> b),
                        BasicAuth = (if user \<noteq> [] \<or> password \<noteq> [] then Some (user, password) else None)\<rparr> d of
                  (Inl e, d') \<Rightarrow> (Inl (Wrapf ''Elasticsearch %w'' [] e), d')
                | (Inr resp, d') \<Rightarrow>
                    if resp_StatusCode resp < 200 \<or> 300 \<le> resp_StatusCode resp
                    then (Inl (ResponseError (resp_StatusCode resp)
                            (''Elasticsearch HTTP '' @ Itoa (resp_StatusCode resp) @ '': '' @ ErrorMessage (resp_Body resp) password)), d')
                    else (Inr (), d'))))"

text \<open>\<open>errors.As\<close> for a \<open>responseError\<close>: the first one in the chain.\<close>

fun response_status :: "error list \<Rightarrow> int option" where
  "response_status [] = None"
| "response_status (ResponseError status _ # es) = Some status"
| "response_status (e # es) = response_status es"

definition es_exists ::
  "('p, 'c, 'k, 'd, 'z) storage_platform \<Rightarrow> ('p, 'c, 'k) es_client \<Rightarrow> string \<Rightarrow> string \<Rightarrow> ('d, bool) eff" where
  "es_exists pf c httpMethod path d =
     (case es_request pf c httpMethod path None d of
        (Inr _, d') \<Rightarrow> (Inr True, d')
      | (Inl e, d') \<Rightarrow> (if response_status (error_chain e) = Some 404 then Inr False else Inl e, d'))"

section \<open>The schema\<close>

record es_Schema =
  es_ValueTypes :: "string list"
  es_DateIndex :: bool
  es_Shards :: int
  es_Replicas :: int

record es_object =
  obj_path :: string
  obj_method :: string
  obj_alternate :: string
  obj_createPath :: string
  obj_body :: string

definition es_Validate :: "es_Schema \<Rightarrow> unit result" where
  "es_Validate s =
     (if es_Shards s < 1 \<or> es_Replicas s < 0
      then Inl (Errorf ''shards must be positive and replicas non-negative'' []) else Inr ())"

text \<open>\<open>json.Marshal\<close> writes a map in the order of its keys and a \<open>float64\<close> in its own form.\<close>

fun marshal_order :: "(string \<Rightarrow> string) \<Rightarrow> json \<Rightarrow> json" where
  "marshal_order number (JNumber n) = JNumber (number n)"
| "marshal_order number (JArray vs) = JArray (map (marshal_order number) vs)"
| "marshal_order number (JObject ms) = JObject (sort_key fst (map (\<lambda>(k, v). (k, marshal_order number v)) ms))"
| "marshal_order number v = v"

text \<open>\<open>json.RawMessage\<close> inside a value: the text is checked, its spaces are dropped, and the characters
  that are special in HTML are escaped.\<close>

fun compact_text :: "bool \<Rightarrow> string \<Rightarrow> string" where
  "compact_text quoted [] = []"
| "compact_text False (c # cs) =
     (if json_space c then compact_text False cs else c # compact_text (c = CHR 0x22) cs)"
| "compact_text True (c # cs) =
     (if c = CHR 0x22 then c # compact_text False cs
      else if c = CHR 0x5C then (case cs of [] \<Rightarrow> [c] | e # es \<Rightarrow> c # e # compact_text True es)
      else if c = CHR ''<'' \<or> c = CHR ''>'' \<or> c = CHR ''&'' then escape_byte c @ compact_text True cs
      else if take 3 (c # cs) = [CHR 0xE2, CHR 0x80, CHR 0xA8] then CHR 0x5C # ''u2028'' @ compact_text True (drop 2 cs)
      else if take 3 (c # cs) = [CHR 0xE2, CHR 0x80, CHR 0xA9] then CHR 0x5C # ''u2029'' @ compact_text True (drop 2 cs)
      else c # compact_text True cs)"

definition marshal_raw :: "string \<Rightarrow> string result" where
  "marshal_raw raw =
     (case json_document raw of
        None \<Rightarrow> Inl (SysError ''json: invalid document'')
      | Some _ \<Rightarrow> Inr (compact_text False raw))"

definition decode_processors :: "json \<Rightarrow> json list option \<Rightarrow> json list option result" where
  "decode_processors v r =
     (case v of
        JNull \<Rightarrow> Inr None
      | JArray vs \<Rightarrow> (case any_values vs of None \<Rightarrow> Inl TypeMismatch | Some vs' \<Rightarrow> Inr (Some vs'))
      | _ \<Rightarrow> Inl TypeMismatch)"

definition dateProcessor :: "string \<Rightarrow> json" where
  "dateProcessor kind =
     JObject [(''date_index_name'', JObject
       [(''date_formats'', JArray [JString ''UNIX'']), (''date_rounding'', JString ''d''), (''field'', JString ''clock''),
        (''index_name_prefix'', JString (kind @ ''-''))])]"

definition es_schemaFile :: "('p, 'c, 'k, 'd, 'z) storage_platform \<Rightarrow> string \<Rightarrow> string result" where
  "es_schemaFile pf name = st_file pf (''schemas/'' @ name @ ''.json'')"

definition pipelineObject :: "('p, 'c, 'k, 'd, 'z) storage_platform \<Rightarrow> es_Schema \<Rightarrow> string \<Rightarrow> es_object result" where
  "pipelineObject pf s kind =
     bind_res (if kind = ''json''
               then bind_res (es_schemaFile pf ''json_pipeline'') (\<lambda>data.
                      unmarshal_into [(''processors'', decode_processors)] data None)
               else Inr None) (\<lambda>processors.
     let name = (if es_DateIndex s then kind @ ''-pipeline'' else ''json'');
         processors = (if es_DateIndex s
                       then Some ((case processors of None \<Rightarrow> [] | Some vs \<Rightarrow> vs) @ [dateProcessor kind]) else processors);
         pipeline = JObject [(''processors'', case processors of None \<Rightarrow> JNull | Some vs \<Rightarrow> JArray vs)] in
     Inr \<lparr>obj_path = ''/_ingest/pipeline/'' @ name, obj_method = ''GET'', obj_alternate = [], obj_createPath = [],
          obj_body = marshal_json (marshal_order (st_json_float pf) pipeline)\<rparr>)"

definition indexSettings :: "es_Schema \<Rightarrow> string \<Rightarrow> json" where
  "indexSettings s kind =
     JObject ((if \<not> es_DateIndex s \<and> kind = ''json'' then [(''default_pipeline'', JString ''json'')] else []) @
       [(''number_of_replicas'', JNumber (Itoa (es_Replicas s))), (''number_of_shards'', JNumber (Itoa (es_Shards s)))])"

definition indexDefinition :: "es_Schema \<Rightarrow> string \<Rightarrow> string \<Rightarrow> string" where
  "indexDefinition s kind mapping =
     ''{'' @ marshal_string ''mappings'' @ '':'' @ mapping @ '','' @
     marshal_string ''settings'' @ '':'' @ marshal_json (indexSettings s kind) @ ''}''"

definition indexTemplate :: "es_Schema \<Rightarrow> string \<Rightarrow> string \<Rightarrow> string" where
  "indexTemplate s kind mapping =
     ''{'' @ marshal_string ''index_patterns'' @ '':'' @ marshal_json (JArray [JString (kind @ ''-*'')]) @ '','' @
     marshal_string ''template'' @ '':'' @ indexDefinition s kind mapping @ ''}''"

definition indexObject :: "('p, 'c, 'k, 'd, 'z) storage_platform \<Rightarrow> es_Schema \<Rightarrow> string \<Rightarrow> es_object result" where
  "indexObject pf s kind =
     bind_res (es_schemaFile pf kind) (\<lambda>raw.
     bind_res (marshal_raw raw) (\<lambda>mapping.
       Inr (if es_DateIndex s
            then \<lparr>obj_path = ''/_index_template/'' @ kind @ ''_template'', obj_method = ''HEAD'',
                  obj_alternate = ''/_template/'' @ kind @ ''_template'',
                  obj_createPath = ''/_index_template/'' @ kind @ ''_template?create=true'',
                  obj_body = indexTemplate s kind mapping\<rparr>
            else \<lparr>obj_path = ''/'' @ kind, obj_method = ''HEAD'', obj_alternate = [], obj_createPath = [],
                  obj_body = indexDefinition s kind mapping\<rparr>)))"

definition es_objects :: "('p, 'c, 'k, 'd, 'z) storage_platform \<Rightarrow> es_Schema \<Rightarrow> es_object list result" where
  "es_objects pf s =
     map_sum id concat (for_res (es_ValueTypes s) (\<lambda>kind.
       bind_res (if es_DateIndex s \<or> kind = ''json'' then map_sum id (\<lambda>p. [p]) (pipelineObject pf s kind) else Inr []) (\<lambda>pipeline.
       bind_res (indexObject pf s kind) (\<lambda>index. Inr (pipeline @ [index])))))"

section \<open>Preparation\<close>

definition es_objectExists ::
  "('p, 'c, 'k, 'd, 'z) storage_platform \<Rightarrow> ('p, 'c, 'k) es_client \<Rightarrow> es_object \<Rightarrow> ('d, bool) eff" where
  "es_objectExists pf c obj =
     bind_eff (es_exists pf c (obj_method obj) (obj_path obj)) (\<lambda>found.
     if found \<or> obj_alternate obj = [] then ret found
     else es_exists pf c ''HEAD'' (obj_alternate obj))"

definition es_create ::
  "('p, 'c, 'k, 'd, 'z) storage_platform \<Rightarrow> ('p, 'c, 'k) es_client \<Rightarrow> es_object \<Rightarrow> ('d, unit) eff" where
  "es_create pf c obj d =
     (case wrap_eff ''create %s: %w'' [obj_path obj]
             (es_request pf c ''PUT'' (cmp_Or (obj_createPath obj) (obj_path obj)) (Some (obj_body obj))) d of
        (created, d1) \<Rightarrow>
          (case es_objectExists pf c obj d1 of
             (Inl e, d2) \<Rightarrow> (errors_Join [created, Inl (Wrapf ''check after creation %s: %w'' [obj_path obj] e)], d2)
           | (Inr True, d2) \<Rightarrow> (Inr (), d2)
           | (Inr False, d2) \<Rightarrow>
               (bind_res created (\<lambda>_. Inl (Errorf ''%s is still missing after creation'' [obj_path obj])), d2)))"

definition es_ensure ::
  "('p, 'c, 'k, 'd, 'z) storage_platform \<Rightarrow> ('p, 'c, 'k) es_client \<Rightarrow> bool \<Rightarrow> es_object \<Rightarrow> ('d, unit) eff" where
  "es_ensure pf c create obj =
     bind_eff (wrap_eff ''check %s: %w'' [obj_path obj] (es_objectExists pf c obj)) (\<lambda>found.
     if found then ret ()
     else if \<not> create then raise (Errorf ''%s is missing (creation is disabled)'' [obj_path obj])
     else
       es_create pf c obj)"

definition es_Prepare ::
  "('p, 'c, 'k, 'd, 'z) storage_platform \<Rightarrow> ('p, 'c, 'k) es_client \<Rightarrow> es_Schema \<Rightarrow> bool \<Rightarrow> ('d, unit) eff" where
  "es_Prepare pf c s create =
     (case es_objects pf s of Inl e \<Rightarrow> raise e | Inr objects \<Rightarrow> for_eff objects (es_ensure pf c create))"

section \<open>Looking without changing\<close>

text \<open>A server that answers \<open>GET\<close> and \<open>HEAD\<close> and refuses everything else.\<close>

definition read_only :: "('t, 'd) api \<Rightarrow> ('t, 'd) api" where
  "read_only api = api\<lparr>api_send := (\<lambda>client req d.
     if Method req = ''GET'' \<or> Method req = ''HEAD'' then api_send api client req d
     else (Inl (SysError ''refused''), d))\<rparr>"

lemma read_only_error [simp]: "api_request_error (read_only api) = api_request_error api"
  by (simp add: read_only_def)

lemma api_Do_read_only:
  "Method req = ''GET'' \<or> Method req = ''HEAD'' \<Longrightarrow> api_Do (read_only api) client req d = api_Do api client req d"
  by (auto simp: api_Do_def read_only_def)

lemma es_request_read_only:
  assumes "m = ''GET'' \<or> m = ''HEAD''"
  shows "es_request (pf\<lparr>st_api := read_only (st_api pf)\<rparr>) c m path body d = es_request pf c m path body d"
  using assms by (simp add: es_request_def Let_def api_Do_read_only split: option.split sum.split)

lemma es_exists_read_only:
  assumes "m = ''GET'' \<or> m = ''HEAD''"
  shows "es_exists (pf\<lparr>st_api := read_only (st_api pf)\<rparr>) c m path = es_exists pf c m path"
  by (rule ext) (simp add: es_exists_def es_request_read_only [OF assms])

lemma es_objectExists_read_only:
  assumes "obj_method obj = ''GET'' \<or> obj_method obj = ''HEAD''"
  shows "es_objectExists (pf\<lparr>st_api := read_only (st_api pf)\<rparr>) c obj = es_objectExists pf c obj"
  by (simp add: es_objectExists_def es_exists_read_only [OF assms] es_exists_read_only cong: if_cong)

lemma es_objects_api: "es_objects (pf\<lparr>st_api := api\<rparr>) s = es_objects pf s"
proof -
  have "pipelineObject (pf\<lparr>st_api := api\<rparr>) = pipelineObject pf" "indexObject (pf\<lparr>st_api := api\<rparr>) = indexObject pf"
    by (auto intro!: ext simp: pipelineObject_def indexObject_def es_schemaFile_def)
  then show ?thesis by (simp add: es_objects_def cong: if_cong)
qed

lemma es_objects_method:
  assumes "es_objects pf s = Inr objects" "obj \<in> set objects"
  shows "obj_method obj = ''GET'' \<or> obj_method obj = ''HEAD''"
proof -
  obtain kinds where objects: "objects = concat kinds"
    and kinds: "for_res (es_ValueTypes s) (\<lambda>kind.
       bind_res (if es_DateIndex s \<or> kind = ''json'' then map_sum id (\<lambda>p. [p]) (pipelineObject pf s kind) else Inr []) (\<lambda>pipeline.
       bind_res (indexObject pf s kind) (\<lambda>index. Inr (pipeline @ [index])))) = Inr kinds"
    using assms(1) by (auto simp: es_objects_def map_result_Inr)
  then obtain os where os: "os \<in> set kinds" "obj \<in> set os" using assms(2) by auto
  have "obj_method obj = ''HEAD''" if "indexObject pf s kind = Inr obj" for kind obj
    using that by (auto simp: indexObject_def split: if_splits)
  moreover have "obj_method obj = ''GET''" if "pipelineObject pf s kind = Inr obj" for kind obj
    using that by (auto simp: pipelineObject_def Let_def)
  ultimately show ?thesis
    using for_res_set [OF kinds os(1)] os(2) by (auto simp: map_result_Inr split: if_splits)
qed

text \<open>With creation switched off, the preparation of the Elasticsearch schema only looks: it is the
  same run when everything but \<open>GET\<close> and \<open>HEAD\<close> is refused.\<close>

theorem es_Prepare_readonly:
  "es_Prepare (pf\<lparr>st_api := read_only (st_api pf)\<rparr>) c s False = es_Prepare pf c s False"
proof -
  have "es_ensure (pf\<lparr>st_api := read_only (st_api pf)\<rparr>) c False obj = es_ensure pf c False obj"
    if "es_objects pf s = Inr objects" "obj \<in> set objects" for objects obj
    by (simp add: es_ensure_def es_objectExists_read_only [OF es_objects_method [OF that]])
  then show ?thesis
    by (auto simp: es_Prepare_def es_objects_api split: sum.split intro!: ext for_eff_cong)
qed

section \<open>What success means\<close>

definition es_present ::
  "('p, 'c, 'k, 'd, 'z) storage_platform \<Rightarrow> ('p, 'c, 'k) es_client \<Rightarrow> es_object \<Rightarrow> 'd \<Rightarrow> bool" where
  "es_present pf c obj d \<longleftrightarrow> fst (es_objectExists pf c obj d) = Inr True"

text \<open>A server does not lose an object because of a request of the preparation.\<close>

definition es_keeps :: "('p, 'c, 'k, 'd, 'z) storage_platform \<Rightarrow> ('p, 'c, 'k) es_client \<Rightarrow> bool" where
  "es_keeps pf c \<longleftrightarrow> (\<forall>obj req. preserves (es_present pf c obj) (api_send (st_api pf) (es_http c) req))"

lemma es_keeps_request:
  assumes "es_keeps pf c"
  shows "preserves (es_present pf c obj) (es_request pf c m path body)"
proof (rule preservesI)
  have sent: "preserves (es_present pf c obj) (api_Do (st_api pf) (es_http c) req)" for req
    using assms by (intro preserves_api_Do) (simp add: es_keeps_def)
  show "es_present pf c obj d'" if "es_present pf c obj d" "es_request pf c m path body d = (r, d')" for d r d'
    using that(2) that(1)
    by (auto simp: es_request_def Let_def dest: preservesD [OF sent _ that(1)]
        split: option.splits prod.splits sum.splits if_split_asm)
qed

lemma es_keeps_exists:
  assumes "es_keeps pf c"
  shows "preserves (es_present pf c obj) (es_objectExists pf c obj')"
proof -
  have looked: "preserves (es_present pf c obj) (es_exists pf c m path)" for m path
  proof (rule preservesI)
    show "es_present pf c obj d'" if "es_present pf c obj d" "es_exists pf c m path d = (r, d')" for d r d'
    proof -
      obtain q d1 where sent: "es_request pf c m path None d = (q, d1)" by (rule prod.exhaust)
      then have "d1 = d'" using that(2) unfolding es_exists_def by (cases q) simp_all
      with preservesD [OF es_keeps_request [OF assms] sent that(1)] show ?thesis by simp
    qed
  qed
  show ?thesis
    unfolding es_objectExists_def by (intro preserving looked)
qed

lemma es_create_run:
  assumes "es_create pf c obj d = (r, d')"
  obtains created d1 found where
    "wrap_eff ''create %s: %w'' [obj_path obj]
       (es_request pf c ''PUT'' (cmp_Or (obj_createPath obj) (obj_path obj)) (Some (obj_body obj))) d = (created, d1)"
    "es_objectExists pf c obj d1 = (found, d')" "r = Inr () \<longrightarrow> found = Inr True"
proof -
  obtain created d1 where put: "wrap_eff ''create %s: %w'' [obj_path obj]
       (es_request pf c ''PUT'' (cmp_Or (obj_createPath obj) (obj_path obj)) (Some (obj_body obj))) d = (created, d1)"
    by (rule prod.exhaust)
  obtain found d2 where found: "es_objectExists pf c obj d1 = (found, d2)" by (rule prod.exhaust)
  have join: "errors_Join [r, Inl e] \<noteq> Inr ()" for r e
    by (cases r) (simp_all add: errors_Join_def)
  have "d2 = d' \<and> (r = Inr () \<longrightarrow> found = Inr True)"
    using assms join by (cases found) (auto simp: es_create_def put found split: bool.splits)
  with that [OF put] found show ?thesis by simp
qed

lemma es_keeps_ensure:
  assumes "es_keeps pf c"
  shows "preserves (es_present pf c obj) (es_ensure pf c create obj')"
proof -
  have created: "preserves (es_present pf c obj) (es_create pf c obj')"
  proof (rule preservesI)
    fix d r d'
    assume "es_present pf c obj d" "es_create pf c obj' d = (r, d')"
    then show "es_present pf c obj d'"
      by (elim es_create_run)
        (rule preservesD [OF es_keeps_exists [OF assms]], assumption,
         erule preservesD [OF preserves_wrap [OF es_keeps_request [OF assms]]])
  qed
  show ?thesis
    unfolding es_ensure_def by (intro preserving es_keeps_exists assms created)
qed

lemma es_ensure_present:
  assumes "es_keeps pf c" "es_ensure pf c create obj d = (Inr (), d')"
  shows "es_present pf c obj d'"
proof -
  have "es_present pf c obj d2" if "es_objectExists pf c obj d1 = (Inr True, d2)" for d1 d2
    by (rule preservesD [OF es_keeps_exists [OF assms(1)] that]) (simp add: es_present_def that)
  then show ?thesis
    using assms(2)
    by (auto simp: es_ensure_def bind_eff_Inr split: if_splits elim: es_create_run)
qed


section \<open>Examples\<close>

text \<open>A server that has nothing until the first creation.\<close>

definition sample_elasticsearch :: "((unit, unit, unit) api_client, bool) api" where
  "sample_elasticsearch = \<lparr>api_request_error = (\<lambda>_ _. None),
     api_send = (\<lambda>_ req d.
       (Inr \<lparr>reply_status = (if d \<or> Method req = ''PUT'' then 200 else 404), reply_header = (\<lambda>_. []), reply_body = ([], None)\<rparr>,
        d \<or> Method req = ''PUT''))\<rparr>"

definition sample_es_client :: "(unit, unit, unit) es_client" where
  "sample_es_client = \<lparr>es_http = api_NewClient, es_endpoint = ''https://storage'', es_query = [],
     es_username = [], es_password = []\<rparr>"

definition sample_es_schema :: es_Schema where
  "sample_es_schema = \<lparr>es_ValueTypes = [''uint''], es_DateIndex = True, es_Shards = 5, es_Replicas = 1\<rparr>"

abbreviation sample_es_storage :: "(unit, unit, unit, bool, unit) storage_platform" where
  "sample_es_storage \<equiv> sample_storage sample_elasticsearch (\<lambda>_. Inr ''{ }'')"

lemma sample_es_exists: "es_exists sample_es_storage sample_es_client m path True = (Inr True, True)"
  by (simp add: es_exists_def es_request_def sample_storage_def sample_urls_def sample_es_client_def sample_elasticsearch_def
      api_Do_def read_limited_def maxResponse_def HasPrefix_def Let_def)


end
