(* ===== verification/StorageProvider.thy ===== *)
theory StorageProvider
  imports SecretRegistry Quoting
begin

text \<open>
  The package \<open>internal/storageprovider\<close>: history and telemetry providers, given as JSON in indexed
  variables, for the native configuration and for the frontend.  A provider is the list of its
  fields in the order in which Go walks through the map; a \<open>float64\<close> is kept as the text of the JSON
  number, and \<open>number\<close> is \<open>strconv.FormatFloat\<close> without exponent of the value of that text.
\<close>

section \<open>Fields\<close>

text \<open>The dynamic type of a field: what \<open>encoding/json\<close> decodes to, or the \<open>[]string\<close> of parsed value
  types.\<close>

datatype field_value = Plain json | Names "string list"

type_synonym fields = "(string \<times> field_value) list"

definition field_text :: "fields \<Rightarrow> string \<Rightarrow> string option" where
  "field_text fs key = (case map_of fs key of Some (Plain (JString s)) \<Rightarrow> Some s | _ \<Rightarrow> None)"

definition text_or_empty :: "fields \<Rightarrow> string \<Rightarrow> string" where
  "text_or_empty fs key = (case field_text fs key of Some s \<Rightarrow> s | None \<Rightarrow> [])"

definition text_field :: "string \<Rightarrow> field_value" where "text_field s = Plain (JString s)"

section \<open>Decoding\<close>

definition providerTLSFiles :: "string list" where
  "providerTLSFiles =
     map Field (filter (\<lambda>d. Kind d = ProviderFileSecret \<and> \<not> ManagedLocation d) providerSecretDefinitions)"

definition looksLikeJSONObject :: "string \<Rightarrow> bool" where
  "looksLikeJSONObject raw = HasPrefix (TrimSpace raw) ''{''"

definition provider_decodeJSON :: "string \<Rightarrow> json result" where
  "provider_decodeJSON raw =
     (case DecodeJSON raw of
        None \<Rightarrow> Inl (Wrapf ''invalid provider JSON: %w'' [] (SysError ''json''))
      | Some v \<Rightarrow> Inr v)"

definition object_fields :: "(string \<times> json) list \<Rightarrow> fields" where
  "object_fields ms = map (\<lambda>(k, v). (k, Plain v)) ms"

definition decodeObject :: "string \<Rightarrow> fields result" where
  "decodeObject raw =
     bind_res (provider_decodeJSON raw) (\<lambda>v.
       case v of JObject ms \<Rightarrow> Inr (object_fields ms) | _ \<Rightarrow> Inl (Errorf ''invalid provider JSON'' []))"

fun decode_items :: "nat \<Rightarrow> json list \<Rightarrow> fields list result" where
  "decode_items index [] = Inr []"
| "decode_items index (JObject ms # vs) =
     bind_res (decode_items (Suc index) vs) (\<lambda>rest. Inr (object_fields ms # rest))"
| "decode_items index (v # vs) = Inl (Errorf ''item %d must be an object'' [Itoa (int index)])"

definition decodeList :: "string \<Rightarrow> fields list result" where
  "decodeList raw =
     (if TrimSpace raw = [] then Inr []
      else
        bind_res (provider_decodeJSON raw) (\<lambda>v.
          case v of
            JObject ms \<Rightarrow> Inr [object_fields ms]
          | JArray vs \<Rightarrow> decode_items 0 vs
          | _ \<Rightarrow> Inl (Errorf ''invalid provider JSON'' [])))"

section \<open>Credential variables\<close>

definition secretConfigured :: "environment \<Rightarrow> string \<Rightarrow> bool" where
  "secretConfigured env name = env_has env name"

definition secret_location :: "environment \<Rightarrow> string \<Rightarrow> ProviderSecretDefinition \<Rightarrow> string" where
  "secret_location env variable d = (if ManagedLocation d then env_get env (variable @ ''LOCATION'') else [])"

definition hasSecret :: "environment \<Rightarrow> string \<Rightarrow> ProviderSecretDefinition \<Rightarrow> bool" where
  "hasSecret env name d =
     (let variable = name @ Suffix d in
      if Kind d = ProviderValueSecret then secretConfigured env variable
      else env_get env variable \<noteq> [] \<or> env_get env (variable @ ''FILE'') \<noteq> [] \<or> secret_location env variable d \<noteq> [])"

definition hasSecrets :: "environment \<Rightarrow> string \<Rightarrow> bool" where
  "hasSecrets env name = list_ex (hasSecret env name) providerSecretDefinitions"

text \<open>Separate credential variables override credentials in JSON.\<close>

fun apply_secrets :: "environment \<Rightarrow> string \<Rightarrow> ProviderSecretDefinition list \<Rightarrow> fields \<Rightarrow> fields result" where
  "apply_secrets env name [] fs = Inr fs"
| "apply_secrets env name (d # ds) fs =
     (let variable = name @ Suffix d in
      if Kind d = ProviderValueSecret
      then apply_secrets env name ds
             (if secretConfigured env variable then AList.update (Field d) (text_field (env_get env variable)) fs else fs)
      else
        (let fileVariable = variable @ ''FILE'';
             path = env_get env fileVariable;
             location = secret_location env variable d in
         if path = [] \<and> location = [] then apply_secrets env name ds fs
         else if map_of fs (Field d) \<noteq> None
         then Inl (Errorf ''%s: %s cannot be combined with %s'' [name, Field d, fileVariable])
         else apply_secrets env name ds
                (AList.update (Field d) (text_field (if ManagedLocation d then location else path)) fs)))"

definition applySecrets :: "environment \<Rightarrow> string \<Rightarrow> fields \<Rightarrow> fields result" where
  "applySecrets env name fs = apply_secrets env name providerSecretDefinitions fs"

definition secret_variables :: "string \<Rightarrow> ProviderSecretDefinition \<Rightarrow> string list" where
  "secret_variables name d =
     (let variable = name @ Suffix d in
      variable # (if Kind d = ProviderValueSecret then [variable @ ''_FILE''] else [variable @ ''FILE'', variable @ ''LOCATION'']))"

definition deleteSecrets :: "string \<Rightarrow> environment \<Rightarrow> environment" where
  "deleteSecrets name env =
     fold (\<lambda>v e. env_delete e v) (concat (map (secret_variables name) providerSecretDefinitions)) env"

section \<open>Parameters\<close>

record providerDefinition =
  pd_valueTypes :: bool
  pd_files :: "string list"
  pd_web :: "string list"
  pd_webDefaults :: fields
  pd_secrets :: bool

record provider_parameter =
  par_Prefix :: string
  par_Plural :: string
  par_pluralInput :: bool
  par_maxProviders :: int
  par_providers :: "(string \<times> providerDefinition) list"
  par_providerError :: string
  par_reserved :: "(string \<times> string) list"
  par_defaults :: "fields \<Rightarrow> fields"

definition valueTypeOption :: string where "valueTypeOption = ''types''"

definition managedLocations :: "string list" where
  "managedLocations = [''ssl_ca_file'', ''ssl_ca_location'', ''ssl_cert_location'', ''ssl_key_location'']"

definition clickHouseHistory :: providerDefinition where
  "clickHouseHistory =
     \<lparr>pd_valueTypes = True, pd_files = providerTLSFiles,
      pd_web = [''provider'', ''types'', ''url'', ''db'', ''username'', ''password''], pd_webDefaults = [], pd_secrets = True\<rparr>"

definition History :: provider_parameter where
  "History =
     \<lparr>par_Prefix = ''ZBX_HISTORYPROVIDER'', par_Plural = ''ZBX_HISTORYPROVIDERS'', par_pluralInput = True,
      par_maxProviders = 0,
      par_providers =
        [(''clickhouse'', clickHouseHistory),
         (''elasticsearch'', \<lparr>pd_valueTypes = True, pd_files = [], pd_web = [''provider'', ''types'', ''url''],
                             pd_webDefaults = [], pd_secrets = False\<rparr>),
         (''sql'', \<lparr>pd_valueTypes = True, pd_files = [], pd_web = [], pd_webDefaults = [], pd_secrets = False\<rparr>)],
      par_providerError = ''provider must be clickhouse, elasticsearch or sql'',
      par_reserved = [(''value_types'', ''use types instead of value_types''),
                      (''vault_path'', ''vault_path is only supported by telemetry providers'')],
      par_defaults = (\<lambda>fs. fs)\<rparr>"

definition clickHouseTelemetry :: providerDefinition where
  "clickHouseTelemetry =
     \<lparr>pd_valueTypes = False, pd_files = providerTLSFiles,
      pd_web = [''provider'', ''url'', ''db'', ''vault_path'', ''ssl_cert_file'', ''ssl_key_file'', ''ssl_ca_location'',
                ''ssl_key_password'', ''ssl_verify_peer'', ''ssl_verify_host'', ''username'', ''password''],
      pd_webDefaults =
        map (\<lambda>k. (k, text_field []))
          [''url'', ''db'', ''username'', ''password'', ''vault_path'', ''ssl_cert_file'', ''ssl_key_file'',
           ''ssl_key_password'', ''ssl_ca_file'', ''ssl_ca_location''] @
        [(''ssl_verify_peer'', Plain (JBool False)), (''ssl_verify_host'', Plain (JBool False))],
      pd_secrets = True\<rparr>"

definition set_missing :: "string \<Rightarrow> field_value \<Rightarrow> fields \<Rightarrow> fields" where
  "set_missing key v fs = (if map_of fs key = None then AList.update key v fs else fs)"

definition telemetryDefaults :: "fields \<Rightarrow> fields" where
  "telemetryDefaults fs =
     (if \<not> HasPrefix (ToLower (text_or_empty fs ''url'')) ''https://'' then fs
      else set_missing ''ssl_verify_host'' (Plain (JBool True)) (set_missing ''ssl_verify_peer'' (Plain (JBool True)) fs))"

definition Telemetry :: provider_parameter where
  "Telemetry =
     \<lparr>par_Prefix = ''ZBX_TELEMETRYPROVIDER'', par_Plural = ''ZBX_TELEMETRYPROVIDERS'', par_pluralInput = False,
      par_maxProviders = 1, par_providers = [(''clickhouse'', clickHouseTelemetry)],
      par_providerError = ''provider must be clickhouse'', par_reserved = [], par_defaults = telemetryDefaults\<rparr>"

section \<open>Indexed names\<close>

definition schemaSuffix :: string where "schemaSuffix = ''_SCHEMA''"

fun base_of :: "string list \<Rightarrow> string \<Rightarrow> string option" where
  "base_of [] name = None"
| "base_of (s # ss) name = (case CutSuffix name s of Some base \<Rightarrow> Some base | None \<Rightarrow> base_of ss name)"

definition credentialBase :: "string \<Rightarrow> string option" where
  "credentialBase name = base_of buildProviderSecretSuffixes name"

text \<open>What one variable of the environment contributes to the indexed variables of the family.\<close>

definition provider_variable :: "environment \<Rightarrow> string \<Rightarrow> string \<times> string \<Rightarrow> environment result" where
  "provider_variable env pre entry =
     (case entry of (name, v) \<Rightarrow>
        if name \<noteq> pre \<and> \<not> HasPrefix name (pre @ ''_'') then Inr []
        else
          (case CutSuffix name schemaSuffix of
             Some base \<Rightarrow>
               if v \<noteq> [] \<and> env_get env base = [] then Inl (Errorf ''%s requires a matching JSON provider'' [name]) else Inr []
           | None \<Rightarrow>
               (case credentialBase name of
                  Some base \<Rightarrow>
                    if v = [] then Inr []
                    else if \<not> env_has env base then Inl (Errorf ''%s credentials require a matching JSON provider'' [base])
                    else Inr []
                | None \<Rightarrow> Inr [(name, v)])))"

definition indexedNames :: "environment \<Rightarrow> string \<Rightarrow> string list result" where
  "indexedNames env pre =
     bind_res (for_res env (provider_variable env pre)) (\<lambda>parts.
     bind_res (CollectIndexed (concat parts) [pre] True) (\<lambda>variables.
     Inr (map Name variables)))"

definition par_indexedNames :: "provider_parameter \<Rightarrow> environment \<Rightarrow> string list result" where
  "par_indexedNames p env =
     bind_res (indexedNames env (par_Prefix p)) (\<lambda>names.
       if par_maxProviders p \<noteq> 0 \<and> par_maxProviders p < int (length names)
       then Inl (Errorf ''%s is not supported; use %s''
                   [IndexedName (par_Prefix p) (par_maxProviders p), IndexedName (par_Prefix p) 0])
       else Inr names)"

section \<open>Validation\<close>

definition validateFilePath :: "field_value \<Rightarrow> string \<Rightarrow> unit result" where
  "validateFilePath v field =
     (case v of
        Plain (JString name) \<Rightarrow>
          if name = [] then Inl (Errorf ''%s must be a non-empty file path'' [field])
          else if ContainsAny name [CHR 0x5C, CHR 0x0D, CHR 0x0A, CHR 0x00]
          then Inl (Errorf ''%s contains an invalid path character'' [field])
          else (case ResolveFile name [] of Inl e \<Rightarrow> Inl (Wrapf ''%s: %w'' [field] e) | Inr _ \<Rightarrow> Inr ())
      | _ \<Rightarrow> Inl (Errorf ''%s must be a non-empty file path'' [field]))"

fun value_types :: "json list \<Rightarrow> string list \<Rightarrow> string list result" where
  "value_types [] types = Inr types"
| "value_types (v # vs) types =
     (case v of
        JString t \<Rightarrow>
          if t = [] \<or> ContainsAny t [CHR 0x0D, CHR 0x0A]
          then Inl (Errorf ''%s must contain value type names'' [valueTypeOption])
          else value_types vs (if List.member types t then types else types @ [t])
      | _ \<Rightarrow> Inl (Errorf ''%s must contain value type names'' [valueTypeOption]))"

definition parseValueTypes :: "field_value \<Rightarrow> string list result" where
  "parseValueTypes v =
     (case v of
        Plain (JArray (item # items)) \<Rightarrow> value_types (item # items) []
      | _ \<Rightarrow> Inl (Errorf ''%s must be a non-empty array'' [valueTypeOption]))"

definition check_field ::
  "provider_parameter \<Rightarrow> providerDefinition \<Rightarrow> string \<Rightarrow> string \<times> field_value \<Rightarrow> (string \<times> field_value) result" where
  "check_field p current name entry =
     (case entry of (key, v) \<Rightarrow>
        if key = [] \<or> ContainsAny key [CHR '','', CHR ''='', CHR '';'', CHR 0x0D, CHR 0x0A]
        then Inl (Errorf ''%s: invalid option %q'' [name, key])
        else if List.member managedLocations key
        then Inl (Errorf ''%s: %s is managed by the image and must not be set'' [name, key])
        else
          (case map_of (par_reserved p) key of
             Some reason \<Rightarrow> Inl (Errorf ''%s: %s'' [name, reason])
           | None \<Rightarrow>
               if key = valueTypeOption \<and> pd_valueTypes current
               then map_sum id (\<lambda>types. (key, Names types)) (wrap_res ''%s: %w'' [name] (parseValueTypes v))
               else if List.member (pd_files current) key
               then bind_res (wrap_res ''%s: %w'' [name] (validateFilePath v key)) (\<lambda>_. Inr (key, v))
               else Inr (key, v)))"

record ProviderConfig =
  pc_Name :: string
  pc_Provider :: string
  pc_SchemaOptions :: string
  pc_Fields :: fields
  pc_ValueTypes :: "string list"
  pc_definition :: providerDefinition

definition par_validate :: "provider_parameter \<Rightarrow> environment \<Rightarrow> string \<Rightarrow> fields \<Rightarrow> ProviderConfig result" where
  "par_validate p env name fs =
     (let providerName = text_or_empty fs ''provider'' in
      case map_of (par_providers p) providerName of
        None \<Rightarrow> Inl (Errorf ''%s: %s'' [name, par_providerError p])
      | Some current \<Rightarrow>
          bind_res (for_res fs (check_field p current name)) (\<lambda>fs.
          bind_res (if \<not> pd_secrets current
                    then (if hasSecrets env name
                          then Inl (Errorf ''%s credentials are only supported by ClickHouse providers'' [name]) else Inr fs)
                    else applySecrets env name fs) (\<lambda>fs.
          let fs = par_defaults p fs in
          Inr \<lparr>pc_Name = name, pc_Provider = providerName, pc_SchemaOptions = [], pc_Fields = fs,
               pc_ValueTypes = (if pd_valueTypes current
                                then (case map_of fs valueTypeOption of Some (Names ts) \<Rightarrow> ts | _ \<Rightarrow> []) else []),
               pc_definition = current\<rparr>)))"

definition par_decode :: "provider_parameter \<Rightarrow> environment \<Rightarrow> string \<Rightarrow> ProviderConfig result" where
  "par_decode p env name =
     bind_res (wrap_res ''%s: %w'' [name] (decodeObject (env_get env name))) (par_validate p env name)"

section \<open>Native options\<close>

definition quoteOption :: "string \<Rightarrow> string" where
  "quoteOption v =
     [CHR 0x22] @ ReplaceAll (ReplaceAll v [CHR 0x5C] [CHR 0x5C, CHR 0x5C]) [CHR 0x22] [CHR 0x5C, CHR 0x22] @ [CHR 0x22]"

definition nativeOption :: "(string \<Rightarrow> string) \<Rightarrow> string \<Rightarrow> field_value \<Rightarrow> string result" where
  "nativeOption number key v =
     (case v of
        Plain (JString s) \<Rightarrow>
          if ContainsAny s [CHR 0x0D, CHR 0x0A] then Inl (Errorf ''%s contains a line break'' [key])
          else Inr (key @ ''='' @ quoteOption s)
      | Plain (JNumber n) \<Rightarrow> Inr (key @ ''='' @ number n)
      | Plain (JBool b) \<Rightarrow> Inr (key @ (if b then ''=1'' else ''=0''))
      | _ \<Rightarrow> Inl (Errorf ''%s must be a string, number, or boolean'' [key]))"

text \<open>An unchecked type assertion that fails is a run-time error.\<close>

definition InterfaceConversion :: error where "InterfaceConversion = SysError ''interface conversion''"

text \<open>Absolute names of TLS files are split: Zabbix joins each location and file name.\<close>

fun split_files :: "string list \<Rightarrow> fields \<Rightarrow> fields" where
  "split_files [] fs = fs"
| "split_files (key # keys) fs =
     split_files keys
       (let v = text_or_empty fs key in
        if IsAbs v
        then AList.update key (text_field (path_Base v))
               (AList.update (TrimSuffix key ''_file'' @ ''_location'') (text_field (path_Dir v)) fs)
        else fs)"

definition native_option ::
  "(string \<Rightarrow> string) \<Rightarrow> providerDefinition \<Rightarrow> fields \<Rightarrow> string \<Rightarrow> string result" where
  "native_option number current fs key =
     (case map_of fs key of
        None \<Rightarrow> Inr []
      | Some v \<Rightarrow>
          if key = valueTypeOption \<and> pd_valueTypes current
          then (case v of Names ts \<Rightarrow> Inr (''value_types='' @ quoteOption (Join ts '','')) | _ \<Rightarrow> Inl InterfaceConversion)
          else nativeOption number key v)"

definition renderNative ::
  "(string \<Rightarrow> string) \<Rightarrow> string \<Rightarrow> providerDefinition \<Rightarrow> fields \<Rightarrow> string result" where
  "renderNative number providerName current fs =
     (let fs = split_files (pd_files current) fs in
      bind_res (for_res (filter (\<lambda>key. key \<noteq> ''provider'') (sort (map fst fs))) (native_option number current fs)) (\<lambda>options.
      Inr (providerName @ '';'' @ Join options '','')))"

section \<open>The configuration of a family\<close>

text \<open>The state of a configuration is the environment and the providers that were already decoded.\<close>

type_synonym configuration = "environment \<times> (string \<times> ProviderConfig) list"

definition NewConfiguration :: "environment \<Rightarrow> provider_parameter \<Rightarrow> string list result" where
  "NewConfiguration env p = par_indexedNames p env"

definition conf_decode :: "provider_parameter \<Rightarrow> string \<Rightarrow> (configuration, ProviderConfig) eff" where
  "conf_decode p name c =
     (case c of (env, decoded) \<Rightarrow>
        (case map_of decoded name of
           Some config \<Rightarrow> (Inr config, c)
         | None \<Rightarrow>
             (case par_decode p env name of
                Inl e \<Rightarrow> (Inl e, c)
              | Inr config \<Rightarrow>
                  (let config = config\<lparr>pc_SchemaOptions := env_get env (name @ schemaSuffix)\<rparr> in
                   (Inr config, (env, AList.update name config decoded))))))"

definition ConfigsToPrepare :: "provider_parameter \<Rightarrow> string list \<Rightarrow> (configuration, ProviderConfig list) eff" where
  "ConfigsToPrepare p names =
     bind_eff (collect_eff names (\<lambda>name c.
       if TrimSpace (env_get (fst c) (name @ schemaSuffix)) = [] then (Inr [], c)
       else if \<not> looksLikeJSONObject (env_get (fst c) name)
       then (Inl (Errorf ''%s requires a JSON provider'' [name @ schemaSuffix]), c)
       else bind_eff (conf_decode p name) (\<lambda>config. ret [config]) c)) (\<lambda>configs. ret (concat configs))"

definition native_value ::
  "(string \<Rightarrow> string) \<Rightarrow> provider_parameter \<Rightarrow> string \<Rightarrow> (configuration, (string \<times> string) list) eff" where
  "native_value number p name c =
     (if \<not> looksLikeJSONObject (env_get (fst c) name)
      then (if hasSecrets (fst c) name
            then (Inl (Errorf ''%s credentials require a JSON provider'' [name]), c) else (Inr [], c))
      else
        bind_eff (conf_decode p name) (\<lambda>config.
        bind_eff (query_eff (\<lambda>_. wrap_res ''%s: %w'' [name]
                    (renderNative number (pc_Provider config) (pc_definition config) (pc_Fields config)))) (\<lambda>v.
        ret [(name, v)])) c)"

definition ConfigureNative ::
  "(string \<Rightarrow> string) \<Rightarrow> provider_parameter \<Rightarrow> string list \<Rightarrow> (configuration, unit) eff" where
  "ConfigureNative number p names =
     bind_eff (collect_eff names (native_value number p)) (\<lambda>vs c.
       (Inr (),
        (fold (\<lambda>name e. env_delete e (name @ schemaSuffix)) names
           (fold (\<lambda>(name, v) e. deleteSecrets name (env_set e name v)) (concat vs) (fst c)), snd c)))"

section \<open>The frontend\<close>

definition webFields :: "providerDefinition \<Rightarrow> fields \<Rightarrow> fields" where
  "webFields current fs =
     fold (\<lambda>key r. case map_of fs key of Some v \<Rightarrow> AList.update key v r | None \<Rightarrow> r) (pd_web current) (pd_webDefaults current)"

definition pluralProviders :: "provider_parameter \<Rightarrow> environment \<Rightarrow> nat \<Rightarrow> fields list result" where
  "pluralProviders p env indexed =
     (let raw = env_get env (par_Plural p) in
      if \<not> par_pluralInput p
      then (if TrimSpace raw \<noteq> []
            then Inl (Errorf ''%s is not supported; use %s'' [par_Plural p, IndexedName (par_Prefix p) 0]) else Inr [])
      else
        bind_res (wrap_res ''%s: %w'' [par_Plural p] (decodeList raw)) (\<lambda>providers.
        if providers \<noteq> [] \<and> indexed \<noteq> 0
        then Inl (Errorf ''cannot combine %s and indexed %s_N variables'' [par_Plural p, par_Prefix p])
        else if hasSecrets env (par_Plural p) \<and> length providers \<noteq> 1
        then Inl (Errorf ''%s credentials require one unindexed JSON provider'' [par_Plural p])
        else Inr providers))"

definition web_provider :: "ProviderConfig \<Rightarrow> fields list" where
  "web_provider config =
     (if pd_web (pc_definition config) \<noteq> [] then [webFields (pc_definition config) (pc_Fields config)] else [])"

definition WebProviders :: "provider_parameter \<Rightarrow> (environment, fields list) eff" where
  "WebProviders p env =
     (case bind_res (par_indexedNames p env) (\<lambda>names.
             bind_res (pluralProviders p env (length names)) (\<lambda>plural.
             bind_res (for_res names (par_decode p env)) (\<lambda>indexed.
             bind_res (for_res plural (par_validate p env (par_Plural p))) (\<lambda>unindexed.
             Inr (names, concat (map web_provider (indexed @ unindexed))))))) of
        Inl e \<Rightarrow> (Inl e, env)
      | Inr (names, providers) \<Rightarrow>
          (Inr providers,
           deleteSecrets (par_Plural p)
             (fold (\<lambda>name e. env_delete (deleteSecrets name (env_delete e name)) (name @ schemaSuffix)) names env)))"

section \<open>The two families\<close>

lemma providerTLSFiles_names: "providerTLSFiles = [''ssl_cert_file'', ''ssl_key_file'']"
  by code_simp

lemma secret_fields: "map Field providerSecretDefinitions =
    [''username'', ''password'', ''ssl_key_password'', ''ssl_cert_file'', ''ssl_key_file'', ''ssl_ca_location'']"
  by code_simp

lemma family_provider:
  assumes "p = History \<or> p = Telemetry" "map_of (par_providers p) name = Some current"
  shows "set (pd_files current) \<subseteq> {''ssl_cert_file'', ''ssl_key_file''} \<and> CHR '';'' \<notin> set name"
  using assms
  by (auto simp: History_def Telemetry_def clickHouseHistory_def clickHouseTelemetry_def providerTLSFiles_names split: if_splits)

section \<open>Fields of a validated provider\<close>

lemma for_res_error: "for_res xs f = Inl e \<Longrightarrow> \<exists>x \<in> set xs. f x = Inl e"
  by (induction xs) (auto split: sum.splits)

lemma check_field_entry:
  assumes "check_field p current name (key, v) = Inr entry"
  shows "fst entry = key \<and> key \<noteq> [] \<and> CHR ''='' \<notin> set key \<and>
    (key = valueTypeOption \<and> pd_valueTypes current \<longrightarrow> (\<exists>ts. snd entry = Names ts))"
  using assms
proof -
  have ok: "key \<noteq> [] \<and> \<not> ContainsAny key [CHR '','', CHR ''='', CHR '';'', CHR 0x0D, CHR 0x0A]"
    by (rule ccontr) (use assms in \<open>auto simp: check_field_def\<close>)
  have "CHR ''='' \<notin> set key"
  proof
    assume "CHR ''='' \<in> set key"
    moreover have "List.member [CHR '','', CHR ''='', CHR '';'', CHR 0x0D, CHR 0x0A] (CHR ''='')" by simp
    ultimately show False using ok unfolding ContainsAny_def list_ex_iff by blast
  qed
  moreover have "fst entry = key"
    using assms ok unfolding check_field_def prod.case
    by (simp only: if_False simp_thms) (force simp: map_result_Inr split: if_split_asm option.split_asm)
  moreover have "\<exists>ts. snd entry = Names ts" if "key = valueTypeOption \<and> pd_valueTypes current"
    using assms ok that unfolding check_field_def prod.case
    by (simp only: if_False simp_thms) (force simp: map_result_Inr split: if_split_asm option.split_asm)
  ultimately show ?thesis using ok by simp
qed

lemma checked_fields:
  assumes "for_res fs (check_field p current name) = Inr fs1" "e \<in> set fs1"
  shows "CHR ''='' \<notin> set (fst e) \<and>
    (fst e = valueTypeOption \<and> pd_valueTypes current \<longrightarrow> (\<exists>ts. snd e = Names ts))"
proof -
  obtain key v where "check_field p current name (key, v) = Inr e"
    using for_res_set [OF assms] by auto
  from check_field_entry [OF this] show ?thesis by simp
qed

lemma apply_secrets_keys:
  assumes "apply_secrets env name ds fs = Inr fs'"
  shows "fst ` set fs' \<subseteq> fst ` set fs \<union> set (map Field ds) \<and>
    (key \<notin> set (map Field ds) \<longrightarrow> map_of fs' key = map_of fs key)"
  using assms
proof (induction ds arbitrary: fs)
  case (Cons d ds)
  obtain fs1 where "apply_secrets env name ds fs1 = Inr fs'"
    and "fs1 = fs \<or> (\<exists>v. fs1 = AList.update (Field d) v fs)"
    using Cons.prems by (auto simp: Let_def split: if_splits)
  with Cons.IH [of fs1] show ?case
    by (auto simp: dom_update update_conv' simp flip: dom_map_of_conv_image_fst)
qed simp

lemma update_keys: "fst ` set (AList.update k v fs) = insert k (fst ` set fs)"
  by (auto simp: dom_update)

lemma set_missing_keys:
  "fst ` set (set_missing k v fs) \<subseteq> insert k (fst ` set fs)"
  "key \<noteq> k \<Longrightarrow> map_of (set_missing k v fs) key = map_of fs key"
  by (auto simp: set_missing_def update_keys update_conv')

lemma defaults_keys:
  assumes "p = History \<or> p = Telemetry"
  shows "fst ` set (par_defaults p fs) \<subseteq> fst ` set fs \<union> {''ssl_verify_peer'', ''ssl_verify_host''} \<and>
    (key \<notin> {''ssl_verify_peer'', ''ssl_verify_host''} \<longrightarrow> map_of (par_defaults p fs) key = map_of fs key)"
proof -
  have "par_defaults p fs = fs \<or> par_defaults p fs =
      set_missing ''ssl_verify_host'' (Plain (JBool True)) (set_missing ''ssl_verify_peer'' (Plain (JBool True)) fs)"
    using assms by (auto simp: History_def Telemetry_def telemetryDefaults_def)
  moreover have "fst ` set (set_missing h v (set_missing q v fs)) \<subseteq> fst ` set fs \<union> {q, h}"
    "key \<notin> {q, h} \<longrightarrow> map_of (set_missing h v (set_missing q v fs)) key = map_of fs key" for h q v
    using set_missing_keys(1) [of h v "set_missing q v fs"] set_missing_keys(1) [of q v fs]
    by (blast, simp add: set_missing_keys(2))
  ultimately show ?thesis by (elim disjE) (simp_all only: simp_thms Un_upper1)
qed

definition location_names :: "string list" where
  "location_names = [''ssl_cert_location'', ''ssl_key_location'']"

lemma split_files_keys:
  assumes "set keys \<subseteq> {''ssl_cert_file'', ''ssl_key_file''}"
  shows "fst ` set (split_files keys fs) \<subseteq> fst ` set fs \<union> set keys \<union> set location_names \<and>
    (key \<notin> set keys \<union> set location_names \<longrightarrow> map_of (split_files keys fs) key = map_of fs key)"
  using assms
proof (induction keys arbitrary: fs)
  case (Cons k keys)
  define fs1 where "fs1 = (let v = text_or_empty fs k in
      if IsAbs v
      then AList.update k (text_field (path_Base v))
             (AList.update (TrimSuffix k ''_file'' @ ''_location'') (text_field (path_Dir v)) fs)
      else fs)"
  have "TrimSuffix ''ssl_cert_file'' ''_file'' @ ''_location'' = ''ssl_cert_location''"
    "TrimSuffix ''ssl_key_file'' ''_file'' @ ''_location'' = ''ssl_key_location''" by code_simp+
  then have "TrimSuffix k ''_file'' @ ''_location'' \<in> set location_names"
    using Cons.prems by (auto simp: location_names_def)
  then have step: "fst ` set fs1 \<subseteq> fst ` set fs \<union> set (k # keys) \<union> set location_names"
    "key \<notin> set (k # keys) \<union> set location_names \<Longrightarrow> map_of fs1 key = map_of fs key"
    by (auto simp: fs1_def Let_def update_conv' update_keys)
  have split: "split_files (k # keys) fs = split_files keys fs1" by (simp add: fs1_def)
  have "set keys \<subseteq> {''ssl_cert_file'', ''ssl_key_file''}" using Cons.prems by simp
  note rest = Cons.IH [OF this, of fs1]
  show ?case unfolding split
  proof (intro conjI impI)
    show "fst ` set (split_files keys fs1) \<subseteq> fst ` set fs \<union> set (k # keys) \<union> set location_names"
      using rest [THEN conjunct1] step(1) by auto
    show "map_of (split_files keys fs1) key = map_of fs key" if "key \<notin> set (k # keys) \<union> set location_names"
      using rest [THEN conjunct2] step(2) that by auto
  qed
qed simp

text \<open>What the fields of a validated provider look like: no key can end an option name, and value
  types are a list of names where the provider has them.\<close>

definition typed_fields :: "providerDefinition \<Rightarrow> fields \<Rightarrow> bool" where
  "typed_fields current fs \<longleftrightarrow>
     (\<forall>key \<in> fst ` set fs. CHR ''='' \<notin> set key) \<and>
     (pd_valueTypes current \<longrightarrow> (\<forall>v. map_of fs valueTypeOption = Some v \<longrightarrow> (\<exists>ts. v = Names ts)))"

lemma par_validate_typed:
  assumes "p = History \<or> p = Telemetry" "par_validate p env name fs = Inr config"
  shows "typed_fields (pc_definition config) (pc_Fields config) \<and>
    map_of (par_providers p) (pc_Provider config) = Some (pc_definition config)"
proof -
  obtain current where current: "map_of (par_providers p) (text_or_empty fs ''provider'') = Some current"
    using assms(2) by (cases "map_of (par_providers p) (text_or_empty fs ''provider'')") (simp_all add: par_validate_def Let_def)
  then obtain fs1 fs2 where checked: "for_res fs (check_field p current name) = Inr fs1"
    and secrets': "(if \<not> pd_secrets current
           then (if hasSecrets env name
                 then Inl (Errorf ''%s credentials are only supported by ClickHouse providers'' [name]) else Inr fs1)
           else applySecrets env name fs1) = Inr fs2"
    and config: "config = \<lparr>pc_Name = name, pc_Provider = text_or_empty fs ''provider'', pc_SchemaOptions = [],
           pc_Fields = par_defaults p fs2,
           pc_ValueTypes = (if pd_valueTypes current
                            then (case map_of (par_defaults p fs2) valueTypeOption of Some (Names ts) \<Rightarrow> ts | _ \<Rightarrow> []) else []),
           pc_definition = current\<rparr>"
    using assms(2) [unfolded par_validate_def Let_def current option.case bind_res_Inr]
    by (elim exE conjE) (rule that; (assumption | drule Inr_inject, erule sym))
  have secrets: "fs2 = fs1 \<or> apply_secrets env name providerSecretDefinitions fs1 = Inr fs2"
    using secrets' unfolding applySecrets_def by (simp split: if_split_asm)
  have keys1: "CHR ''='' \<notin> set key" if "key \<in> fst ` set fs1" for key
    using that checked_fields [OF checked] by blast
  have types1: "\<exists>ts. v = Names ts" if "map_of fs1 valueTypeOption = Some v" "pd_valueTypes current" for v
    using checked_fields [OF checked map_of_SomeD [OF that(1)]] that(2) by simp
  have other: "valueTypeOption \<notin> set (map Field providerSecretDefinitions)"
    "valueTypeOption \<notin> {''ssl_verify_peer'', ''ssl_verify_host''}"
    by (simp_all add: secret_fields valueTypeOption_def)
  have keys2: "fst ` set fs2 \<subseteq> fst ` set fs1 \<union> set (map Field providerSecretDefinitions) \<and>
      map_of fs2 valueTypeOption = map_of fs1 valueTypeOption"
    using secrets apply_secrets_keys [of env name providerSecretDefinitions fs1 fs2 valueTypeOption] other by auto
  have "\<forall>key \<in> set (map Field providerSecretDefinitions) \<union> {''ssl_verify_peer'', ''ssl_verify_host''}. CHR ''='' \<notin> set key"
    by (simp add: secret_fields)
  then have "CHR ''='' \<notin> set key" if "key \<in> fst ` set (par_defaults p fs2)" for key
    using that keys1 keys2 defaults_keys [OF assms(1), of fs2 valueTypeOption] by blast
  moreover have "map_of (par_defaults p fs2) valueTypeOption = map_of fs1 valueTypeOption"
    using keys2 defaults_keys [OF assms(1), of fs2 valueTypeOption] other by simp
  ultimately show ?thesis
    using types1 current by (auto simp: typed_fields_def config)
qed

text \<open>C40: the unchecked type assertion on the value types never fails: whatever JSON and environment a
  provider comes from, once it is validated its value types are a list of names when they are
  rendered.\<close>

theorem renderNative_typed:
  assumes "par_validate p env name fs = Inr config" "p = History \<or> p = Telemetry"
  shows "renderNative number (pc_Provider config) (pc_definition config) (pc_Fields config) \<noteq> Inl InterfaceConversion"
proof
  let ?current = "pc_definition config" and ?fs = "split_files (pd_files (pc_definition config)) (pc_Fields config)"
  note typed = par_validate_typed [OF assms(2,1)]
  have files: "set (pd_files ?current) \<subseteq> {''ssl_cert_file'', ''ssl_key_file''}"
    using family_provider [OF assms(2)] typed by blast
  have other: "valueTypeOption \<notin> set (pd_files ?current) \<union> set location_names"
    using files by (auto simp: valueTypeOption_def location_names_def)
  have types: "map_of ?fs valueTypeOption = map_of (pc_Fields config) valueTypeOption"
    using split_files_keys [OF files, of "pc_Fields config" valueTypeOption] other by simp
  assume "renderNative number (pc_Provider config) ?current (pc_Fields config) = Inl InterfaceConversion"
  then have "for_res (filter (\<lambda>key. key \<noteq> ''provider'') (sort (map fst ?fs))) (native_option number ?current ?fs) =
      Inl InterfaceConversion"
    by (auto simp: renderNative_def Let_def bind_res_Inl)
  then obtain key where "native_option number ?current ?fs key = Inl InterfaceConversion"
    using for_res_error by blast
  then show False
    using types typed
    by (auto simp: native_option_def nativeOption_def InterfaceConversion_def typed_fields_def
        split: option.splits field_value.splits json.splits if_splits)
qed

section \<open>Reading native options\<close>

lemma quoteOption_escaped: "quoteOption = escaped (CHR 0x22)"
proof
  fix v
  have "concat (map (\<lambda>c. if c = CHR 0x22 then [CHR 0x5C, CHR 0x22] else [c])
      (concat (map (\<lambda>c. if c = CHR 0x5C then [CHR 0x5C, CHR 0x5C] else [c]) v))) = escape_quoted (CHR 0x22) v"
    by (induction v) (simp_all add: escape_quoted_def)
  then show "quoteOption v = escaped (CHR 0x22) v"
    by (simp add: quoteOption_def escaped_def ReplaceAll_char)
qed

interpretation native_text: quoting quoteOption "read_escaped (CHR 0x22)" "\<lambda>_. True"
  unfolding quoteOption_escaped by (rule quoting_escaped) simp

text \<open>The reader of the native parameter: a provider, then options that are separated by commas, each a
  name and a text that may be quoted.\<close>

definition read_text :: "string \<Rightarrow> (string \<times> string) option" where
  "read_text s =
     (if HasPrefix s [CHR 0x22] then read_escaped (CHR 0x22) s
      else Some (takeWhile (\<lambda>c. c \<noteq> CHR '','') s, dropWhile (\<lambda>c. c \<noteq> CHR '','') s))"

fun read_options :: "nat \<Rightarrow> string \<Rightarrow> (string \<times> string) list option" where
  "read_options 0 s = (if s = [] then Some [] else None)"
| "read_options (Suc n) s =
     (if s = [] then Some []
      else
        (case Cut s (CHR ''='') of (key, rest, found) \<Rightarrow>
           if \<not> found then None
           else
             (case read_text rest of
                None \<Rightarrow> None
              | Some (v, []) \<Rightarrow> Some [(key, v)]
              | Some (v, c # r) \<Rightarrow>
                  if c = CHR '','' then map_option ((#) (key, v)) (read_options n r) else None)))"

definition read_native :: "string \<Rightarrow> (string \<times> (string \<times> string) list) option" where
  "read_native s =
     (case Cut s (CHR '';'') of (provider, rest, found) \<Rightarrow>
        if found then map_option (Pair provider) (read_options (length rest) rest) else None)"

text \<open>The options that the fields of a provider stand for.\<close>

definition option_name :: "providerDefinition \<Rightarrow> string \<Rightarrow> string" where
  "option_name current key = (if key = valueTypeOption \<and> pd_valueTypes current then ''value_types'' else key)"

definition option_text :: "(string \<Rightarrow> string) \<Rightarrow> field_value \<Rightarrow> string" where
  "option_text number v =
     (case v of
        Plain (JString s) \<Rightarrow> s
      | Plain (JNumber n) \<Rightarrow> number n
      | Plain (JBool b) \<Rightarrow> if b then ''1'' else ''0''
      | Names ts \<Rightarrow> Join ts '',''
      | _ \<Rightarrow> [])"

definition native_options :: "(string \<Rightarrow> string) \<Rightarrow> providerDefinition \<Rightarrow> fields \<Rightarrow> (string \<times> string) list" where
  "native_options number current fs =
     map (\<lambda>key. (option_name current key, case map_of fs key of Some v \<Rightarrow> option_text number v | None \<Rightarrow> []))
       (filter (\<lambda>key. key \<noteq> ''provider'') (sort (map fst fs)))"

definition plain_number :: "string \<Rightarrow> bool" where
  "plain_number s \<longleftrightarrow> list_all (\<lambda>c. is_digit c \<or> c = CHR ''-'' \<or> c = CHR ''.'') s"

text \<open>An option that is read back as the pair.\<close>

definition reads_option :: "string \<Rightarrow> string \<times> string \<Rightarrow> bool" where
  "reads_option opt kv \<longleftrightarrow>
     CHR ''='' \<notin> set (fst kv) \<and>
     (opt = fst kv @ ''='' @ quoteOption (snd kv) \<or>
      opt = fst kv @ ''='' @ snd kv \<and> CHR '','' \<notin> set (snd kv) \<and> CHR 0x22 \<notin> set (snd kv))"

lemma read_text_quoted: "read_text (quoteOption s @ r) = Some (s, r)"
proof -
  have "HasPrefix (quoteOption s @ r) [CHR 0x22]" by (simp add: quoteOption_def HasPrefix_def)
  then show ?thesis unfolding read_text_def by (simp only: if_True native_text.read_encode)
qed

lemma read_text_plain:
  assumes "CHR '','' \<notin> set s" "CHR 0x22 \<notin> set s" "r = [] \<or> hd r = CHR '',''"
  shows "read_text (s @ r) = Some (s, r)"
proof -
  have "\<not> HasPrefix (s @ r) [CHR 0x22]"
    using assms by (cases s; cases r) (auto simp: HasPrefix_def)
  moreover have "takeWhile (\<lambda>c. c \<noteq> CHR '','') (s @ r) = s \<and> dropWhile (\<lambda>c. c \<noteq> CHR '','') (s @ r) = r"
    using assms by (cases r) (auto simp: takeWhile_append dropWhile_append)
  ultimately show ?thesis by (simp add: read_text_def)
qed

lemma reads_option_text:
  assumes "reads_option opt (k, v)" "r = [] \<or> hd r = CHR '',''"
  shows "\<exists>t. opt @ r = k @ CHR ''='' # t \<and> read_text t = Some (v, r) \<and> CHR ''='' \<notin> set k"
proof -
  have name: "CHR ''='' \<notin> set k" using assms(1) by (simp add: reads_option_def)
  consider "opt = k @ ''='' @ quoteOption v" | "opt = k @ ''='' @ v" "CHR '','' \<notin> set v" "CHR 0x22 \<notin> set v"
    using assms(1) unfolding reads_option_def fst_conv snd_conv by blast
  then show ?thesis
  proof cases
    case 1
    show ?thesis by (rule exI [of _ "quoteOption v @ r"]) (simp only: 1 name read_text_quoted append_assoc append_Cons append_Nil simp_thms)
  next
    case 2
    show ?thesis
      by (rule exI [of _ "v @ r"])
        (simp only: 2(1) name read_text_plain [OF 2(2,3) assms(2)] append_assoc append_Cons append_Nil simp_thms)
  qed
qed

lemma read_options_Join:
  "list_all2 reads_option opts kvs \<Longrightarrow> length opts \<le> n \<Longrightarrow> read_options n (Join opts '','') = Some kvs"
proof (induction opts kvs arbitrary: n rule: list_all2_induct)
  case Nil
  then show ?case by (cases n) auto
next
  case (Cons opt opts kv kvs)
  obtain k v where kv: "kv = (k, v)" by fastforce
  obtain m where n: "n = Suc m" "length opts \<le> m" using Cons.prems by (cases n) auto
  define r where "r = (if opts = [] then [] else CHR '','' # Join opts '','')"
  have join: "Join (opt # opts) '','' = opt @ r" by (cases opts) (auto simp: r_def)
  have "r = [] \<or> hd r = CHR '',''" by (simp add: r_def)
  then obtain t where t: "opt @ r = k @ CHR ''='' # t" "read_text t = Some (v, r)" "CHR ''='' \<notin> set k"
    using reads_option_text [of opt k v r] Cons.hyps(1) by (auto simp only: kv)
  have "opt @ r \<noteq> []" using t(1) by simp
  then have "read_options n (opt @ r) =
      (case r of [] \<Rightarrow> Some [(k, v)] | c # r \<Rightarrow> if c = CHR '','' then map_option ((#) (k, v)) (read_options m r) else None)"
    unfolding n(1) by (simp add: t Cut_append split: list.split)
  then show ?case
    using Cons.IH [OF n(2)] Cons.hyps(2) by (auto simp: join kv r_def split: if_splits)
qed

lemma length_Join: "(\<And>x. x \<in> set xs \<Longrightarrow> x \<noteq> []) \<Longrightarrow> length xs \<le> length (Join xs sep)"
proof (induction xs sep rule: Join.induct)
  case (3 x y ys sep)
  then have "length (y # ys) \<le> length (Join (y # ys) sep)" "1 \<le> length x" by (auto simp: Suc_le_eq)
  then have "length (x # y # ys) \<le> length x + length (Join (y # ys) sep)" by simp
  then show ?case unfolding Join.simps length_append by linarith
qed (auto simp: Suc_le_eq)

lemma plain_number_chars: "plain_number s \<Longrightarrow> CHR '','' \<notin> set s \<and> CHR 0x22 \<notin> set s"
  by (auto simp: plain_number_def list_all_iff is_digit_def)

lemma native_option_reads:
  assumes "native_option number current fs key = Inr opt" "key \<in> fst ` set fs" "CHR ''='' \<notin> set key"
    and "\<And>n. plain_number (number n)"
  shows "reads_option opt (option_name current key, case map_of fs key of Some v \<Rightarrow> option_text number v | None \<Rightarrow> [])"
proof -
  obtain v where v: "map_of fs key = Some v"
    using assms(2) by (metis map_of_eq_None_iff option.exhaust)
  note num = plain_number_chars [OF assms(4)]
  show ?thesis
  proof (cases "key = valueTypeOption \<and> pd_valueTypes current")
    case True
    then obtain ts where "v = Names ts" "opt = ''value_types='' @ quoteOption (Join ts '','')"
      using assms(1) v by (auto simp: native_option_def split: field_value.splits)
    with True v show ?thesis by (simp add: reads_option_def option_name_def option_text_def)
  next
    case False
    then have opt: "nativeOption number key v = Inr opt" and name: "option_name current key = key"
      using assms(1) v by (auto simp: native_option_def option_name_def)
    show ?thesis
    proof (cases v)
      case (Plain j)
      with opt num show ?thesis
        by (cases j) (auto simp: nativeOption_def reads_option_def option_text_def name v assms(3) split: if_splits)
    next
      case (Names ts)
      with opt show ?thesis by (simp add: nativeOption_def)
    qed
  qed
qed

lemma for_res_all2:
  "for_res xs f = Inr ys \<Longrightarrow> (\<And>x y. x \<in> set xs \<Longrightarrow> f x = Inr y \<Longrightarrow> P y (g x)) \<Longrightarrow> list_all2 P ys (map g xs)"
  by (induction xs arbitrary: ys) (auto split: sum.splits)

lemma reads_option_length: "list_all2 reads_option opts kvs \<Longrightarrow> length opts \<le> length (Join opts '','')"
  by (rule length_Join) (auto simp: list_all2_conv_all_nth in_set_conv_nth reads_option_def)

text \<open>C19: the native parameter says what the provider says and nothing else: reading it back gives the
  provider and exactly its options, whatever characters the values have, so that no value can add or
  end an option.\<close>

theorem renderNative_roundtrip:
  assumes "par_validate p env name fs = Inr config" "p = History \<or> p = Telemetry"
    and "renderNative number (pc_Provider config) (pc_definition config) (pc_Fields config) = Inr rendered"
    and "\<And>n. plain_number (number n)"
  shows "read_native rendered =
    Some (pc_Provider config,
          native_options number (pc_definition config) (split_files (pd_files (pc_definition config)) (pc_Fields config)))"
proof -
  let ?current = "pc_definition config" and ?fs = "split_files (pd_files (pc_definition config)) (pc_Fields config)"
  let ?keys = "filter (\<lambda>key. key \<noteq> ''provider'') (sort (map fst ?fs))"
  note typed = par_validate_typed [OF assms(2,1)]
  have family: "set (pd_files ?current) \<subseteq> {''ssl_cert_file'', ''ssl_key_file''} \<and> CHR '';'' \<notin> set (pc_Provider config)"
    using family_provider [OF assms(2)] typed by blast
  have named: "CHR ''='' \<notin> set key" if "key \<in> fst ` set ?fs" for key
  proof -
    have "CHR ''='' \<notin> set k" if "k \<in> {''ssl_cert_file'', ''ssl_key_file''} \<union> set location_names" for k
      using that by (auto simp: location_names_def)
    moreover have "key \<in> fst ` set (pc_Fields config) \<union> set (pd_files ?current) \<union> set location_names"
      using that split_files_keys [OF family [THEN conjunct1], THEN conjunct1] by (rule subsetD [rotated])
    ultimately show ?thesis
      using family typed unfolding typed_fields_def by (elim UnE) auto
  qed
  obtain opts where opts: "for_res ?keys (native_option number ?current ?fs) = Inr opts"
    and rendered: "rendered = pc_Provider config @ '';'' @ Join opts '',''"
    using assms(3) by (auto simp: renderNative_def Let_def)
  have all: "list_all2 reads_option opts (native_options number ?current ?fs)"
    unfolding native_options_def
  proof (rule for_res_all2 [OF opts])
    fix key opt
    assume "key \<in> set ?keys" and run: "native_option number ?current ?fs key = Inr opt"
    then have "key \<in> fst ` set ?fs" by simp
    from native_option_reads [OF run this named [OF this] assms(4)]
    show "reads_option opt (option_name ?current key, case map_of ?fs key of Some v \<Rightarrow> option_text number v | None \<Rightarrow> [])" .
  qed
  have "Cut rendered (CHR '';'') = (pc_Provider config, Join opts '','', True)"
    using family by (simp add: rendered Cut_append)
  then show ?thesis
    using read_options_Join [OF all reads_option_length [OF all]] by (simp add: read_native_def)
qed

section \<open>Credentials are consumed\<close>

definition credential_names :: "string \<Rightarrow> string list" where
  "credential_names name = concat (map (secret_variables name) providerSecretDefinitions)"

lemma deleteSecrets_env:
  "env_has (deleteSecrets name env) v \<longleftrightarrow> env_has env v \<and> v \<notin> set (credential_names name)"
  "env_get (deleteSecrets name env) v = (if v \<in> set (credential_names name) then [] else env_get env v)"
proof -
  have "env_has (fold (\<lambda>v e. env_delete e v) vs env) v \<longleftrightarrow> env_has env v \<and> v \<notin> set vs"
    "env_get (fold (\<lambda>v e. env_delete e v) vs env) v = (if v \<in> set vs then [] else env_get env v)" for vs
    by (induction vs arbitrary: env) (auto simp: env_simps)
  then show "env_has (deleteSecrets name env) v \<longleftrightarrow> env_has env v \<and> v \<notin> set (credential_names name)"
    "env_get (deleteSecrets name env) v = (if v \<in> set (credential_names name) then [] else env_get env v)"
    by (simp_all add: deleteSecrets_def credential_names_def)
qed

lemma delete_names:
  "env_has (fold (\<lambda>name e. env_delete e (name @ suff)) names env) v \<longleftrightarrow>
     env_has env v \<and> (\<forall>name \<in> set names. v \<noteq> name @ suff)"
  "env_get (fold (\<lambda>name e. env_delete e (name @ suff)) names env) v =
     (if \<exists>name \<in> set names. v = name @ suff then [] else env_get env v)"
  by (induction names arbitrary: env) (auto simp: env_simps)

lemma credential_names_letter:
  "v \<in> set (credential_names name) \<Longrightarrow> v \<noteq> [] \<and> \<not> is_digit (last v)"
  by (auto simp: credential_names_def providerSecretDefinitions_def secret_variables_def Let_def is_digit_def)

lemma indexedNames_digit:
  assumes "NewConfiguration env p = Inr names" "name \<in> set names"
  shows "name \<noteq> [] \<and> is_digit (last name)"
proof -
  obtain parts vs v where "CollectIndexed (concat parts) [par_Prefix p] True = Inr vs" "v \<in> set vs" "name = Name v"
    using assms by (auto simp: NewConfiguration_def par_indexedNames_def indexedNames_def split: if_splits)
  with CollectIndexed_set [of "concat parts" "[par_Prefix p]" True vs v]
  have "0 \<le> Index v \<and> name = IndexedName (par_Prefix p) (Index v)" by auto
  moreover have "Itoa (Index v) \<noteq> [] \<and> list_all is_digit (Itoa (Index v))" if "0 \<le> Index v"
    using that by (simp add: Itoa_def dec_of_nat_digits)
  ultimately show ?thesis by (auto simp: IndexedName_def list_all_iff)
qed

lemma preserves_collect:
  assumes "\<And>x. preserves P (body x)"
  shows "preserves P (collect_eff xs body)"
  by (induction xs) (auto intro!: preserving assms)

lemma collect_eff_all2:
  assumes "collect_eff xs body s = (Inr ys, s')" "P s" "\<And>x. preserves P (body x)"
  shows "list_all2 (\<lambda>x y. \<exists>s1 s2. P s1 \<and> body x s1 = (Inr y, s2)) xs ys"
  using assms(1,2)
proof (induction xs arbitrary: s ys)
  case (Cons x xs)
  then obtain y s1 ys' where "body x s = (Inr y, s1)" "collect_eff xs body s1 = (Inr ys', s')" "ys = y # ys'"
    by (auto simp: bind_eff_Inr)
  with Cons preservesD [OF assms(3)] show ?case by auto
qed simp

definition write_values :: "(string \<times> string) list \<Rightarrow> environment \<Rightarrow> environment" where
  "write_values vs env = fold (\<lambda>(name, v) e. deleteSecrets name (env_set e name v)) vs env"

lemma write_values_env:
  assumes "\<forall>n \<in> fst ` set vs. \<forall>m. n \<notin> set (credential_names m)"
  shows "(env_has (write_values vs env) x \<longleftrightarrow>
      (x \<in> fst ` set vs \<or> env_has env x) \<and> (\<forall>n \<in> fst ` set vs. x \<notin> set (credential_names n))) \<and>
    (x \<notin> fst ` set vs \<and> (\<forall>n \<in> fst ` set vs. x \<notin> set (credential_names n)) \<longrightarrow>
      env_get (write_values vs env) x = env_get env x) \<and>
    (x \<in> fst ` set vs \<longrightarrow> (x, env_get (write_values vs env) x) \<in> set vs)"
  using assms
proof (induction vs arbitrary: env)
  case Nil
  show ?case by (simp add: write_values_def)
next
  case (Cons nv vs)
  obtain n v where nv: "nv = (n, v)" by fastforce
  let ?env = "deleteSecrets n (env_set env n v)"
  have step: "write_values ((n, v) # vs) env = write_values vs ?env" by (simp add: write_values_def)
  have others: "\<forall>n \<in> fst ` set vs. \<forall>m. n \<notin> set (credential_names m)" and n: "\<And>m. n \<notin> set (credential_names m)"
    using Cons.prems by (auto simp: nv)
  note IH = Cons.IH [OF others, of ?env]
  have first: "env_has ?env x \<longleftrightarrow> (x = n \<or> env_has env x) \<and> x \<notin> set (credential_names n)"
    "env_get ?env x = (if x \<in> set (credential_names n) then [] else if x = n then v else env_get env x)"
    using n by (auto simp: deleteSecrets_env env_simps)
  have keep: "x \<notin> set (credential_names n)" if "x \<in> fst ` set vs" using others that by blast
  have names: "fst ` set ((n, v) # vs) = insert n (fst ` set vs)" by simp
  show ?case
    unfolding nv step names
  proof (intro conjI impI)
    show "env_has (write_values vs ?env) x \<longleftrightarrow>
        (x \<in> insert n (fst ` set vs) \<or> env_has env x) \<and> (\<forall>m \<in> insert n (fst ` set vs). x \<notin> set (credential_names m))"
      using IH [THEN conjunct1] first(1) keep n by blast
    show "env_get (write_values vs ?env) x = env_get env x"
      if "x \<notin> insert n (fst ` set vs) \<and> (\<forall>m \<in> insert n (fst ` set vs). x \<notin> set (credential_names m))"
      using IH [THEN conjunct2, THEN conjunct1] first(2) that by simp
    show "(x, env_get (write_values vs ?env) x) \<in> set ((n, v) # vs)" if "x \<in> insert n (fst ` set vs)"
    proof (cases "x \<in> fst ` set vs")
      case True
      with IH [THEN conjunct2, THEN conjunct2] show ?thesis by simp
    next
      case False
      with that have "x = n" by simp
      then show ?thesis
        using IH [THEN conjunct2, THEN conjunct1] first(2) False others n by simp
    qed
  qed
qed

lemma native_value_run:
  assumes "native_value number p name c = (Inr vs, c')"
  shows "if looksLikeJSONObject (env_get (fst c) name)
    then \<exists>(config :: ProviderConfig) v. vs = [(name, v)] \<and>
      renderNative number (pc_Provider config) (pc_definition config) (pc_Fields config) = Inr v
    else vs = []"
proof (cases "looksLikeJSONObject (env_get (fst c) name)")
  case True
  then obtain config c1 where decoded: "conf_decode p name c = (Inr config, c1)"
    and rest: "bind_eff (query_eff (\<lambda>_. wrap_res ''%s: %w'' [name]
                (renderNative number (pc_Provider config) (pc_definition config) (pc_Fields config)))) (\<lambda>v. ret [(name, v)]) c1 =
      (Inr vs, c')"
    using assms by (auto simp: native_value_def bind_eff_Inr [of "conf_decode p name"])
  from rest obtain v where
    "renderNative number (pc_Provider config) (pc_definition config) (pc_Fields config) = Inr v" "vs = [(name, v)]"
    by (auto simp: bind_eff_Inr)
  with True show ?thesis by auto
next
  case False
  with assms show ?thesis by (simp add: native_value_def split: if_split_asm)
qed

lemma conf_decode_env: "preserves (\<lambda>c. fst c = env) (conf_decode p name)"
  by (rule preservesI) (auto simp: conf_decode_def Let_def split: option.splits sum.splits)

lemma native_value_env: "preserves (\<lambda>c. fst c = env) (native_value number p name)"
proof (rule preservesI)
  have run: "preserves (\<lambda>c. fst c = env) (bind_eff (conf_decode p name) (\<lambda>config.
        bind_eff (query_eff (\<lambda>_. wrap_res ''%s: %w'' [name]
                    (renderNative number (pc_Provider config) (pc_definition config) (pc_Fields config)))) (\<lambda>v.
        ret [(name, v)])))"
    by (intro preserving conf_decode_env)
  show "fst c' = env" if "fst c = env" "native_value number p name c = (r, c')" for c r c'
    using preservesD [OF run _ that(1)] that by (auto simp: native_value_def split: if_splits)
qed

text \<open>C20: writing the native configuration consumes the inputs and nothing else.  Without an error,
  the schema options and, for every JSON provider, all of its credential variables are gone from the
  environment of the service, the variable of the provider holds its rendered form, and every other
  variable is what it was; with an error, the environment is unchanged.\<close>

theorem ConfigureNative_consumes:
  assumes "NewConfiguration env p = Inr names" "ConfigureNative number p names (env, decoded) = (r, (env', decoded'))"
  shows "case r of
      Inl _ \<Rightarrow> env' = env
    | Inr _ \<Rightarrow>
        (let providers = filter (\<lambda>name. looksLikeJSONObject (env_get env name)) names;
             consumed = map (\<lambda>name. name @ schemaSuffix) names @ concat (map credential_names providers) in
         \<forall>v. if v \<in> set consumed then \<not> env_has env' v
             else if v \<in> set providers
             then \<exists>config :: ProviderConfig. renderNative number (pc_Provider config) (pc_definition config) (pc_Fields config) = Inr (env_get env' v)
             else env_get env' v = env_get env v \<and> env_has env' v = env_has env v)"
proof -
  obtain q c where run: "collect_eff names (native_value number p) (env, decoded) = (q, c)" by (rule prod.exhaust)
  have env: "fst c = env"
    using preservesD [OF preserves_collect [OF native_value_env] run] by simp
  show ?thesis
  proof (cases q)
    case (Inl e)
    with run env assms(2) show ?thesis by (auto simp: ConfigureNative_def bind_eff_def)
  next
    case (Inr vs)
    let ?providers = "filter (\<lambda>name. looksLikeJSONObject (env_get env name)) names"
    have r: "r = Inr ()" and env': "env' = fold (\<lambda>name e. env_delete e (name @ schemaSuffix)) names (write_values (concat vs) env)"
      using run env assms(2) Inr by (auto simp: ConfigureNative_def bind_eff_def write_values_def)
    have "list_all2 (\<lambda>name vs. \<exists>c1 c2. fst c1 = env \<and> native_value number p name c1 = (Inr vs, c2)) names vs"
      using collect_eff_all2 [OF run [unfolded Inr] _ native_value_env] by simp
    then have each: "list_all2 (\<lambda>name vs. if looksLikeJSONObject (env_get env name)
        then \<exists>(config :: ProviderConfig) v. vs = [(name, v)] \<and>
          renderNative number (pc_Provider config) (pc_definition config) (pc_Fields config) = Inr v
        else vs = []) names vs"
      by (rule list_all2_mono) (use native_value_run in blast)
    then have written: "fst ` set (concat vs) = set ?providers"
      and rendered: "\<forall>(n, v) \<in> set (concat vs). \<exists>config :: ProviderConfig.
        renderNative number (pc_Provider config) (pc_definition config) (pc_Fields config) = Inr v"
      by (induction rule: list_all2_induct) (auto split: if_splits)
    have digit: "n \<notin> set (credential_names m)" "n \<noteq> m @ schemaSuffix" if "n \<in> set ?providers" for n m
      using indexedNames_digit [OF assms(1), of n] credential_names_letter [of n m] that
      by (auto simp: schemaSuffix_def is_digit_def)
    have names: "\<forall>n \<in> fst ` set (concat vs). \<forall>m. n \<notin> set (credential_names m)"
      using digit(1) written by blast
    show ?thesis
      unfolding r sum.case Let_def
    proof (intro allI)
      fix v
      let ?consumed = "map (\<lambda>name. name @ schemaSuffix) names @ concat (map credential_names ?providers)"
      show "if v \<in> set ?consumed then \<not> env_has env' v
         else if v \<in> set ?providers
         then \<exists>config :: ProviderConfig. renderNative number (pc_Provider config) (pc_definition config) (pc_Fields config) = Inr (env_get env' v)
         else env_get env' v = env_get env v \<and> env_has env' v = env_has env v"
      proof (cases "v \<in> set ?providers")
        case True
        then have "\<forall>name \<in> set names. v \<noteq> name @ schemaSuffix" "\<forall>n \<in> set ?providers. v \<notin> set (credential_names n)"
          using digit by blast+
        moreover have "(v, env_get (write_values (concat vs) env) v) \<in> set (concat vs)"
          using write_values_env [OF names, of env v] written True by blast
        with rendered have "\<exists>config :: ProviderConfig. renderNative number (pc_Provider config) (pc_definition config) (pc_Fields config) =
            Inr (env_get (write_values (concat vs) env) v)" by fast
        ultimately show ?thesis using True by (auto simp: env' delete_names)
      next
        case False
        have "env_has (write_values (concat vs) env) v \<longleftrightarrow>
            env_has env v \<and> (\<forall>n \<in> set ?providers. v \<notin> set (credential_names n))"
          "(\<forall>n \<in> set ?providers. v \<notin> set (credential_names n)) \<Longrightarrow> env_get (write_values (concat vs) env) v = env_get env v"
          using write_values_env [OF names, of env v, unfolded written] False by blast+
        then show ?thesis
          unfolding env' delete_names if_not_P [OF False] by auto
      qed
    qed
  qed
qed

section \<open>Examples\<close>

definition sample_fields :: fields where
  "sample_fields =
     [(''provider'', text_field ''clickhouse''), (''db'', text_field [CHR 0x22, CHR '','', CHR 0x5C]),
      (''types'', Plain (JArray [JString ''uint'', JString ''str''])), (''ssl_key_file'', text_field ''/keys/k.pem'')]"

definition sample_provider :: ProviderConfig where
  "sample_provider =
     \<lparr>pc_Name = ''P'', pc_Provider = ''clickhouse'', pc_SchemaOptions = [],
      pc_Fields = [(''provider'', text_field ''clickhouse''), (''db'', text_field [CHR 0x22, CHR '','', CHR 0x5C]),
                   (''types'', Names [''uint'', ''str'']), (''ssl_key_file'', text_field ''/keys/k.pem'')],
      pc_ValueTypes = [''uint'', ''str''], pc_definition = clickHouseHistory\<rparr>"

lemma sample_validated: "par_validate History [] ''P'' sample_fields = Inr sample_provider"
  by code_simp

lemma renderNative_typed_witness:
  "renderNative (\<lambda>_. ''1'') ''clickhouse'' clickHouseHistory (pc_Fields sample_provider) \<noteq> Inl InterfaceConversion"
  using renderNative_typed [OF sample_validated, of "\<lambda>_. ''1''"] by (simp add: sample_provider_def)

lemma renderNative_roundtrip_witness:
  "\<exists>rendered. renderNative (\<lambda>_. ''1'') ''clickhouse'' clickHouseHistory (pc_Fields sample_provider) = Inr rendered \<and>
     read_native rendered = Some (''clickhouse'',
       [(''db'', [CHR 0x22, CHR '','', CHR 0x5C]), (''ssl_key_file'', ''k.pem''), (''ssl_key_location'', ''/keys''),
        (''value_types'', ''uint,str'')])"
proof -
  let ?number = "\<lambda>_ :: string. ''1''"
  have "map_sum id (\<lambda>_. ()) (renderNative ?number (pc_Provider sample_provider) (pc_definition sample_provider)
      (pc_Fields sample_provider)) = Inr ()" by code_simp
  then obtain rendered where run: "renderNative ?number (pc_Provider sample_provider) (pc_definition sample_provider)
      (pc_Fields sample_provider) = Inr rendered" by (auto simp: map_result_Inr)
  have options: "native_options ?number (pc_definition sample_provider)
      (split_files (pd_files (pc_definition sample_provider)) (pc_Fields sample_provider)) =
    [(''db'', [CHR 0x22, CHR '','', CHR 0x5C]), (''ssl_key_file'', ''k.pem''), (''ssl_key_location'', ''/keys''),
     (''value_types'', ''uint,str'')]" by code_simp
  have number: "plain_number (?number n)" for n by (simp add: plain_number_def is_digit_def)
  have "read_native rendered = Some (pc_Provider sample_provider, native_options ?number (pc_definition sample_provider)
      (split_files (pd_files (pc_definition sample_provider)) (pc_Fields sample_provider)))"
    by (rule renderNative_roundtrip [OF sample_validated _ run number]) simp
  with run options show ?thesis by (simp add: sample_provider_def)
qed

definition sample_provider_env :: environment where
  "sample_provider_env =
     [(''ZBX_TELEMETRYPROVIDER_0'', ''{'' @ marshal_string ''provider'' @ '':'' @ marshal_string ''clickhouse'' @ ''}''),
      (''ZBX_TELEMETRYPROVIDER_0_PASSWORD'', ''secret''), (''PATH'', ''/bin'')]"

lemma ConfigureNative_consumes_witness:
  "\<exists>env decoded. ConfigureNative id Telemetry [''ZBX_TELEMETRYPROVIDER_0''] (sample_provider_env, []) = (Inr (), (env, decoded)) \<and>
     \<not> env_has env ''ZBX_TELEMETRYPROVIDER_0_PASSWORD'' \<and> env_get env ''PATH'' = ''/bin''"
proof -
  let ?names = "[''ZBX_TELEMETRYPROVIDER_0'']"
  have new: "NewConfiguration sample_provider_env Telemetry = Inr ?names" by code_simp
  have "fst (ConfigureNative id Telemetry ?names (sample_provider_env, [])) = Inr ()" by code_simp
  then obtain env decoded where run: "ConfigureNative id Telemetry ?names (sample_provider_env, []) = (Inr (), (env, decoded))"
    by (metis prod.collapse)
  have json: "looksLikeJSONObject (env_get sample_provider_env ''ZBX_TELEMETRYPROVIDER_0'')" by code_simp
  have here: "''ZBX_TELEMETRYPROVIDER_0_PASSWORD'' \<in> set (credential_names ''ZBX_TELEMETRYPROVIDER_0'')"
    "''PATH'' \<notin> set (credential_names ''ZBX_TELEMETRYPROVIDER_0'')" "env_get sample_provider_env ''PATH'' = ''/bin''"
    by code_simp+
  note consumed = ConfigureNative_consumes [OF new run]
  have "\<not> env_has env ''ZBX_TELEMETRYPROVIDER_0_PASSWORD''"
    using consumed json here(1) by (simp add: Let_def)
  moreover have "env_get env ''PATH'' = ''/bin''"
    using consumed [unfolded Let_def sum.case, THEN spec, of "''PATH''"] json here(2,3) by (simp add: schemaSuffix_def)
  ultimately show ?thesis using run by blast
qed

end
