(* ===== verification/StorageInit.thy ===== *)
theory StorageInit
  imports StorageProvider ClickHouse Elasticsearch
begin

text \<open>
  The package \<open>internal/storageinit\<close>: decoding the options of a schema, the connection settings of a
  ClickHouse or Elasticsearch provider, and the preparation of all selected schemas with its retries.
  Logging and deadlines are not modelled.
\<close>

section \<open>Schema options\<close>

text \<open>A decoder reads the first value of the text; the shortest prefix that is a document is that value,
  or a number that the options do not accept anyway.\<close>

definition first_value :: "string \<Rightarrow> (json \<times> string) option" where
  "first_value raw =
     (case find (\<lambda>n. json_document (take n raw) \<noteq> None) [0..<Suc (length raw)] of
        None \<Rightarrow> None
      | Some n \<Rightarrow> map_option (\<lambda>v. (v, drop n raw)) (json_document (take n raw)))"

text \<open>Decoding into a struct that must have a field for every member.\<close>

fun decode_known :: "(string \<times> (json \<Rightarrow> 'r \<Rightarrow> 'r result)) list \<Rightarrow> (string \<times> json) list \<Rightarrow> 'r \<Rightarrow> 'r result" where
  "decode_known decoders [] r = Inr r"
| "decode_known decoders ((k, v) # ms) r =
     (case find (\<lambda>(name, _). EqualFold name k) decoders of
        None \<Rightarrow> Inl (SysError ''json: unknown field'')
      | Some (_, f) \<Rightarrow> bind_res (f v r) (decode_known decoders ms))"

definition decode_bool :: "(bool \<Rightarrow> 'r \<Rightarrow> 'r) \<Rightarrow> json \<Rightarrow> 'r \<Rightarrow> 'r result" where
  "decode_bool upd v r = (case v of JNull \<Rightarrow> Inr r | JBool b \<Rightarrow> Inr (upd b r) | _ \<Rightarrow> Inl TypeMismatch)"

definition decode_bool_pointer :: "(bool option \<Rightarrow> 'r \<Rightarrow> 'r) \<Rightarrow> json \<Rightarrow> 'r \<Rightarrow> 'r result" where
  "decode_bool_pointer upd v r =
     (case v of JNull \<Rightarrow> Inr (upd None r) | JBool b \<Rightarrow> Inr (upd (Some b) r) | _ \<Rightarrow> Inl TypeMismatch)"

definition decode_int :: "(int \<Rightarrow> 'r \<Rightarrow> 'r) \<Rightarrow> json \<Rightarrow> 'r \<Rightarrow> 'r result" where
  "decode_int upd v r =
     (case v of
        JNull \<Rightarrow> Inr r
      | JNumber n \<Rightarrow> (case Atoi n of Some i \<Rightarrow> Inr (upd i r) | None \<Rightarrow> Inl TypeMismatch)
      | _ \<Rightarrow> Inl TypeMismatch)"

definition decodeOptions :: "(string \<times> (json \<Rightarrow> 'r \<Rightarrow> 'r result)) list \<Rightarrow> string \<Rightarrow> 'r \<Rightarrow> 'r result" where
  "decodeOptions decoders raw zero =
     (case first_value raw of
        None \<Rightarrow> Inl (Wrapf ''invalid _SCHEMA: %w'' [] (SysError ''json: invalid document''))
      | Some (v, rest) \<Rightarrow>
          bind_res (wrap_res ''invalid _SCHEMA: %w'' []
              (case v of JNull \<Rightarrow> Inr zero | JObject ms \<Rightarrow> decode_known decoders ms zero | _ \<Rightarrow> Inl TypeMismatch)) (\<lambda>r.
          if list_all json_space rest then Inr r else Inl (Errorf ''_SCHEMA must contain one JSON object'' [])))"

section \<open>Fields of a provider\<close>

text \<open>The name of the dynamic type of a field, as \<open>%T\<close> prints it.\<close>

fun go_type :: "field_value \<Rightarrow> string" where
  "go_type (Names _) = ''[]string''"
| "go_type (Plain JNull) = ''<nil>''"
| "go_type (Plain (JBool _)) = ''bool''"
| "go_type (Plain (JNumber _)) = ''float64''"
| "go_type (Plain (JString _)) = ''string''"
| "go_type (Plain (JArray _)) = ''[]interface {}''"
| "go_type (Plain (JObject _)) = ''map[string]interface {}''"

text \<open>A field that may be absent or null, and is a text otherwise.\<close>

definition optional_text :: "fields \<Rightarrow> string \<Rightarrow> string result" where
  "optional_text fs key =
     (case map_of fs key of
        None \<Rightarrow> Inr []
      | Some (Plain JNull) \<Rightarrow> Inr []
      | Some (Plain (JString s)) \<Rightarrow> Inr s
      | Some v \<Rightarrow> Inl (Errorf ''%s must be a string, got %T'' [key, go_type v]))"

definition providerBool ::
  "('p, 'c, 'k, 'd, 'z) storage_platform \<Rightarrow> fields \<Rightarrow> string \<Rightarrow> bool \<Rightarrow> bool result" where
  "providerBool pf fs key fallback =
     (case map_of fs key of
        None \<Rightarrow> Inr fallback
      | Some (Plain (JBool b)) \<Rightarrow> Inr b
      | Some (Plain (JNumber n)) \<Rightarrow>
          if st_float pf n = ''1'' then Inr True
          else if st_float pf n = ''0'' \<or> st_float pf n = ''-0'' then Inr False
          else Inl (Errorf ''%s must be boolean or 0/1'' [key])
      | Some _ \<Rightarrow> Inl (Errorf ''%s must be boolean or 0/1'' [key]))"

definition validateHistoryTypes :: "string list \<Rightarrow> unit result" where
  "validateHistoryTypes types =
     (if types = [] then Inl (Errorf ''history schema requires value types'' [])
      else
        (case find (\<lambda>t. \<not> List.member [''dbl'', ''uint'', ''str'', ''text'', ''log'', ''json''] t) types of
           Some t \<Rightarrow> Inl (Errorf ''unsupported history type %q'' [t])
         | None \<Rightarrow> Inr ()))"

section \<open>ClickHouse\<close>

record clickHouseSchemaOptions =
  co_Create :: "bool option"
  co_Cluster :: string
  co_Replicated :: bool
  co_TTL :: int
  co_Partition :: string

definition clickHouseOptions :: "(string \<times> (json \<Rightarrow> clickHouseSchemaOptions \<Rightarrow> clickHouseSchemaOptions result)) list" where
  "clickHouseOptions =
     [(''create'', decode_bool_pointer (\<lambda>v r. r\<lparr>co_Create := v\<rparr>)), (''cluster'', decode_string (\<lambda>v r. r\<lparr>co_Cluster := v\<rparr>)),
      (''replicated'', decode_bool (\<lambda>v r. r\<lparr>co_Replicated := v\<rparr>)), (''ttl'', decode_int (\<lambda>v r. r\<lparr>co_TTL := v\<rparr>)),
      (''partition'', decode_string (\<lambda>v r. r\<lparr>co_Partition := v\<rparr>))]"

definition resolveTLSFile :: "environment \<Rightarrow> string \<Rightarrow> string \<Rightarrow> string \<Rightarrow> string result" where
  "resolveTLSFile env path location subdir =
     (if path = [] then Inr []
      else
        (let home = env_get env ''ZABBIX_USER_HOME_DIR'';
             dir = (if env_get env location = [] \<and> home \<noteq> [] then path_Join [home, ''ssl'', subdir] else env_get env location) in
         if dir = [] \<and> \<not> IsAbs path then Inl (Errorf ''%s is required for relative TLS files'' [location])
         else ResolveFile path dir))"

text \<open>The settings in the order in which they are checked, without those from Vault.\<close>

definition connection_settings ::
  "('p, 'c, 'k, 'd, 'z) storage_platform \<Rightarrow> environment \<Rightarrow> fields \<Rightarrow> (string \<Rightarrow> string) \<Rightarrow> Connection result" where
  "connection_settings pf env fs v =
     bind_res (providerBool pf fs ''ssl_verify_peer'' True) (\<lambda>verifyPeer.
     bind_res (providerBool pf fs ''ssl_verify_host'' True) (\<lambda>verifyHost.
     bind_res (resolveTLSFile env (v ''ssl_cert_file'') ''ZBX_SSLCERTLOCATION'' ''certs'') (\<lambda>certFile.
     bind_res (resolveTLSFile env (v ''ssl_key_file'') ''ZBX_SSLKEYLOCATION'' ''keys'') (\<lambda>keyFile.
     Inr \<lparr>conn_URL = v ''url'', conn_Username = v ''username'', conn_Password = v ''password'',
          conn_SourceIP = cmp_Or (v ''source_ip'') (env_get env ''ZBX_SOURCEIP''),
          conn_CADirectory = cmp_Or (v ''ssl_ca_location'') (env_get env ''ZBX_SSLCALOCATION''),
          conn_CertFile = certFile, conn_KeyFile = keyFile, conn_KeyPassword = v ''ssl_key_password'',
          conn_VerifyPeer = verifyPeer, conn_VerifyHost = verifyHost\<rparr>))))"

definition connection_texts :: "string \<Rightarrow> fields \<Rightarrow> (string \<times> string) list result" where
  "connection_texts dataset fvs =
     for_res ([''url'', ''username'', ''password'', ''source_ip'', ''ssl_ca_location'', ''ssl_cert_file'', ''ssl_key_file'',
               ''ssl_key_password''] @ (if dataset = ''otel'' then [''vault_path''] else []))
       (\<lambda>key. bind_res (optional_text fvs key) (\<lambda>s. Inr (key, s)))"

definition clickHouseConnection ::
  "('p, 'c, 'k, 'd, 'z) storage_platform \<Rightarrow> filesystem \<Rightarrow> environment \<Rightarrow> string \<Rightarrow> fields \<Rightarrow> ('d, Connection) run" where
  "clickHouseConnection pf fs env dataset fvs d =
     (case connection_texts dataset fvs of
        Inl e \<Rightarrow> Some (Inl e, d)
      | Inr texts \<Rightarrow>
          (let v = (\<lambda>key. case map_of texts key of Some s \<Rightarrow> s | None \<Rightarrow> []); vaultPath = v ''vault_path'' in
           case connection_settings pf env fvs v of
             Inl e \<Rightarrow> Some (Inl e, d)
           | Inr conn \<Rightarrow>
               if vaultPath = [] then Some (Inr conn, d)
               else if conn_Username conn \<noteq> [] \<or> conn_Password conn \<noteq> []
               then Some (Inl (Errorf ''vault_path cannot be combined with username/password for schema preparation'' []), d)
               else
                 (case Fetch (pf_x509 pf) (pf_clock pf) (pf_http pf) fs (env_set env ''ZBX_VAULTDBPATH'' vaultPath) d of
                    None \<Rightarrow> None
                  | Some (Inl e, d') \<Rightarrow> Some (Inl e, d')
                  | Some (Inr creds, d') \<Rightarrow>
                      Some (Inr (conn\<lparr>conn_Username := Username creds, conn_Password := Password creds\<rparr>), d'))))"

section \<open>Preparations\<close>

record 'd preparation =
  prep_name :: string
  prep_run :: "('d, unit) eff"

definition clickHouseSchema :: "string \<Rightarrow> ProviderConfig \<Rightarrow> (ch_Schema \<times> bool) result" where
  "clickHouseSchema dataset config =
     bind_res (decodeOptions clickHouseOptions (pc_SchemaOptions config)
         \<lparr>co_Create = None, co_Cluster = [], co_Replicated = False, co_TTL = 2678400, co_Partition = ''toDate''\<rparr>) (\<lambda>options.
     case co_Create options of
       None \<Rightarrow> Inl (Errorf ''_SCHEMA requires an explicit boolean create'' [])
     | Some create \<Rightarrow>
         bind_res (optional_text (pc_Fields config) ''db'') (\<lambda>database.
         (let schema = \<lparr>sch_Database = database, sch_Dataset = dataset, sch_ValueTypes = pc_ValueTypes config,
                        sch_Cluster = co_Cluster options, sch_Replicated = co_Replicated options, sch_TTL = co_TTL options,
                        sch_Partition = co_Partition options\<rparr> in
          bind_res (ch_Validate schema) (\<lambda>_. Inr (schema, create)))))"

definition clickHousePreparation ::
  "('p, 'c, 'k, 'd, 'z) storage_platform \<Rightarrow> filesystem \<Rightarrow> environment \<Rightarrow> string \<Rightarrow> ProviderConfig \<Rightarrow> ('d, ('d, unit) eff) run" where
  "clickHousePreparation pf fs env dataset config d =
     (case clickHouseSchema dataset config of
        Inl e \<Rightarrow> Some (Inl e, d)
      | Inr (schema, create) \<Rightarrow>
          bind_run (clickHouseConnection pf fs env dataset (pc_Fields config)) (\<lambda>conn.
          bind_run (once (ch_NewClient pf fs conn)) (\<lambda>client.
          once (ret (ch_Prepare pf client schema create)))) d)"

record elasticsearchSchemaOptions =
  eo_Create :: "bool option"
  eo_Shards :: int
  eo_Replicas :: int

definition elasticsearchOptions ::
  "(string \<times> (json \<Rightarrow> elasticsearchSchemaOptions \<Rightarrow> elasticsearchSchemaOptions result)) list" where
  "elasticsearchOptions =
     [(''create'', decode_bool_pointer (\<lambda>v r. r\<lparr>eo_Create := v\<rparr>)), (''shards'', decode_int (\<lambda>v r. r\<lparr>eo_Shards := v\<rparr>)),
      (''replicas'', decode_int (\<lambda>v r. r\<lparr>eo_Replicas := v\<rparr>))]"

definition elasticsearchPreparation ::
  "('p, 'c, 'k, 'd, 'z) storage_platform \<Rightarrow> ProviderConfig \<Rightarrow> ('d, unit) eff result" where
  "elasticsearchPreparation pf config =
     bind_res (decodeOptions elasticsearchOptions (pc_SchemaOptions config)
         \<lparr>eo_Create = None, eo_Shards = 5, eo_Replicas = 1\<rparr>) (\<lambda>options.
     case eo_Create options of
       None \<Rightarrow> Inl (Errorf ''_SCHEMA requires an explicit boolean create'' [])
     | Some create \<Rightarrow>
         (let endpoint = text_or_empty (pc_Fields config) ''url'' in
          if endpoint = [] then Inl (Errorf ''url must be a non-empty string'' [])
          else
            bind_res (providerBool pf (pc_Fields config) ''date_index'' False) (\<lambda>dateIndex.
            let schema = \<lparr>es_ValueTypes = pc_ValueTypes config, es_DateIndex = dateIndex, es_Shards = eo_Shards options,
                          es_Replicas = eo_Replicas options\<rparr> in
            bind_res (es_Validate schema) (\<lambda>_.
            bind_res (es_NewClient pf endpoint) (\<lambda>client.
            Inr (es_Prepare pf client schema create))))))"

definition is_dial_error :: "error \<Rightarrow> bool" where
  "is_dial_error e = list_ex (\<lambda>e. case e of DialError _ \<Rightarrow> True | _ \<Rightarrow> False) (error_chain e)"

definition prepare_attempt :: "('d, unit) eff \<Rightarrow> ('d, unit) eff" where
  "prepare_attempt m d =
     (case m d of
        (Inl e, d') \<Rightarrow> (Inl (if is_dial_error e then e else Stop e), d')
      | (Inr _, d') \<Rightarrow> (Inr (), d'))"

definition prepare :: "('p, 'c, 'k, 'd, 'z) storage_platform \<Rightarrow> 'd preparation \<Rightarrow> ('d, unit) run" where
  "prepare pf p = retry_remote (pf_clock pf) 3 (seconds 10) (prepare_attempt (prep_run p))"

definition schema_preparation ::
  "('p, 'c, 'k, 'd, 'z) storage_platform \<Rightarrow> filesystem \<Rightarrow> environment \<Rightarrow> string \<Rightarrow> ProviderConfig \<Rightarrow> ('d, 'd preparation) run" where
  "schema_preparation pf fs env dataset config =
     wrap_run ''%s: %w'' [pc_Name config]
       (bind_run (once (query_eff (\<lambda>_. if dataset = ''history'' then validateHistoryTypes (pc_ValueTypes config) else Inr ()))) (\<lambda>_.
        bind_run (if pc_Provider config = ''clickhouse'' then clickHousePreparation pf fs env dataset config
                  else if pc_Provider config = ''elasticsearch''
                  then once (query_eff (\<lambda>_. elasticsearchPreparation pf config))
                  else once (raise (Errorf ''schema preparation is not supported for %s'' [pc_Provider config]))) (\<lambda>m.
        once (ret \<lparr>prep_name = pc_Name config, prep_run = m\<rparr>))))"

fun collect_run :: "'a list \<Rightarrow> ('a \<Rightarrow> ('s, 'b) run) \<Rightarrow> ('s, 'b list) run" where
  "collect_run [] body = once (ret [])"
| "collect_run (x # xs) body = bind_run (body x) (\<lambda>y. bind_run (collect_run xs body) (\<lambda>ys. once (ret (y # ys))))"

definition prepareSchemas ::
  "('p, 'c, 'k, 'd, 'z) storage_platform \<Rightarrow> filesystem \<Rightarrow> environment \<Rightarrow> ProviderConfig list \<Rightarrow> string \<Rightarrow> ('d, nat) run" where
  "prepareSchemas pf fs env configs dataset =
     bind_run (collect_run configs (schema_preparation pf fs env dataset)) (\<lambda>preparations.
     bind_run (for_run preparations (\<lambda>p. wrap_run ''%s: %w'' [prep_name p] (prepare pf p))) (\<lambda>_.
     once (ret (length preparations))))"

section \<open>The entry points\<close>

definition with_configuration :: "(configuration, 'a) eff \<Rightarrow> ('w process_scheme, 'a) eff" where
  "with_configuration m s = (case m (environ s, []) of (r, (env, _)) \<Rightarrow> (r, s\<lparr>environ := env\<rparr>))"

definition prepareProviders ::
  "('p, 'c, 'k, 'd, 'z) storage_platform \<Rightarrow> provider_parameter \<Rightarrow> string \<Rightarrow> ('d machine, nat) run" where
  "prepareProviders pf p dataset =
     bind_run (once (query_eff (\<lambda>s. NewConfiguration (environ s) p))) (\<lambda>names.
     bind_run (once (with_configuration (ConfigsToPrepare p names))) (\<lambda>configs s.
     on_remote_run (prepareSchemas pf (files s) (environ s) configs dataset) s))"

definition configureProviders ::
  "('p, 'c, 'k, 'd, 'z) storage_platform \<Rightarrow> provider_parameter \<Rightarrow> string \<Rightarrow> ('d machine, unit) run" where
  "configureProviders pf p dataset =
     bind_run (once (query_eff (\<lambda>s. NewConfiguration (environ s) p))) (\<lambda>names.
     bind_run (once (with_configuration
         (bind_eff (ConfigsToPrepare p names) (\<lambda>configs.
          bind_eff (ConfigureNative (st_float pf) p names) (\<lambda>_. ret configs))))) (\<lambda>configs.
     bind_run (\<lambda>s. on_remote_run (prepareSchemas pf (files s) (environ s) configs dataset) s) (\<lambda>_. once (ret ()))))"

definition PrepareHistory :: "('p, 'c, 'k, 'd, 'z) storage_platform \<Rightarrow> ('d machine, nat) run" where
  "PrepareHistory pf = prepareProviders pf History ''history''"

definition PrepareTelemetry :: "('p, 'c, 'k, 'd, 'z) storage_platform \<Rightarrow> ('d machine, nat) run" where
  "PrepareTelemetry pf = prepareProviders pf Telemetry ''otel''"

definition ConfigureHistory :: "('p, 'c, 'k, 'd, 'z) storage_platform \<Rightarrow> ('d machine, unit) run" where
  "ConfigureHistory pf = configureProviders pf History ''history''"

definition ConfigureTelemetry :: "('p, 'c, 'k, 'd, 'z) storage_platform \<Rightarrow> ('d machine, unit) run" where
  "ConfigureTelemetry pf = configureProviders pf Telemetry ''otel''"

section \<open>Every run ends\<close>

definition ends :: "('s, 'a) run \<Rightarrow> bool" where
  "ends m \<longleftrightarrow> (\<forall>s. m s \<noteq> None)"

named_theorems ending \<open>operations that always return\<close>

lemma ends_once [ending]: "ends (once m)"
  by (simp add: ends_def)

lemma ends_bind [ending]: "ends m \<Longrightarrow> (\<And>x. ends (f x)) \<Longrightarrow> ends (bind_run m f)"
  by (fastforce simp: ends_def bind_run_def split: option.split prod.split sum.split)

lemma ends_wrap [ending]: "ends m \<Longrightarrow> ends (wrap_run fmt as m)"
  by (simp add: ends_def wrap_run_def)

lemma ends_remote [ending]: "ends m \<Longrightarrow> ends (on_remote_run m)"
  by (simp add: ends_def on_remote_run_def)

lemma ends_if [ending]: "ends m \<Longrightarrow> ends m' \<Longrightarrow> ends (if c then m else m')"
  by simp

lemma ends_for [ending]: "(\<And>x. ends (body x)) \<Longrightarrow> ends (for_run xs body)"
proof (induction xs)
  case (Cons x xs)
  have "ends (bind_run (body x) (\<lambda>_. for_run xs body))" by (intro ending Cons)
  then show ?case by (simp add: ends_def)
qed (simp add: ends_def)

lemma ends_collect [ending]: "(\<And>x. ends (body x)) \<Longrightarrow> ends (collect_run xs body)"
  by (induction xs) (simp_all add: ending)

lemma ends_retry [ending]:
  assumes "0 < attempts"
  shows "ends (retry_remote rt attempts interval attempt)"
  unfolding ends_def
proof
  fix d
  let ?options = "\<lparr>Attempts = attempts, Interval = interval, OnRetry = None, WaitFor = None\<rparr>"
  let ?timer = "\<lambda>i (d, v). case sleep rt i d of (r, d') \<Rightarrow> (r, (d', v))"
  let ?att = "\<lambda>(d, v). case attempt d of (Inl e, d') \<Rightarrow> (Inl e, (d', v)) | (Inr x, d') \<Rightarrow> (Inr (), (d', Some x))"
  have "\<exists>r s'. retryLoop ?options (bootstrap_Wait (\<lambda>(d, _). ctx_error rt d) ?timer) (\<lambda>(d, _). ctx_error rt d) ?att 0 None (d, None) =
      Some (r, s') \<and> (\<lambda>_. 0 :: nat) s' \<le> (\<lambda>_. 0) (d, None) + nat (attempts - 0)"
    by (rule retryLoop_bounded) (use assms in auto)
  then show "retry_remote rt attempts interval attempt d \<noteq> None"
    unfolding retry_remote_def Retry_def by (auto split: option.split)
qed

lemma ends_Fetch: "ends (Fetch x rt http fs env)"
proof -
  have request: "vault_request rt http tls req d \<noteq> None" for tls req d
    using ends_retry [of maxAttempts rt retryDelay "vaultAttempt http tls req"]
    by (simp add: vault_request_def ends_def maxAttempts_def)
  have login: "loginHashiCorpAppRole rt http tls url role secret d \<noteq> None" for tls url role secret d
    by (simp add: loginHashiCorpAppRole_def request del: not_None_eq split: option.split prod.split sum.split)
  have token: "resolveHashiCorpToken rt http tls env url d \<noteq> None" for tls url d
    by (simp add: resolveHashiCorpToken_def Let_def login del: not_None_eq)
  have "fetchHashiCorp x rt http fs env url path d \<noteq> None" for url path d
    by (simp add: fetchHashiCorp_def Let_def request token del: not_None_eq split: option.split prod.split sum.split)
  moreover have "fetchCyberArk x rt http fs env url path d \<noteq> None" for url path d
    by (simp add: fetchCyberArk_def request del: not_None_eq split: option.split prod.split sum.split)
  ultimately show ?thesis by (simp add: ends_def Fetch_def Let_def)
qed

lemma ends_clickHouseConnection [ending]: "ends (clickHouseConnection pf fs env dataset fvs)"
  unfolding ends_def clickHouseConnection_def Let_def
  by (auto simp: ends_Fetch [unfolded ends_def, rule_format] simp del: not_None_eq
      split: sum.split prod.split option.split)

lemma ends_clickHousePreparation [ending]: "ends (clickHousePreparation pf fs env dataset config)"
proof -
  have "ends (bind_run (clickHouseConnection pf fs env dataset (pc_Fields config)) (\<lambda>conn.
          bind_run (once (ch_NewClient pf fs conn)) (\<lambda>client.
          once (ret (ch_Prepare pf client schema create)))))" for schema create
    by (intro ending)
  then show ?thesis unfolding ends_def clickHousePreparation_def by (auto split: sum.split prod.split)
qed

lemma ends_prepareSchemas [ending]: "ends (prepareSchemas pf fs env configs dataset)"
  unfolding prepareSchemas_def schema_preparation_def prepare_def by (intro ending) simp_all

text \<open>C25: preparing storage is a bounded effort: whatever the servers and Vault answer, whichever
  providers are selected and however they are configured, every one of the storage operations
  returns.\<close>

theorem storage_preparation_ends:
  "\<exists>r s'. (if native then map_option (map_prod (map_sum id (\<lambda>_. 0)) id) (configureProviders pf p dataset s)
           else prepareProviders pf p dataset s) = Some (r, s')"
proof -
  have remote: "ends (\<lambda>s. on_remote_run (prepareSchemas pf (files s) (environ s) configs dataset) s)" for configs
    using ends_remote [OF ends_prepareSchemas] unfolding ends_def by blast
  have "ends (configureProviders pf p dataset)" "ends (prepareProviders pf p dataset)"
    unfolding configureProviders_def prepareProviders_def by (intro ending remote)+
  then obtain q r s1 s2 where "configureProviders pf p dataset s = Some (q, s1)" "prepareProviders pf p dataset s = Some (r, s2)"
    unfolding ends_def by fastforce
  then show ?thesis by (cases native) simp_all
qed

text \<open>A preparation is repeated only when the server could not be reached: success and every other
  error of the first attempt are the result, with what the attempt has done and nothing more.\<close>

theorem prepare_decisive:
  "case prep_run p d of
     (Inr _, d') \<Rightarrow> prepare pf p d = Some (Inr (), d')
   | (Inl e, d') \<Rightarrow> is_dial_error e \<or> prepare pf p d = Some (Inl e, d')"
proof (cases "prep_run p d")
  case (Pair r d')
  then show ?thesis
    by (cases r) (simp_all add: prepare_def retry_remote_def Retry_def prepare_attempt_def Stop_def, (subst retryLoop.simps, simp add: prepare_attempt_def Stop_def)+)
qed

end
