(* ===== verification/Sqlite.thy ===== *)
theory Sqlite
  imports Files Database Urls
begin

text \<open>
  The package \<open>internal/sqlite\<close>: the database file of the proxy.  The driver behind
  \<open>database/sql\<close> is an argument, a record of operations on the machine; what is relied on is that
  its transactions are transactions.  Logging is not modelled.
\<close>

section \<open>The driver\<close>

record ('h, 't, 'd) sqlite_package =
  sq_Open :: "string \<Rightarrow> ('d machine, 'h) eff"
  sq_Close :: "'h \<Rightarrow> ('d machine, unit) eff"
  sq_Ping :: "'h \<Rightarrow> ('d machine, unit) eff"
  sq_Exec :: "'h \<Rightarrow> string \<Rightarrow> ('d machine, unit) eff"
  sq_QueryInt :: "'h \<Rightarrow> string \<Rightarrow> ('d machine, int) eff"
  sq_Begin :: "'h \<Rightarrow> ('d machine, 't) eff"
  tx_Exec :: "'t \<Rightarrow> string \<Rightarrow> ('d machine, unit) eff"
  tx_QueryInt :: "'t \<Rightarrow> string \<Rightarrow> ('d machine, int) eff"
  tx_Commit :: "'t \<Rightarrow> ('d machine, unit) eff"
  tx_Rollback :: "'t \<Rightarrow> ('d machine, unit) eff"

section \<open>Definitions\<close>

definition sqlite_query :: string where "sqlite_query = encode_values [(''_txlock'', ''immediate'')]"

definition dbDSN :: "string \<Rightarrow> string" where
  "dbDSN dbPath =
     ''file:'' @ (if dbPath = [] then [] else ''//'') @ (if dbPath = ''*'' then ''*'' else url_escape EncodePath dbPath) @
     ''?'' @ sqlite_query"

text \<open>A deferred call whose result is dropped.\<close>

definition defer_eff :: "('s, unit) eff \<Rightarrow> ('s, 'a) eff \<Rightarrow> ('s, 'a) eff" where
  "defer_eff cleanup m s = (case m s of (r, s') \<Rightarrow> (r, snd (cleanup s')))"

definition walStatement :: string where "walStatement = ''PRAGMA journal_mode=WAL''"

definition dbversionQuery :: string where
  "dbversionQuery =
     ''SELECT count(*) FROM sqlite_master WHERE type='' @ [CHR 0x27] @ ''table'' @ [CHR 0x27] @ '' AND name='' @
     [CHR 0x27] @ ''dbversion'' @ [CHR 0x27]"

definition mandatoryQuery :: string where "mandatoryQuery = ''SELECT mandatory FROM dbversion LIMIT 1''"

definition sqlite_createSchema :: "('h, 't, 'd) sqlite_package \<Rightarrow> 'h \<Rightarrow> string \<Rightarrow> ('d machine, unit) eff" where
  "sqlite_createSchema sq db data =
     bind_eff (wrap_eff ''begin SQLite schema transaction: %w'' [] (sq_Begin sq db)) (\<lambda>tx.
     defer_eff (tx_Rollback sq tx)
       (bind_eff (wrap_eff ''create SQLite schema: %w'' [] (tx_Exec sq tx data)) (\<lambda>_.
        bind_eff (wrap_eff ''validate created SQLite schema: %w'' [] (tx_QueryInt sq tx mandatoryQuery)) (\<lambda>_.
        wrap_eff ''commit SQLite schema: %w'' [] (tx_Commit sq tx)))))"

definition makeDirectory :: "string \<Rightarrow> (filesystem, unit) eff" where
  "makeDirectory directory fs =
     (case os_Stat fs directory of
        Inl e \<Rightarrow> if e = ErrNotExist then os_MkdirAll directory 509 fs else (Inr (), fs)
      | Inr _ \<Rightarrow> (Inr (), fs))"

definition on_machine_files :: "(filesystem, 'a) eff \<Rightarrow> ('w process_scheme, 'a) eff" where
  "on_machine_files m s = (case m (files s) of (r, fs) \<Rightarrow> (r, s\<lparr>files := fs\<rparr>))"

text \<open>The part that works on the open database.\<close>

definition sqlite_initialize ::
  "(string \<Rightarrow> string result) \<Rightarrow> ('h, 't, 'd) sqlite_package \<Rightarrow> 'h \<Rightarrow> string \<Rightarrow> string \<Rightarrow> ('d machine, unit) eff" where
  "sqlite_initialize gunzip sq db dbPath schemaPath =
     bind_eff (wrap_eff ''enable SQLite WAL: %w'' [] (sq_Exec sq db walStatement)) (\<lambda>_.
     bind_eff (sq_QueryInt sq db dbversionQuery) (\<lambda>count.
     if count = 0
     then bind_eff (query_eff (\<lambda>s. ReadSQLFile gunzip (files s) schemaPath)) (sqlite_createSchema sq db)
     else bind_eff (wrap_eff ''validate SQLite schema in %q: %w'' [dbPath] (sq_QueryInt sq db mandatoryQuery)) (\<lambda>_. ret ())))"

definition pingDatabase ::
  "('h, 't, 'd) sqlite_package \<Rightarrow> bool \<Rightarrow> string \<Rightarrow> 'h \<Rightarrow> ('d machine, unit) eff" where
  "pingDatabase sq existed dbPath db =
     (if existed then wrap_eff ''file %q exists but is not a valid SQLite database: %w'' [dbPath] (sq_Ping sq db)
      else sq_Ping sq db)"

definition sqlite_Prepare ::
  "(string \<Rightarrow> string result) \<Rightarrow> ('h, 't, 'd) sqlite_package \<Rightarrow> string \<Rightarrow> string \<Rightarrow> ('d machine, unit) eff" where
  "sqlite_Prepare gunzip sq dbPath schemaPath =
     bind_eff (on_machine_files (makeDirectory (path_Dir dbPath))) (\<lambda>_ s.
     (let existed = (case os_Stat (files s) dbPath of Inl _ \<Rightarrow> False | Inr _ \<Rightarrow> True) in
      bind_eff (sq_Open sq (dbDSN dbPath)) (\<lambda>db.
      defer_eff (sq_Close sq db)
        (bind_eff (pingDatabase sq existed dbPath db) (\<lambda>_.
         sqlite_initialize gunzip sq db dbPath schemaPath))) s))"

section \<open>Transactions\<close>

text \<open>
  What the code relies on: the committed contents of the database are a \<open>view\<close> of the machine, what a
  transaction sees is \<open>staged\<close>; only a commit that succeeds makes one the other, and a query answers
  about what it sees.  \<open>run\<close> is the effect of a script, \<open>answer\<close> the answer to a query.
\<close>

definition untouched :: "('d \<Rightarrow> 'v) \<Rightarrow> ('d machine, 'a) eff \<Rightarrow> bool" where
  "untouched view m \<longleftrightarrow> (\<forall>s. view (remote (snd (m s))) = view (remote s))"

definition transactional ::
  "('h, 't, 'd) sqlite_package \<Rightarrow> ('d \<Rightarrow> 'v) \<Rightarrow> ('t \<Rightarrow> 'd \<Rightarrow> 'v) \<Rightarrow> (string \<Rightarrow> 'v \<Rightarrow> 'v) \<Rightarrow> ('v \<Rightarrow> string \<Rightarrow> int option) \<Rightarrow> bool" where
  "transactional sq view staged execute answer \<longleftrightarrow>
     (\<forall>dsn. untouched view (sq_Open sq dsn)) \<and>
     (\<forall>h. untouched view (sq_Close sq h) \<and> untouched view (sq_Ping sq h) \<and> untouched view (sq_Exec sq h walStatement)) \<and>
     (\<forall>h q. untouched view (sq_QueryInt sq h q)) \<and> (\<forall>h. untouched view (sq_Begin sq h)) \<and>
     (\<forall>t q. untouched view (tx_Exec sq t q) \<and> untouched view (tx_QueryInt sq t q)) \<and>
     (\<forall>t. untouched view (tx_Rollback sq t)) \<and>
     (\<forall>h q s n s'. sq_QueryInt sq h q s = (Inr n, s') \<longrightarrow> answer (view (remote s)) q = Some n) \<and>
     (\<forall>h s t s'. sq_Begin sq h s = (Inr t, s') \<longrightarrow> staged t (remote s') = view (remote s)) \<and>
     (\<forall>t q s s'. tx_Exec sq t q s = (Inr (), s') \<longrightarrow> staged t (remote s') = execute q (staged t (remote s))) \<and>
     (\<forall>t q s n s'. tx_QueryInt sq t q s = (Inr n, s') \<longrightarrow>
        staged t (remote s') = staged t (remote s) \<and> answer (staged t (remote s)) q = Some n) \<and>
     (\<forall>t s e s'. tx_Commit sq t s = (Inl e, s') \<longrightarrow> view (remote s') = view (remote s)) \<and>
     (\<forall>t s s'. tx_Commit sq t s = (Inr (), s') \<longrightarrow> view (remote s') = staged t (remote s))"

lemma transactional_keeps:
  assumes "transactional sq view staged execute answer"
  shows "sq_Open sq dsn s = (ro, s') \<Longrightarrow> view (remote s') = view (remote s)"
    "sq_Ping sq h s = (ru, s') \<Longrightarrow> view (remote s') = view (remote s)"
    "sq_Exec sq h walStatement s = (ru, s') \<Longrightarrow> view (remote s') = view (remote s)"
    "sq_QueryInt sq h q s = (ri, s') \<Longrightarrow> view (remote s') = view (remote s)"
    "sq_Begin sq h s = (rt, s') \<Longrightarrow> view (remote s') = view (remote s)"
    "tx_Exec sq t q s = (ru, s') \<Longrightarrow> view (remote s') = view (remote s)"
    "tx_QueryInt sq t q s = (ri, s') \<Longrightarrow> view (remote s') = view (remote s)"
  using assms unfolding transactional_def untouched_def by (metis snd_conv)+

lemma createSchema_atomic:
  assumes tx: "transactional sq view staged execute answer"
    and run: "sqlite_createSchema sq db data s = (r, s')"
  shows "view (remote s') =
    (case r of Inl _ \<Rightarrow> view (remote s)
     | Inr _ \<Rightarrow> execute data (view (remote s))) \<and>
    (r = Inr () \<longrightarrow> answer (execute data (view (remote s))) mandatoryQuery \<noteq> None)"
proof -
  note laws = tx [unfolded transactional_def]
  obtain rb s1 where begin_: "sq_Begin sq db s = (rb, s1)" by fastforce
  have v1: "view (remote s1) = view (remote s)" by (rule transactional_keeps(5) [OF tx begin_])
  show ?thesis
  proof (cases rb)
    case (Inl e)
    with run begin_ v1 show ?thesis by (auto simp: sqlite_createSchema_def bind_eff_def wrap_eff_def)
  next
    case (Inr t)
    have st1: "staged t (remote s1) = view (remote s)" using laws begin_ Inr by blast
    let ?body = "bind_eff (wrap_eff ''create SQLite schema: %w'' [] (tx_Exec sq t data)) (\<lambda>_.
        bind_eff (wrap_eff ''validate created SQLite schema: %w'' [] (tx_QueryInt sq t mandatoryQuery)) (\<lambda>_.
        wrap_eff ''commit SQLite schema: %w'' [] (tx_Commit sq t)))"
    obtain s2 where body: "?body s1 = (r, s2)" and s': "s' = snd (tx_Rollback sq t s2)"
      using run begin_ Inr by (auto simp: sqlite_createSchema_def bind_eff_def wrap_eff_def defer_eff_def split: prod.splits)
    have v2: "view (remote s') = view (remote s2)" using laws s' by (simp add: untouched_def)
    obtain re s3 where exec: "tx_Exec sq t data s1 = (re, s3)" by fastforce
    have v3: "view (remote s3) = view (remote s1)" by (rule transactional_keeps(6) [OF tx exec])
    show ?thesis
    proof (cases re)
      case (Inl e)
      with body exec v1 v2 v3 show ?thesis by (auto simp: bind_eff_def wrap_eff_def)
    next
      case (Inr u)
      with exec have "tx_Exec sq t data s1 = (Inr (), s3)" by simp
      then have st3: "staged t (remote s3) = execute data (view (remote s))" using laws st1 by metis
      obtain rq s4 where qry: "tx_QueryInt sq t mandatoryQuery s3 = (rq, s4)" by fastforce
      have v4: "view (remote s4) = view (remote s3)" by (rule transactional_keeps(7) [OF tx qry])
      show ?thesis
      proof (cases rq)
        case (Inl e)
        with Inr body exec qry v1 v2 v3 v4 show ?thesis by (auto simp: bind_eff_def wrap_eff_def)
      next
        case rq: (Inr n)
        have st4: "staged t (remote s4) = execute data (view (remote s))"
          "answer (execute data (view (remote s))) mandatoryQuery = Some n"
          using laws qry rq st3 by metis+
        obtain rc s5 where com: "tx_Commit sq t s4 = (rc, s5)" by fastforce
        have r: "r = wrap_res ''commit SQLite schema: %w'' [] rc" "s2 = s5"
          using Inr rq body exec qry com by (auto simp: bind_eff_def wrap_eff_def)
        show ?thesis
        proof (cases rc)
          case (Inl e)
          with com laws have "view (remote s5) = view (remote s4)" by blast
          with Inl r v1 v2 v3 v4 show ?thesis by simp
        next
          case (Inr u)
          with com have "tx_Commit sq t s4 = (Inr (), s5)" by simp
          with laws have "view (remote s5) = staged t (remote s4)" by blast
          with Inr r v2 st4 show ?thesis by simp
        qed
      qed
    qed
  qed
qed

definition sqlite_outcome ::
  "('v \<Rightarrow> string \<Rightarrow> int option) \<Rightarrow> (string \<Rightarrow> 'v \<Rightarrow> 'v) \<Rightarrow> (string \<Rightarrow> bool) \<Rightarrow> unit result \<Rightarrow> 'v \<Rightarrow> 'v \<Rightarrow> bool" where
  "sqlite_outcome answer execute script r before after \<longleftrightarrow>
     (case r of
        Inl _ \<Rightarrow> after = before
      | Inr _ \<Rightarrow>
          answer after mandatoryQuery \<noteq> None \<and>
          (if answer before dbversionQuery = Some 0 then \<exists>data. script data \<and> after = execute data before
           else after = before))"

lemma initialize_outcome:
  assumes tx: "transactional sq view staged execute answer"
    and run: "sqlite_initialize gunzip sq db dbPath schemaPath s = (r, s')"
  shows "sqlite_outcome answer execute (\<lambda>data. \<exists>fs. ReadSQLFile gunzip fs schemaPath = Inr data) r
    (view (remote s)) (view (remote s'))"
proof -
  note laws = tx [unfolded transactional_def]
  obtain rw s1 where wal: "sq_Exec sq db walStatement s = (rw, s1)" by fastforce
  have v1: "view (remote s1) = view (remote s)" by (rule transactional_keeps(3) [OF tx wal])
  obtain rc s2 where cnt: "sq_QueryInt sq db dbversionQuery s1 = (rc, s2)" by fastforce
  have v2: "view (remote s2) = view (remote s1)" by (rule transactional_keeps(4) [OF tx cnt])
  consider (wal) e where "rw = Inl e" | (count) u e where "rw = Inr u" "rc = Inl e"
    | (empty) u where "rw = Inr u" "rc = Inr 0" | (full) u n where "rw = Inr u" "rc = Inr n" "n \<noteq> 0"
    by (cases rw; cases rc) auto
  then show ?thesis
  proof cases
    case wal
    with run \<open>sq_Exec sq db walStatement s = (rw, s1)\<close> v1 show ?thesis
      by (auto simp: sqlite_initialize_def bind_eff_def wrap_eff_def sqlite_outcome_def)
  next
    case count
    with run wal cnt v1 v2 show ?thesis
      by (auto simp: sqlite_initialize_def bind_eff_def wrap_eff_def sqlite_outcome_def)
  next
    case empty
    have a: "answer (view (remote s)) dbversionQuery = Some 0" using laws cnt empty(2) v1 by metis
    show ?thesis
    proof (cases "ReadSQLFile gunzip (files s2) schemaPath")
      case (Inl e)
      with empty run wal cnt v1 v2 show ?thesis
        by (auto simp: sqlite_initialize_def bind_eff_def wrap_eff_def sqlite_outcome_def)
    next
      case (Inr data)
      with empty run wal cnt have "sqlite_createSchema sq db data s2 = (r, s')"
        by (auto simp: sqlite_initialize_def bind_eff_def wrap_eff_def)
      from createSchema_atomic [OF tx this] a v1 v2 Inr show ?thesis
        by (cases r) (auto simp: sqlite_outcome_def)
    qed
  next
    case full
    have a: "answer (view (remote s)) dbversionQuery = Some n" using laws cnt full(2) v1 by metis
    obtain rm s3 where man: "sq_QueryInt sq db mandatoryQuery s2 = (rm, s3)" by fastforce
    have v3: "view (remote s3) = view (remote s2)" by (rule transactional_keeps(4) [OF tx man])
    have m: "answer (view (remote s2)) mandatoryQuery = Some k" if "rm = Inr k" for k
      using laws man that by metis
    show ?thesis
      using full run wal cnt man v1 v2 v3 a m
      by (cases rm) (auto simp: sqlite_initialize_def bind_eff_def wrap_eff_def sqlite_outcome_def)
  qed
qed

text \<open>C8: the proxy's database is created whole or not at all.  When \<open>Prepare\<close> fails, at whatever
  step, the committed contents of the database are what they were; when it succeeds the database has a
  schema version, and it is what it was unless it had no \<open>dbversion\<close> table, in which case it is the
  result of the whole schema script.  The driver's transactions are relied on.\<close>

theorem sqlite_Prepare_atomic:
  assumes tx: "transactional sq view staged execute answer"
    and run: "sqlite_Prepare gunzip sq dbPath schemaPath s = (r, s')"
  shows "case r of
      Inl _ \<Rightarrow> view (remote s') = view (remote s)
    | Inr _ \<Rightarrow>
        answer (view (remote s')) mandatoryQuery \<noteq> None \<and>
        (if answer (view (remote s)) dbversionQuery = Some 0
         then \<exists>data. (\<exists>fs. ReadSQLFile gunzip fs schemaPath = Inr data) \<and> view (remote s') = execute data (view (remote s))
         else view (remote s') = view (remote s))"
proof -
  note laws = tx [unfolded transactional_def]
  obtain rd s1 where dir: "on_machine_files (makeDirectory (path_Dir dbPath)) s = (rd, s1)" by fastforce
  have v1: "remote s1 = remote s" using dir by (auto simp: on_machine_files_def split: prod.splits)
  obtain ro s2 where open_: "sq_Open sq (dbDSN dbPath) s1 = (ro, s2)" by fastforce
  have v2: "view (remote s2) = view (remote s1)" by (rule transactional_keeps(1) [OF tx open_])
  have "sqlite_outcome answer execute (\<lambda>data. \<exists>fs. ReadSQLFile gunzip fs schemaPath = Inr data) r
      (view (remote s)) (view (remote s'))"
  proof (cases "\<exists>u db. rd = Inr u \<and> ro = Inr db")
    case False
    then show ?thesis
      using run dir open_ v1 v2
      by (cases rd; cases ro) (auto simp: sqlite_Prepare_def bind_eff_def Let_def sqlite_outcome_def)
  next
    case True
    then obtain u db where ok: "rd = Inr u" "ro = Inr db" by blast
    define existed where "existed = (case os_Stat (files s1) dbPath of Inl _ \<Rightarrow> False | Inr _ \<Rightarrow> True)"
    obtain s3 where body: "bind_eff (pingDatabase sq existed dbPath db) (\<lambda>_.
         sqlite_initialize gunzip sq db dbPath schemaPath) s2 = (r, s3)" and s': "s' = snd (sq_Close sq db s3)"
      using run dir open_ ok
      by (auto simp: sqlite_Prepare_def bind_eff_def [of "on_machine_files m" for m] bind_eff_def [of "sq_Open sq dsn" for dsn]
          Let_def existed_def defer_eff_def split: prod.splits)
    have v': "view (remote s') = view (remote s3)" using laws s' by (simp add: untouched_def)
    obtain rp s4 where ping: "pingDatabase sq existed dbPath db s2 = (rp, s4)" by fastforce
    have v4: "view (remote s4) = view (remote s2)"
      using ping transactional_keeps(2) [OF tx]
      by (auto simp: pingDatabase_def wrap_eff_def split: if_splits prod.splits)
    show ?thesis
    proof (cases rp)
      case (Inl e)
      with body ping v1 v2 v4 v' show ?thesis by (auto simp: bind_eff_def sqlite_outcome_def)
    next
      case (Inr w)
      with body ping have "sqlite_initialize gunzip sq db dbPath schemaPath s4 = (r, s3)" by (simp add: bind_eff_def)
      from initialize_outcome [OF tx this] v1 v2 v4 v' show ?thesis by simp
    qed
  qed
  then show ?thesis by (simp add: sqlite_outcome_def)
qed

text \<open>A driver that behaves so: the contents are the version of the schema, and the transaction is
  on the side.\<close>

definition sample_sqlite :: "(unit, unit, int option \<times> int option) sqlite_package" where
  "sample_sqlite =
     \<lparr>sq_Open = (\<lambda>_ s. (Inr (), s)), sq_Close = (\<lambda>_ s. (Inr (), s)), sq_Ping = (\<lambda>_ s. (Inr (), s)),
      sq_Exec = (\<lambda>_ _ s. (Inr (), s)),
      sq_QueryInt = (\<lambda>_ q s.
        (if q = dbversionQuery then Inr (if fst (remote s) = None then 0 else 1)
         else if q = mandatoryQuery then (case fst (remote s) of None \<Rightarrow> Inl (SysError ''no such table'') | Some v \<Rightarrow> Inr v)
         else Inl (SysError ''syntax error''), s)),
      sq_Begin = (\<lambda>_ s. (Inr (), s\<lparr>remote := (fst (remote s), fst (remote s))\<rparr>)),
      tx_Exec = (\<lambda>_ q s. (Inr (), s\<lparr>remote := (fst (remote s), Some (int (length q)))\<rparr>)),
      tx_QueryInt = (\<lambda>_ q s.
        (if q = mandatoryQuery then (case snd (remote s) of None \<Rightarrow> Inl (SysError ''no such table'') | Some v \<Rightarrow> Inr v)
         else Inl (SysError ''syntax error''), s)),
      tx_Commit = (\<lambda>_ s. (Inr (), s\<lparr>remote := (snd (remote s), snd (remote s))\<rparr>)),
      tx_Rollback = (\<lambda>_ s. (Inr (), s))\<rparr>"

definition sample_answer_of :: "int option \<Rightarrow> string \<Rightarrow> int option" where
  "sample_answer_of v q =
     (if q = dbversionQuery then Some (if v = None then 0 else 1) else if q = mandatoryQuery then v else None)"

lemma sample_sqlite_transactional:
  "transactional sample_sqlite fst (\<lambda>_. snd) (\<lambda>q _. Some (int (length q))) sample_answer_of"
proof -
  have "mandatoryQuery \<noteq> dbversionQuery" by code_simp
  then show ?thesis
    by (auto simp: transactional_def untouched_def sample_sqlite_def sample_answer_of_def split: if_splits option.splits)
qed

definition sample_proxy :: "(int option \<times> int option) machine" where
  "sample_proxy =
     \<lparr>environ = [],
      files = \<lparr>nodes = [([''db''], Directory 493), ([''schema.sql''], RegularFile ''CREATE'' 420)],
        workdir = [], denied = (\<lambda>_ _. None), tokens = []\<rparr>,
      remote = (None, None)\<rparr>"

lemma sqlite_Prepare_atomic_witness:
  "\<exists>s'. sqlite_Prepare Inr sample_sqlite ''/db/zabbix.sqlite'' ''/schema.sql'' sample_proxy = (Inr (), s') \<and>
     fst (remote s') \<noteq> None"
proof -
  have "fst (sqlite_Prepare Inr sample_sqlite ''/db/zabbix.sqlite'' ''/schema.sql'' sample_proxy) = Inr ()" by code_simp
  then obtain s' where run: "sqlite_Prepare Inr sample_sqlite ''/db/zabbix.sqlite'' ''/schema.sql'' sample_proxy = (Inr (), s')"
    by (metis prod.collapse)
  from sqlite_Prepare_atomic [OF sample_sqlite_transactional run]
  have "sample_answer_of (fst (remote s')) mandatoryQuery \<noteq> None" by simp
  moreover have "mandatoryQuery \<noteq> dbversionQuery" by code_simp
  ultimately have "fst (remote s') \<noteq> None" by (simp add: sample_answer_of_def)
  with run show ?thesis by blast
qed

end
