(* ===== verification/Hooks.thy ===== *)
theory Hooks
  imports Files Command
begin

text \<open>
  The hooks of an image, \<open>internal/hooks/hooks.go\<close> and \<open>hook_command_unix.go\<close>: the scripts of
  \<open>entrypoint.d\<close> run in the order of their names, each with the environment of the entrypoint.
  What a script does is an argument: it may change the file system, it may fail, and it may not end;
  it has no way to the environment of the entrypoint.  Logging is not modelled.
\<close>

type_synonym runner = "string list \<Rightarrow> string list \<Rightarrow> (filesystem, unit) run"

definition hookDirectory :: string where "hookDirectory = ''entrypoint.d''"

definition hookCommand :: "string \<Rightarrow> nat \<Rightarrow> string list option" where
  "hookCommand path mode =
     (if EqualFold (path_Ext path) ''.sh'' then Some [''/bin/sh'', path]
      else if Bit_Operations.and mode 73 \<noteq> 0 then Some [path]
      else None)"

text \<open>One entry of the directory, and the loop over all of them.\<close>

definition runHook :: "runner \<Rightarrow> string list \<Rightarrow> string \<Rightarrow> (filesystem, unit) run" where
  "runHook runner envp path fs =
     (case os_Stat fs path of
        Inl e \<Rightarrow> Some (Inl (Wrapf ''inspect entrypoint hook %s: %w'' [path] e), fs)
      | Inr info \<Rightarrow>
          if \<not> IsRegular info then Some (Inr (), fs)
          else (case hookCommand path (node_perm info) of
                  None \<Rightarrow> Some (Inr (), fs)
                | Some args \<Rightarrow> wrap_run ''entrypoint hook %s failed: %w'' [path] (runner args envp) fs))"

definition on_files_run :: "(filesystem, 'a) run \<Rightarrow> ('w process_scheme, 'a) run" where
  "on_files_run m s = map_option (\<lambda>(r, fs). (r, s\<lparr>files := fs\<rparr>)) (m (files s))"

definition hooks_Run :: "runner \<Rightarrow> ('w process_scheme, unit) run" where
  "hooks_Run runner s =
     (case RequiredConfigDir (files s) (environ s) of
        Inl e \<Rightarrow> Some (Inl e, s)
      | Inr configDir \<Rightarrow>
          (let directory = path_Join [configDir, hookDirectory] in
           case os_ReadDir (files s) directory of
             Inl e \<Rightarrow>
               if e = ErrNotExist then Some (Inr (), s)
               else Some (Inl (Wrapf ''read entrypoint hooks directory %s: %w'' [directory] e), s)
           | Inr entries \<Rightarrow>
               on_files_run
                 (for_run entries (\<lambda>(name, _). runHook runner (env_List (environ s)) (path_Join [directory, name]))) s))"

end
