(* ===== verification/SecretOwner.thy ===== *)
theory SecretOwner
  imports SecretFiles
begin

text \<open>
  Handing the generated secrets to the account of the service, \<open>internal/bootstrap/secret_owner_unix.go\<close>.
  Owners are not part of the file system model, so that a change of owner only succeeds or fails; the
  account database is an argument.  The tree is visited in the order of \<open>fs.WalkDir\<close>: a directory
  before its entries, the entries by name, which is the order of the places.
\<close>

record account =
  Uid :: string
  Gid :: string

definition at_place :: "filesystem \<Rightarrow> sysop \<Rightarrow> place \<Rightarrow> unit result" where
  "at_place fs what p = map_sum id (\<lambda>_. ()) (must_exist fs what (Inr (p, node_at (nodes fs) p)))"

definition visitSecret :: "filesystem \<Rightarrow> place \<Rightarrow> unit result" where
  "visitSecret fs p =
     (case node_at (nodes fs) p of
        None \<Rightarrow> Inr ()
      | Some n \<Rightarrow>
          if IsLink n then Inr ()
          else bind_res (at_place fs OpChown p) (\<lambda>_. if IsDir n then at_place fs OpReadDir p else Inr ()))"

definition places_below :: "filesystem \<Rightarrow> place \<Rightarrow> place list" where
  "places_below fs b = sort (filter (\<lambda>p. prefix b p \<and> p \<noteq> b) (remdups (map fst (nodes fs))))"

definition chownGeneratedSecretTree :: "filesystem \<Rightarrow> place \<Rightarrow> unit result" where
  "chownGeneratedSecretTree fs b =
     bind_res (at_place fs OpStat b) (\<lambda>_.
     bind_res (at_place fs OpReadDir b) (\<lambda>_.
     bind_res (for_res (places_below fs b) (visitSecret fs)) (\<lambda>_.
     at_place fs OpChown b)))"

definition parse_id :: "string \<Rightarrow> string \<Rightarrow> string \<Rightarrow> int result" where
  "parse_id fmt username v =
     (case Atoi v of
        None \<Rightarrow> Inl (Wrapf fmt [username] (SysError ''strconv.Atoi: invalid syntax''))
      | Some i \<Rightarrow> Inr i)"

definition ChownGeneratedSecrets ::
  "int \<Rightarrow> (string \<Rightarrow> account result) \<Rightarrow> string \<Rightarrow> ('w process_scheme, unit) eff" where
  "ChownGeneratedSecrets uid lookup username s =
     (if uid \<noteq> 0 \<or> username = [] then (Inr (), s)
      else
        (bind_res (wrap_res ''look up generated-secret owner %q: %w'' [username] (lookup username)) (\<lambda>a.
         bind_res (parse_id ''parse uid for %q: %w'' username (Uid a)) (\<lambda>_.
         bind_res (parse_id ''parse gid for %q: %w'' username (Gid a)) (\<lambda>_.
         bind_res (fst (openExisting \<lparr>environ = environ s, files = files s, root = None\<rparr>)) (\<lambda>b.
         case b of
           None \<Rightarrow> Inr ()
         | Some b \<Rightarrow> wrap_res ''change generated secret tree owner: %w'' [] (chownGeneratedSecretTree (files s) b))))), s))"

text \<open>Every entry that is not a link is handed over when the function succeeds.\<close>

lemma for_res_each: "for_res xs f = Inr ys \<Longrightarrow> x \<in> set xs \<Longrightarrow> \<exists>y. f x = Inr y"
  by (induction xs arbitrary: ys) (auto split: sum.splits)

lemma chownGeneratedSecretTree_all:
  assumes "chownGeneratedSecretTree fs b = Inr ()" "node_at (nodes fs) p = Some n" "prefix b p" "p \<noteq> []" "p \<noteq> b"
    and "\<not> IsLink n"
  shows "denied fs OpChown p = None"
proof -
  from assms(1) obtain us where us: "for_res (places_below fs b) (visitSecret fs) = Inr us"
    by (auto simp: chownGeneratedSecretTree_def)
  have "p \<in> set (places_below fs b)"
    using assms(2-5) by (force simp: places_below_def node_at_def dest: map_of_SomeD)
  from for_res_each [OF us this] assms(2,6) show ?thesis
    by (auto simp: visitSecret_def at_place_def must_exist_def bind_res_def split: option.splits sum.splits)
qed

end
