(* ===== verification/WebStack.thy ===== *)
theory WebStack
  imports Environment
begin

text \<open>
  The process stack of the frontend, \<open>supervise\<close> and \<open>waitForChildren\<close> of \<open>internal/web/stack.go\<close>.  The supervisor
  runs beside its children, the goroutines that wait for them, the operator who sends signals and a
  timer; which of them moves next is not determined.  A state has the program counter of the
  supervisor, its channels and the processes; an event is one move, and the step function says
  whether the move is possible and what it does.  The contract is an abstract machine of phases
  which the supervisor refines.
\<close>

section \<open>State\<close>

text \<open>A child has exited before its goroutine has put the result of its wait into the channel.\<close>

datatype child = NotStarted | Alive | Exited "error option" | Reaped "error option"

datatype supervisor_pc = Starting | Selecting | Draining nat | Finished

datatype sent_signal = SIGTERM | SIGKILL

record stack =
  sv_pc :: supervisor_pc
  sv_children :: "child list"
  sv_started :: nat
  sv_results :: "(nat \<times> error option) list"
  sv_pending :: bool
  sv_timer :: bool
  sv_first :: "nat option"
  sv_error :: "error option"
  sv_sent :: "(nat \<times> sent_signal) list"

datatype stack_event =
    Starts
  | StartFails error
  | Receives
  | TakesSignal
  | TimesOut
  | ChildExits nat "error option"
  | Delivers nat
  | Interrupts

section \<open>Steps\<close>

text \<open>The loop over the children goes on to the \<open>select\<close>; the loop of \<open>waitForChildren\<close> ends when
  nothing remains.\<close>

definition started_pc :: "nat \<Rightarrow> nat \<Rightarrow> supervisor_pc" where
  "started_pc i n = (if i < n then Starting else Selecting)"

definition draining_pc :: "nat \<Rightarrow> supervisor_pc" where
  "draining_pc remaining = (if remaining = 0 then Finished else Draining remaining)"

definition init_stack :: "nat \<Rightarrow> stack" where
  "init_stack n =
     \<lparr>sv_pc = started_pc 0 n, sv_children = replicate n NotStarted, sv_started = 0, sv_results = [], sv_pending = False,
      sv_timer = False, sv_first = None, sv_error = None, sv_sent = []\<rparr>"

definition signal_all :: "sent_signal \<Rightarrow> nat list \<Rightarrow> stack \<Rightarrow> stack" where
  "signal_all sig js s = s\<lparr>sv_sent := sv_sent s @ map (\<lambda>j. (j, sig)) js\<rparr>"

text \<open>\<open>waitForChildren\<close> begins: the timer starts unless nothing remains.\<close>

definition begin_drain :: "nat \<Rightarrow> stack \<Rightarrow> stack" where
  "begin_drain remaining s = s\<lparr>sv_pc := draining_pc remaining, sv_timer := True\<rparr>"

definition receive_result :: "stack \<Rightarrow> stack option" where
  "receive_result s =
     (case sv_results s of
        [] \<Rightarrow> None
      | (j, r) # rest \<Rightarrow>
          (let n = length (sv_children s); t = s\<lparr>sv_results := rest\<rparr> in
           case sv_pc s of
             Selecting \<Rightarrow>
               Some (begin_drain (n - 1)
                 (signal_all SIGTERM (filter (\<lambda>i. i \<noteq> j) [0 ..< n]) (t\<lparr>sv_first := Some j, sv_error := r\<rparr>)))
           | Draining remaining \<Rightarrow> Some (t\<lparr>sv_pc := draining_pc (remaining - 1)\<rparr>)
           | _ \<Rightarrow> None))"

fun stack_step :: "stack_event \<Rightarrow> stack \<Rightarrow> stack option" where
  "stack_step Starts s =
     (if sv_pc s = Starting
      then (let i = sv_started s in
            Some (s\<lparr>sv_children := (sv_children s)[i := Alive], sv_started := Suc i,
                    sv_pc := started_pc (Suc i) (length (sv_children s))\<rparr>))
      else None)"
| "stack_step (StartFails e) s =
     (if sv_pc s = Starting
      then Some (begin_drain (sv_started s) (signal_all SIGTERM [0 ..< sv_started s] (s\<lparr>sv_error := Some e\<rparr>)))
      else None)"
| "stack_step Receives s = receive_result s"
| "stack_step TakesSignal s =
     (if sv_pc s = Selecting \<and> sv_pending s
      then (let n = length (sv_children s) in Some (begin_drain n (signal_all SIGTERM [0 ..< n] (s\<lparr>sv_pending := False\<rparr>))))
      else None)"
| "stack_step TimesOut s =
     (case sv_pc s of
        Draining _ \<Rightarrow> if sv_timer s then Some (signal_all SIGKILL [0 ..< sv_started s] (s\<lparr>sv_timer := False\<rparr>)) else None
      | _ \<Rightarrow> None)"
| "stack_step (ChildExits j r) s =
     (if j < length (sv_children s) \<and> sv_children s ! j = Alive
      then Some (s\<lparr>sv_children := (sv_children s)[j := Exited r]\<rparr>) else None)"
| "stack_step (Delivers j) s =
     (if j < length (sv_children s)
      then (case sv_children s ! j of
              Exited r \<Rightarrow> Some (s\<lparr>sv_children := (sv_children s)[j := Reaped r], sv_results := sv_results s @ [(j, r)]\<rparr>)
            | _ \<Rightarrow> None)
      else None)"
| "stack_step Interrupts s = Some (s\<lparr>sv_pending := True\<rparr>)"

fun stack_run :: "stack_event list \<Rightarrow> stack \<Rightarrow> stack option" where
  "stack_run [] s = Some s"
| "stack_run (e # es) s = Option.bind (stack_step e s) (stack_run es)"

text \<open>What \<open>supervise\<close> returns under a schedule, when it returns.\<close>

definition supervise :: "nat \<Rightarrow> stack_event list \<Rightarrow> unit result option" where
  "supervise n es =
     Option.bind (stack_run es (init_stack n)) (\<lambda>s.
       if sv_pc s = Finished then Some (case sv_error s of None \<Rightarrow> Inr () | Some e \<Rightarrow> Inl e) else None)"

inductive reachable :: "nat \<Rightarrow> stack \<Rightarrow> bool" for n where
  initial: "reachable n (init_stack n)"
| step: "reachable n s \<Longrightarrow> stack_step e s = Some t \<Longrightarrow> reachable n t"

lemma stack_run_reachable: "stack_run es s = Some t \<Longrightarrow> reachable n s \<Longrightarrow> reachable n t"
  by (induction es arbitrary: s) (auto simp: Option.bind_eq_Some_conv intro: reachable.step)

section \<open>Invariant\<close>

text \<open>The results that are still to come: a process that was not waited for, or a result in the
  channel.\<close>

fun unreaped :: "child \<Rightarrow> nat" where
  "unreaped Alive = 1" | "unreaped (Exited _) = 1" | "unreaped _ = 0"

definition outstanding :: "stack \<Rightarrow> nat" where
  "outstanding s = sum_list (map unreaped (sv_children s)) + length (sv_results s)"

definition awaited :: "stack \<Rightarrow> nat" where
  "awaited s = (case sv_pc s of Draining k \<Rightarrow> k | Finished \<Rightarrow> 0 | _ \<Rightarrow> sv_started s)"

definition inv_children :: "nat \<Rightarrow> stack \<Rightarrow> bool" where
  "inv_children n s \<longleftrightarrow>
     length (sv_children s) = n \<and> sv_started s \<le> n \<and> (\<forall>j < n. sv_children s ! j = NotStarted \<longleftrightarrow> sv_started s \<le> j)"

definition inv_results :: "stack \<Rightarrow> bool" where
  "inv_results s \<longleftrightarrow>
     (\<forall>j r. (j, r) \<in> set (sv_results s) \<longrightarrow> j < length (sv_children s) \<and> sv_children s ! j = Reaped r)"

definition inv_pc :: "nat \<Rightarrow> stack \<Rightarrow> bool" where
  "inv_pc n s \<longleftrightarrow>
     (case sv_pc s of
        Starting \<Rightarrow> sv_started s < n \<and> sv_first s = None \<and> sv_sent s = [] \<and> sv_error s = None
      | Selecting \<Rightarrow> sv_started s = n \<and> sv_first s = None \<and> sv_sent s = [] \<and> sv_error s = None
      | Draining k \<Rightarrow> 0 < k
      | Finished \<Rightarrow> True)"

definition inv_first :: "nat \<Rightarrow> stack \<Rightarrow> bool" where
  "inv_first n s \<longleftrightarrow>
     (\<forall>j. sv_first s = Some j \<longrightarrow> j < n \<and> sv_children s ! j = Reaped (sv_error s) \<and> sv_started s = n)"

definition stopping :: "stack \<Rightarrow> bool" where
  "stopping s \<longleftrightarrow> sv_pc s \<noteq> Starting \<and> sv_pc s \<noteq> Selecting"

definition inv_signals :: "nat \<Rightarrow> stack \<Rightarrow> bool" where
  "inv_signals n s \<longleftrightarrow>
     (stopping s \<longrightarrow>
        (\<forall>j < sv_started s. sv_first s \<noteq> Some j \<longrightarrow> (j, SIGTERM) \<in> set (sv_sent s)) \<and>
        (sv_first s = None \<and> sv_error s = None \<longrightarrow> sv_started s = n) \<and>
        (if sv_timer s then (\<forall>j. (j, SIGKILL) \<notin> set (sv_sent s))
         else (\<forall>j < sv_started s. (j, SIGKILL) \<in> set (sv_sent s))))"

definition stack_inv :: "nat \<Rightarrow> stack \<Rightarrow> bool" where
  "stack_inv n s \<longleftrightarrow>
     inv_children n s \<and> inv_results s \<and> outstanding s = awaited s \<and> inv_pc n s \<and> inv_first n s \<and> inv_signals n s"

lemma unreaped_update:
  "j < length cs \<Longrightarrow> sum_list (map unreaped (cs[j := c])) + unreaped (cs ! j) = sum_list (map unreaped cs) + unreaped c"
proof (induction cs arbitrary: j)
  case (Cons d cs)
  then show ?case by (cases j) auto
qed simp

text \<open>Every move with the state it leads to.\<close>

lemma stack_step_cases [consumes 1, case_names starts start_fails select drain takes_signal times_out exits delivers interrupts]:
  assumes "stack_step e s = Some t"
  obtains
    "sv_pc s = Starting" "t = s\<lparr>sv_children := (sv_children s)[sv_started s := Alive], sv_started := Suc (sv_started s),
                    sv_pc := started_pc (Suc (sv_started s)) (length (sv_children s))\<rparr>"
  | err where "sv_pc s = Starting"
      "t = begin_drain (sv_started s) (signal_all SIGTERM [0 ..< sv_started s] (s\<lparr>sv_error := Some err\<rparr>))"
  | j r rest where "sv_pc s = Selecting" "sv_results s = (j, r) # rest"
      "t = begin_drain (length (sv_children s) - 1)
             (signal_all SIGTERM (filter (\<lambda>i. i \<noteq> j) [0 ..< length (sv_children s)])
               (s\<lparr>sv_results := rest, sv_first := Some j, sv_error := r\<rparr>))"
  | k j r rest where "sv_pc s = Draining k" "sv_results s = (j, r) # rest"
      "t = s\<lparr>sv_results := rest, sv_pc := draining_pc (k - 1)\<rparr>"
  | "sv_pc s = Selecting" "sv_pending s"
      "t = begin_drain (length (sv_children s)) (signal_all SIGTERM [0 ..< length (sv_children s)] (s\<lparr>sv_pending := False\<rparr>))"
  | k where "sv_pc s = Draining k" "sv_timer s" "t = signal_all SIGKILL [0 ..< sv_started s] (s\<lparr>sv_timer := False\<rparr>)"
  | j r where "j < length (sv_children s)" "sv_children s ! j = Alive" "t = s\<lparr>sv_children := (sv_children s)[j := Exited r]\<rparr>"
  | j r where "j < length (sv_children s)" "sv_children s ! j = Exited r"
      "t = s\<lparr>sv_children := (sv_children s)[j := Reaped r], sv_results := sv_results s @ [(j, r)]\<rparr>"
  | "e = Interrupts" "t = s\<lparr>sv_pending := True\<rparr>"
proof (cases e)
  case Receives
  with assms that(3,4) show ?thesis
    by (auto simp: receive_result_def Let_def split: list.splits supervisor_pc.splits)
next
  case TimesOut
  with assms that(6) show ?thesis by (auto split: supervisor_pc.splits if_splits)
next
  case (Delivers j)
  with assms that(8) show ?thesis by (auto split: child.splits if_splits)
qed (use assms that(1,2,5,7,9) in \<open>auto simp: Let_def split: if_splits\<close>)

lemmas stack_ops = begin_drain_def signal_all_def draining_pc_def started_pc_def

lemma inv_children_step: "stack_step e s = Some t \<Longrightarrow> stack_inv n s \<Longrightarrow> inv_children n t"
proof (induction rule: stack_step_cases)
  case starts
  then show ?case
    by (auto simp: stack_inv_def inv_children_def inv_pc_def nth_list_update)
qed (auto simp: stack_inv_def inv_children_def stack_ops nth_list_update)

lemma inv_results_step: "stack_step e s = Some t \<Longrightarrow> stack_inv n s \<Longrightarrow> inv_results t"
proof (induction rule: stack_step_cases)
  case starts
  then have "sv_started s < length (sv_children s)" "sv_children s ! sv_started s = NotStarted"
    by (simp_all add: stack_inv_def inv_children_def inv_pc_def)
  with starts show ?case by (fastforce simp: stack_inv_def inv_results_def nth_list_update)
qed (fastforce simp: stack_inv_def inv_results_def stack_ops nth_list_update)+

lemma outstanding_step: "stack_step e s = Some t \<Longrightarrow> stack_inv n s \<Longrightarrow> outstanding t = awaited t"
proof (induction rule: stack_step_cases)
  case starts
  then have c: "sv_started s < length (sv_children s)" "sv_children s ! sv_started s = NotStarted"
    by (simp_all add: stack_inv_def inv_children_def inv_pc_def)
  from starts unreaped_update [OF c(1), of Alive] c(2) show ?case
    by (auto simp: stack_inv_def outstanding_def awaited_def stack_ops)
next
  case (select j r rest)
  then have "sum_list (map unreaped (sv_children s)) + Suc (length rest) = length (sv_children s)"
    by (simp add: stack_inv_def inv_children_def inv_pc_def outstanding_def awaited_def)
  with select show ?case
    by (cases "sv_children s") (auto simp: outstanding_def awaited_def stack_ops)
next
  case (takes_signal)
  then show ?case
    by (auto simp: stack_inv_def inv_children_def inv_pc_def outstanding_def awaited_def stack_ops)
next
  case (exits j r)
  from unreaped_update [OF exits(1), of "Exited r"] exits show ?case
    by (simp add: stack_inv_def outstanding_def awaited_def split: supervisor_pc.splits)
next
  case (delivers j r)
  from unreaped_update [OF delivers(1), of "Reaped r"] delivers show ?case
    by (simp add: stack_inv_def outstanding_def awaited_def split: supervisor_pc.splits)
qed (auto simp: stack_inv_def outstanding_def awaited_def stack_ops split: supervisor_pc.splits)

lemma inv_pc_step: "stack_step e s = Some t \<Longrightarrow> stack_inv n s \<Longrightarrow> inv_pc n t"
proof (induction rule: stack_step_cases)
  case starts
  then show ?case by (auto simp: stack_inv_def inv_children_def inv_pc_def stack_ops)
qed (auto simp: stack_inv_def inv_pc_def stack_ops split: supervisor_pc.splits)

lemma inv_first_step: "stack_step e s = Some t \<Longrightarrow> stack_inv n s \<Longrightarrow> inv_first n t"
proof (induction rule: stack_step_cases)
  case (select j r rest)
  then show ?case
    by (auto simp: stack_inv_def inv_first_def inv_results_def inv_children_def inv_pc_def stack_ops)
qed (auto simp: stack_inv_def inv_first_def inv_pc_def inv_children_def stack_ops nth_list_update)

lemma inv_signals_step: "stack_step e s = Some t \<Longrightarrow> stack_inv n s \<Longrightarrow> inv_signals n t"
proof (induction rule: stack_step_cases)
  case starts
  then show ?case by (auto simp: inv_signals_def stopping_def stack_ops)
next
  case (start_fails err)
  then show ?case by (auto simp: stack_inv_def inv_signals_def inv_pc_def stopping_def stack_ops)
next
  case (select j r rest)
  then show ?case by (auto simp: stack_inv_def inv_signals_def inv_pc_def inv_children_def stopping_def stack_ops)
next
  case (drain k j r rest)
  then show ?case by (auto simp: stack_inv_def inv_signals_def stopping_def stack_ops)
next
  case takes_signal
  then show ?case by (auto simp: stack_inv_def inv_signals_def inv_pc_def inv_children_def stopping_def stack_ops)
next
  case (times_out k)
  then show ?case by (auto simp: stack_inv_def inv_signals_def stopping_def stack_ops)
qed (auto simp: stack_inv_def inv_signals_def stopping_def)

lemma stack_inv_step: "stack_inv n s \<Longrightarrow> stack_step e s = Some t \<Longrightarrow> stack_inv n t"
  unfolding stack_inv_def [of n t]
  by (blast intro: inv_children_step inv_results_step outstanding_step inv_pc_step inv_first_step inv_signals_step)

lemma stack_inv_init: "stack_inv n (init_stack n)"
  by (auto simp: stack_inv_def inv_children_def inv_results_def inv_pc_def inv_first_def inv_signals_def stopping_def
      init_stack_def outstanding_def awaited_def started_pc_def map_replicate_const sum_list_replicate)

lemma reachable_inv: "reachable n s \<Longrightarrow> stack_inv n s"
  by (induction rule: reachable.induct) (auto intro: stack_inv_init stack_inv_step)

section \<open>What the supervisor promises\<close>

lemma unreaped_none: "sum_list (map unreaped cs) = 0 \<Longrightarrow> c \<in> set cs \<Longrightarrow> c = NotStarted \<or> (\<exists>r. c = Reaped r)"
  by (cases c) auto

lemma finished_reaped:
  assumes "stack_inv n s" "sv_pc s = Finished" "j < n"
  shows "sv_children s ! j = NotStarted \<or> (\<exists>r. sv_children s ! j = Reaped r)"
  using assms unreaped_none [of "sv_children s" "sv_children s ! j"]
  by (auto simp: stack_inv_def inv_children_def outstanding_def awaited_def)


definition sample_schedule :: "stack_event list" where
  "sample_schedule =
     [Starts, Starts, ChildExits 1 (Some (ExitError 2)), Delivers 1, Receives, TimesOut, ChildExits 0 None, Delivers 0, Receives]"


text \<open>Every move but an operator's signal uses up some potential.\<close>

fun child_potential :: "child \<Rightarrow> nat" where
  "child_potential NotStarted = 4" | "child_potential Alive = 3" | "child_potential (Exited _) = 2"
| "child_potential (Reaped _) = 0"

definition potential :: "stack \<Rightarrow> nat" where
  "potential s =
     sum_list (map child_potential (sv_children s)) + length (sv_results s) +
     (case sv_pc s of Starting \<Rightarrow> 2 | Selecting \<Rightarrow> 2 | _ \<Rightarrow> if sv_timer s then 1 else 0)"

lemma potential_update:
  "j < length cs \<Longrightarrow> sum_list (map child_potential (cs[j := c])) + child_potential (cs ! j) =
     sum_list (map child_potential cs) + child_potential c"
proof (induction cs arbitrary: j)
  case (Cons d cs)
  then show ?case by (cases j) auto
qed simp

lemma potential_step:
  "stack_step e s = Some t \<Longrightarrow> stack_inv n s \<Longrightarrow> potential t < potential s \<or> e = Interrupts"
proof (cases "e = Interrupts")
  case False
  assume step: "stack_step e s = Some t" and inv: "stack_inv n s"
  from step inv have "potential t < potential s"
  proof (induction rule: stack_step_cases)
    case starts
    then have c: "sv_started s < length (sv_children s)" "sv_children s ! sv_started s = NotStarted"
      by (simp_all add: stack_inv_def inv_children_def inv_pc_def)
    from starts potential_update [OF c(1), of Alive] c(2) show ?case
      by (simp add: potential_def stack_ops)
  next
    case (exits j r)
    from potential_update [OF exits(1), of "Exited r"] exits(2,3) show ?case
      by (simp add: potential_def)
  next
    case (delivers j r)
    from potential_update [OF delivers(1), of "Reaped r"] delivers(2,3) show ?case
      by (simp add: potential_def)
  next
    case interrupts
    with False show ?case by simp
  qed (auto simp: potential_def stack_ops)
  then show ?thesis ..
qed simp

lemma potential_run:
  "stack_run es s = Some t \<Longrightarrow> stack_inv n s \<Longrightarrow>
     length (filter (\<lambda>e. e \<noteq> Interrupts) es) + potential t \<le> potential s"
proof (induction es arbitrary: s)
  case (Cons e es)
  then obtain u where u: "stack_step e s = Some u" "stack_run es u = Some t"
    by (auto simp: Option.bind_eq_Some_conv)
  have "potential u \<le> potential s" if "e = Interrupts"
    using u(1) that by (auto simp: potential_def)
  with Cons.IH [OF u(2) stack_inv_step [OF Cons.prems(2) u(1)]] potential_step [OF u(1) Cons.prems(2)]
  show ?case by auto
qed simp

lemma unreaped_some: "0 < sum_list (map unreaped cs) \<Longrightarrow> \<exists>j < length cs. cs ! j = Alive \<or> (\<exists>r. cs ! j = Exited r)"
proof (induction cs)
  case (Cons c cs)
  show ?case
  proof (cases "c = Alive \<or> (\<exists>r. c = Exited r)")
    case True
    then show ?thesis by (intro exI [of _ 0]) simp
  next
    case False
    then have "unreaped c = 0" by (cases c) auto
    with Cons obtain j where "j < length cs" "cs ! j = Alive \<or> (\<exists>r. cs ! j = Exited r)" by auto
    then show ?thesis by (intro exI [of _ "Suc j"]) simp
  qed
qed simp

text \<open>C7: the supervisor does not wait for ever.  A run of \<open>n\<close> children has at most \<open>4 n + 2\<close> moves
  besides the operator's signals, so every schedule comes to rest.  Once it has begun to stop the
  children, it rests only when it has returned, or when some child still runs although it was sent
  SIGKILL: with a kernel that ends such processes, \<open>supervise\<close> returns.\<close>

theorem supervise_progress:
  assumes "stack_run es (init_stack n) = Some s"
  shows "length (filter (\<lambda>e. e \<noteq> Interrupts) es) \<le> 4 * n + 2 \<and>
    (stopping s \<and> sv_pc s \<noteq> Finished \<longrightarrow>
       (\<exists>e. (e = Receives \<or> e = TimesOut \<or> (\<exists>j. e = Delivers j)) \<and> stack_step e s \<noteq> None) \<or>
       (\<exists>j < n. sv_children s ! j = Alive \<and> (j, SIGKILL) \<in> set (sv_sent s)))"
proof
  have "potential (init_stack n) \<le> 4 * n + 2"
    by (simp add: potential_def init_stack_def started_pc_def map_replicate_const sum_list_replicate)
  then show "length (filter (\<lambda>e. e \<noteq> Interrupts) es) \<le> 4 * n + 2"
    using potential_run [OF assms stack_inv_init] by simp
  have inv: "stack_inv n s" by (rule reachable_inv [OF stack_run_reachable [OF assms reachable.initial]])
  show "stopping s \<and> sv_pc s \<noteq> Finished \<longrightarrow>
       (\<exists>e. (e = Receives \<or> e = TimesOut \<or> (\<exists>j. e = Delivers j)) \<and> stack_step e s \<noteq> None) \<or>
       (\<exists>j < n. sv_children s ! j = Alive \<and> (j, SIGKILL) \<in> set (sv_sent s))"
  proof (intro impI disjCI)
    assume st: "stopping s \<and> sv_pc s \<noteq> Finished"
      and alone: "\<not> (\<exists>j < n. sv_children s ! j = Alive \<and> (j, SIGKILL) \<in> set (sv_sent s))"
    from st obtain k where k: "sv_pc s = Draining k" by (cases "sv_pc s") (auto simp: stopping_def)
    show "\<exists>e. (e = Receives \<or> e = TimesOut \<or> (\<exists>j. e = Delivers j)) \<and> stack_step e s \<noteq> None"
    proof (cases "sv_results s")
      case (Cons x rest)
      with k have "stack_step Receives s \<noteq> None" by (auto simp: receive_result_def split: prod.split)
      then show ?thesis by blast
    next
      case Nil
      with inv k obtain j where j: "j < n" "sv_children s ! j = Alive \<or> (\<exists>r. sv_children s ! j = Exited r)"
        using unreaped_some [of "sv_children s"]
        by (auto simp: stack_inv_def inv_children_def inv_pc_def outstanding_def awaited_def)
      show ?thesis
      proof (cases "sv_children s ! j = Alive")
        case True
        with inv j(1) have "j < sv_started s" by (auto simp: stack_inv_def inv_children_def not_le [symmetric])
        with inv st True alone j(1) have "sv_timer s" by (auto simp: stack_inv_def inv_signals_def split: if_splits)
        with k have "stack_step TimesOut s \<noteq> None" by simp
        then show ?thesis by blast
      next
        case False
        with j inv have "stack_step (Delivers j) s \<noteq> None" by (auto simp: stack_inv_def inv_children_def)
        then show ?thesis by blast
      qed
    qed
  qed
qed

section \<open>Refinement\<close>

text \<open>The contract: the stack is up while its children are started; it is taken down in phases,
  and it is down only when no child is left.  A child can end at any time.\<close>

datatype phase = Up | Stopping | Killing | Down

record stack_spec =
  spec_phase :: phase
  spec_live :: "nat set"

definition spec_init :: stack_spec where "spec_init = \<lparr>spec_phase = Up, spec_live = {}\<rparr>"

inductive spec_step :: "stack_spec \<Rightarrow> stack_spec \<Rightarrow> bool" where
  launch: "spec_phase a = Up \<Longrightarrow> spec_step a (a\<lparr>spec_live := insert j (spec_live a)\<rparr>)"
| leave: "spec_step a (a\<lparr>spec_live := spec_live a - {j}\<rparr>)"
| stop: "spec_phase a = Up \<Longrightarrow> spec_step a (a\<lparr>spec_phase := Stopping\<rparr>)"
| kill: "spec_phase a = Stopping \<Longrightarrow> spec_step a (a\<lparr>spec_phase := Killing\<rparr>)"
| down: "spec_phase a = Stopping \<or> spec_phase a = Killing \<Longrightarrow> spec_live a = {} \<Longrightarrow>
     spec_step a (a\<lparr>spec_phase := Down\<rparr>)"

definition stack_abs :: "stack \<Rightarrow> stack_spec" where
  "stack_abs s =
     \<lparr>spec_phase = (case sv_pc s of Draining _ \<Rightarrow> if sv_timer s then Stopping else Killing | Finished \<Rightarrow> Down | _ \<Rightarrow> Up),
      spec_live = {j. j < length (sv_children s) \<and> unreaped (sv_children s ! j) = 1}\<rparr>"

lemma live_update:
  "j < length cs \<Longrightarrow> {i. i < length (cs[j := c]) \<and> unreaped (cs[j := c] ! i) = 1} =
     (if unreaped c = 1 then insert j {i. i < length cs \<and> unreaped (cs ! i) = 1}
      else {i. i < length cs \<and> unreaped (cs ! i) = 1} - {j})"
  by (auto simp: nth_list_update)

lemma nothing_live: "sum_list (map unreaped cs) = 0 \<Longrightarrow> {j. j < length cs \<and> unreaped (cs ! j) = 1} = {}"
  by (auto simp: sum_list_eq_0_iff)

text \<open>The end of the drain, from a phase in which the children are being stopped.\<close>

lemma spec_drained:
  assumes "spec_phase a = Stopping \<or> spec_phase a = Killing" "spec_live a = {}"
  shows "spec_step\<^sup>*\<^sup>* a (a\<lparr>spec_phase := Down\<rparr>)"
  using spec_step.down [OF assms] by blast

lemma spec_begin_drain:
  assumes "spec_phase a = Up" "remaining = 0 \<Longrightarrow> spec_live a = {}"
  shows "spec_step\<^sup>*\<^sup>* a (a\<lparr>spec_phase := (if remaining = (0 :: nat) then Down else Stopping)\<rparr>)"
proof (cases "remaining = 0")
  case True
  have "spec_step a (a\<lparr>spec_phase := Stopping\<rparr>)" by (rule spec_step.stop [OF assms(1)])
  moreover have "spec_step (a\<lparr>spec_phase := Stopping\<rparr>) (a\<lparr>spec_phase := Down\<rparr>)"
    using spec_step.down [of "a\<lparr>spec_phase := Stopping\<rparr>"] assms(2) True by simp
  ultimately show ?thesis using True by (simp add: rtranclp.rtrancl_into_rtrancl)
next
  case False
  then show ?thesis using spec_step.stop [OF assms(1)] by simp
qed

lemma stack_abs_step:
  "stack_step e s = Some t \<Longrightarrow> stack_inv n s \<Longrightarrow> stack_inv n t \<Longrightarrow> spec_step\<^sup>*\<^sup>* (stack_abs s) (stack_abs t)"
proof (induction rule: stack_step_cases)
  case starts
  then have c: "sv_started s < length (sv_children s)"
    by (simp add: stack_inv_def inv_children_def inv_pc_def)
  have "stack_abs t = (stack_abs s)\<lparr>spec_live := insert (sv_started s) (spec_live (stack_abs s))\<rparr>"
    using starts(1,2) live_update [OF c, of Alive] by (simp add: stack_abs_def started_pc_def)
  moreover have "spec_phase (stack_abs s) = Up" using starts(1) by (simp add: stack_abs_def)
  ultimately show ?case using spec_step.launch by (metis r_into_rtranclp)
next
  case (start_fails err)
  have "spec_live (stack_abs s) = {}" if "sv_started s = 0"
    using start_fails(1,3) that nothing_live [of "sv_children s"]
    by (simp add: stack_inv_def outstanding_def awaited_def stack_abs_def)
  moreover have "stack_abs t = (stack_abs s)\<lparr>spec_phase := (if sv_started s = 0 then Down else Stopping)\<rparr>"
    using start_fails(1,2) by (simp add: stack_abs_def stack_ops)
  ultimately show ?case
    using spec_begin_drain [of "stack_abs s" "sv_started s"] start_fails(1) by (simp add: stack_abs_def)
next
  case (select j r rest)
  let ?n = "length (sv_children s)"
  have "spec_live (stack_abs s) = {}" if "?n - 1 = 0"
  proof -
    have "sum_list (map unreaped (sv_children s)) + Suc (length rest) = ?n"
      using select(1,2,4) by (simp add: stack_inv_def inv_children_def inv_pc_def outstanding_def awaited_def)
    with that have "sum_list (map unreaped (sv_children s)) = 0" by linarith
    then show ?thesis using nothing_live by (simp add: stack_abs_def)
  qed
  moreover have "stack_abs t = (stack_abs s)\<lparr>spec_phase := (if ?n - 1 = 0 then Down else Stopping)\<rparr>"
    using select(1,3) by (simp add: stack_abs_def stack_ops)
  ultimately show ?case
    using spec_begin_drain [of "stack_abs s" "?n - 1"] select(1) by (simp add: stack_abs_def)
next
  case (drain k j r rest)
  show ?case
  proof (cases "k - 1 = 0")
    case True
    have "sum_list (map unreaped (sv_children s)) + Suc (length rest) = k"
      using drain(1,2,4) by (simp add: stack_inv_def outstanding_def awaited_def)
    with True have "sum_list (map unreaped (sv_children s)) = 0" by linarith
    then have "spec_live (stack_abs s) = {}" using nothing_live by (simp add: stack_abs_def)
    moreover have "stack_abs t = (stack_abs s)\<lparr>spec_phase := Down\<rparr>"
      using drain(3) True by (simp add: stack_abs_def stack_ops)
    ultimately show ?thesis using spec_drained [of "stack_abs s"] drain(1) by (auto simp: stack_abs_def)
  next
    case False
    with drain show ?thesis by (simp add: stack_abs_def stack_ops)
  qed
next
  case takes_signal
  let ?n = "length (sv_children s)"
  have "spec_live (stack_abs s) = {}" if "?n = 0" using that by (simp add: stack_abs_def)
  moreover have "stack_abs t = (stack_abs s)\<lparr>spec_phase := (if ?n = 0 then Down else Stopping)\<rparr>"
    using takes_signal(1,3) by (simp add: stack_abs_def stack_ops)
  ultimately show ?case
    using spec_begin_drain [of "stack_abs s" ?n] takes_signal(1) by (simp add: stack_abs_def)
next
  case (times_out k)
  have "stack_abs t = (stack_abs s)\<lparr>spec_phase := Killing\<rparr>"
    using times_out(1,3) by (simp add: stack_abs_def stack_ops)
  moreover have "spec_phase (stack_abs s) = Stopping" using times_out(1,2) by (simp add: stack_abs_def)
  ultimately show ?case using spec_step.kill by (metis r_into_rtranclp)
next
  case (exits j r)
  have "{i. i < length (sv_children s) \<and> unreaped ((sv_children s)[j := Exited r] ! i) = 1} =
      {i. i < length (sv_children s) \<and> unreaped (sv_children s ! i) = 1}"
    using exits(1,2) by (auto simp: nth_list_update)
  with exits(3) show ?case by (simp add: stack_abs_def)
next
  case (delivers j r)
  have "stack_abs t = (stack_abs s)\<lparr>spec_live := spec_live (stack_abs s) - {j}\<rparr>"
    using delivers(3) live_update [OF delivers(1), of "Reaped r"] by (simp add: stack_abs_def)
  then show ?case using spec_step.leave by (metis r_into_rtranclp)
next
  case interrupts
  then show ?case by (simp add: stack_abs_def)
qed

text \<open>C6: the supervisor refines its contract: it begins in the initial state of the abstract machine,
  and each of its moves is a sequence of abstract moves, none for a move the contract does not see.
  In particular the stack never comes up again and never goes down over a live child.\<close>

theorem supervise_refines:
  assumes "stack_run es (init_stack n) = Some s"
  shows "stack_abs (init_stack n) = spec_init \<and> spec_step\<^sup>*\<^sup>* spec_init (stack_abs s) \<and>
    (\<forall>e t. stack_step e s = Some t \<longrightarrow> spec_step\<^sup>*\<^sup>* (stack_abs s) (stack_abs t))"
proof -
  have initial: "stack_abs (init_stack n) = spec_init"
    by (auto simp: stack_abs_def init_stack_def spec_init_def started_pc_def)
  have "reachable n s" by (rule stack_run_reachable [OF assms reachable.initial])
  then have "spec_step\<^sup>*\<^sup>* spec_init (stack_abs s)"
  proof (induction rule: reachable.induct)
    case initial
    then show ?case using \<open>stack_abs (init_stack n) = spec_init\<close> by simp
  next
    case (step s e t)
    have "spec_step\<^sup>*\<^sup>* (stack_abs s) (stack_abs t)"
      using stack_abs_step [OF step(2)] reachable_inv [OF step(1)] stack_inv_step [OF reachable_inv [OF step(1)] step(2)] by blast
    with step(3) show ?case by simp
  qed
  moreover have "spec_step\<^sup>*\<^sup>* (stack_abs s) (stack_abs t)" if "stack_step e s = Some t" for e t
    using stack_abs_step [OF that] reachable_inv [OF \<open>reachable n s\<close>]
      stack_inv_step [OF reachable_inv [OF \<open>reachable n s\<close>] that] by blast
  ultimately show ?thesis using initial by blast
qed

lemma supervise_progress_witness:
  "length (filter (\<lambda>e. e \<noteq> Interrupts) sample_schedule) \<le> 10"
proof -
  have "stack_run sample_schedule (init_stack 2) \<noteq> None" by code_simp
  then obtain s where "stack_run sample_schedule (init_stack 2) = Some s" by blast
  from supervise_progress [OF this] show ?thesis by simp
qed

lemma supervise_refines_witness:
  "\<exists>s. stack_run sample_schedule (init_stack 2) = Some s \<and> spec_step\<^sup>*\<^sup>* spec_init (stack_abs s) \<and>
     spec_phase (stack_abs s) = Down"
proof -
  have "map_option sv_pc (stack_run sample_schedule (init_stack 2)) = Some Finished" by code_simp
  then obtain s where s: "stack_run sample_schedule (init_stack 2) = Some s" "spec_phase (stack_abs s) = Down"
    by (auto simp: stack_abs_def)
  from supervise_refines [OF s(1)] s show ?thesis by blast
qed

end
