(* ===== verification/Web.thy ===== *)
theory Web
  imports WebStack SecretOwner Hooks StorageInit MySQL PostgreSQL
begin

text \<open>
  The frontend, \<open>internal/web\<close>: the configuration of PHP (\<open>php.go\<close>), nginx (\<open>nginx.go\<close>) and Apache
  (\<open>apache.go\<close>), the storage providers that PHP reads (\<open>history_provider.go\<close>, \<open>telemetry_provider.go\<close>),
  the whole entrypoint (\<open>web.go\<close>) and the processes it starts (\<open>stack.go\<close>; their supervision is in
  \<open>WebStack\<close>).  The database of the image is an interface of operations; the machine the container
  runs on is an argument.  Logging is not modelled.
\<close>

section \<open>The host\<close>

record host =
  hs_kernel :: kernel
  hs_uid :: int
  hs_LookupId :: "string \<Rightarrow> string result"
  hs_Lookup :: "string \<Rightarrow> account result"
  hs_resolver :: resolver
  hs_hook :: runner
  hs_rehash :: "string \<Rightarrow> (filesystem, unit) eff"
  hs_ipv6 :: bool
  hs_schedule :: "(string list \<times> string list) list \<Rightarrow> stack_event list"

section \<open>PHP\<close>

datatype DBType = MySQLType | PostgreSQLType

definition DBType_string :: "DBType \<Rightarrow> string" where
  "DBType_string t = (case t of MySQLType \<Rightarrow> ''MYSQL'' | PostgreSQLType \<Rightarrow> ''POSTGRESQL'')"

datatype ServerType = Apache | Nginx

definition phpDefaults :: "(string \<times> string) list" where
  "phpDefaults =
     [(''PHP_FPM_PM'', ''dynamic''), (''PHP_FPM_PM_MAX_CHILDREN'', ''50''), (''PHP_FPM_PM_START_SERVERS'', ''5''),
      (''PHP_FPM_PM_MIN_SPARE_SERVERS'', ''5''), (''PHP_FPM_PM_MAX_SPARE_SERVERS'', ''35''),
      (''PHP_FPM_PM_MAX_REQUESTS'', ''0''),
      (''ZBX_DENY_GUI_ACCESS'', ''false''),
      (''ZBX_GUI_ACCESS_IP_RANGE'', ''['' @ [CHR 0x27] @ ''127.0.0.1'' @ [CHR 0x27] @ '']''),
      (''ZBX_GUI_WARNING_MSG'', ''Zabbix is under maintenance.''),
      (''ZBX_MAXEXECUTIONTIME'', ''300''), (''ZBX_MEMORYLIMIT'', ''128M''), (''ZBX_POSTMAXSIZE'', ''16M''),
      (''ZBX_UPLOADMAXFILESIZE'', ''2M''), (''ZBX_MAXINPUTTIME'', ''300''), (''PHP_TZ'', ''Europe/Riga''),
      (''ZBX_DB_ENCRYPTION'', ''false''), (''ZBX_DB_DOUBLE_IEEE754'', ''true''),
      (''ZBX_CERT_STORAGE'', ''database''), (''ZBX_BANNERS_ENABLED'', ''true''), (''ZBX_HTTP_AUTH_ENABLED'', ''true''),
      (''ZBX_MODULES_CONFIG_ENABLED'', ''true''), (''ZBX_MEDIA_TYPE_DENYLIST'', ''[]''),
      (''ZBX_SERVER_TLS_ACTIVE'', ''0'')]"

definition prepareFrontendAliases :: "environment \<Rightarrow> environment" where
  "prepareFrontendAliases env =
     (let env = SetDefaultNonEmpty env ''ZBX_DB_VERIFY_HOST'' ''true'';
          env = (if env_get env ''ZBX_DBTLSCIPHER'' = []
                 then env_set env ''ZBX_DBTLSCIPHER'' (env_get env ''ZBX_DB_CIPHER_LIST'') else env)
      in env_delete env ''ZBX_DB_CIPHER_LIST'')"

text \<open>\<open>json.Marshal\<close> of the list of providers does not fail: the values are decoded JSON and lists
  of strings.\<close>

fun go_value :: "(string \<Rightarrow> string) \<Rightarrow> field_value \<Rightarrow> json" where
  "go_value number (Plain v) = marshal_order number v"
| "go_value number (Names ts) = JArray (map JString ts)"

definition go_map :: "(string \<Rightarrow> string) \<Rightarrow> fields \<Rightarrow> json" where
  "go_map number fs = JObject (sort_key fst (map (\<lambda>(k, v). (k, go_value number v)) fs))"

definition setWebProviders :: "(string \<Rightarrow> string) \<Rightarrow> string \<Rightarrow> fields list \<Rightarrow> environment \<Rightarrow> environment" where
  "setWebProviders number name providers env =
     env_set env name (ReplaceAll (marshal_json (JArray (map (go_map number) providers))) [CHR 0x27] (CHR 0x5C # ''u0027''))"

definition configureWebHistoryProviders :: "(string \<Rightarrow> string) \<Rightarrow> (environment, unit) eff" where
  "configureWebHistoryProviders number =
     bind_eff (WebProviders History) (\<lambda>providers env.
       (Inr (), setWebProviders number (par_Plural History) providers env))"

text \<open>The fields of a telemetry provider that name files; Go visits them in no particular order, which
  shows only in which of two errors is returned.\<close>

definition telemetryFiles :: "(string \<times> string) list" where
  "telemetryFiles = [(''ssl_cert_file'', ''ssl/certs''), (''ssl_key_file'', ''ssl/keys'')]"

fun resolveTelemetryFiles :: "filesystem \<Rightarrow> (string \<times> string) list \<Rightarrow> fields \<Rightarrow> fields result" where
  "resolveTelemetryFiles fs [] fds = Inr fds"
| "resolveTelemetryFiles fs ((field, category) # rest) fds =
     (let v = text_or_empty fds field in
      if v = [] then resolveTelemetryFiles fs rest fds
      else
        bind_res (ResolveExternalSecretFile fs field v category) (\<lambda>path.
        resolveTelemetryFiles fs rest (AList.update field (text_field path) fds)))"

definition configureWebTelemetryProviders :: "(string \<Rightarrow> string) \<Rightarrow> filesystem \<Rightarrow> (environment, unit) eff" where
  "configureWebTelemetryProviders number fs =
     bind_eff (WebProviders Telemetry) (\<lambda>providers.
     bind_eff (query_eff (\<lambda>_. for_res providers (resolveTelemetryFiles fs telemetryFiles))) (\<lambda>resolved env.
       (Inr (), setWebProviders number (par_Plural Telemetry) resolved env)))"

definition lowerVariable :: "string \<Rightarrow> environment \<Rightarrow> environment" where
  "lowerVariable name env = env_set env name (ToLower (env_get env name))"

definition phpSwitches :: "environment \<Rightarrow> environment" where
  "phpSwitches env =
     (let env = SetDefault env ''ZBX_SERVER_PORT'' ''10051'';
          expose = ToLower (ValueOrDefaultNonEmpty env ''EXPOSE_WEB_SERVER_INFO'' ''on'');
          env = env_set env ''EXPOSE_WEB_SERVER_INFO'' (if expose \<noteq> ''off'' then ''on'' else expose)
      in fold lowerVariable [''ZBX_DENY_GUI_ACCESS'', ''ZBX_DB_ENCRYPTION'', ''ZBX_DB_VERIFY_HOST'', ''ZBX_DB_DOUBLE_IEEE754''] env)"

definition phpUserConfig :: "environment \<Rightarrow> string" where
  "phpUserConfig env =
     (let user = env_get env ''DAEMON_USER''; group = env_get env ''DAEMON_GROUP''; nl = [CHR 0x0A] in
      ''user = '' @ user @ nl @ ''group = '' @ group @ nl @ ''listen.owner = '' @ user @ nl @ ''listen.group = '' @ group @ nl)"

definition configurePHPUser :: "environment \<Rightarrow> (filesystem, unit) eff" where
  "configurePHPUser env fs =
     (let configFile = env_get env ''PHP_ZBX_CONFIG_FILE'' in
      if configFile = [] then (Inl (Errorf ''PHP_ZBX_CONFIG_FILE must be set'' []), fs)
      else
        (case os_ReadFile fs configFile of
           Inl e \<Rightarrow> (Inl (Wrapf ''missing configuration file %s: %w'' [configFile] e), fs)
         | Inr data \<Rightarrow>
             if Contains data (phpUserConfig env) then (Inr (), fs)
             else WriteFilePreservingMode configFile (data @ phpUserConfig env) fs))"

definition on_process_files :: "(filesystem, 'a) eff \<Rightarrow> ('w process_scheme, 'a) eff" where
  "on_process_files m s = (case m (files s) of (r, fs) \<Rightarrow> (r, s\<lparr>files := fs\<rparr>))"

definition update_environ :: "(environment \<Rightarrow> environment) \<Rightarrow> ('w process_scheme, unit) eff" where
  "update_environ f s = (Inr (), s\<lparr>environ := f (environ s)\<rparr>)"

definition preparePHP :: "int \<Rightarrow> (string \<Rightarrow> string) \<Rightarrow> DBType \<Rightarrow> ('w process_scheme, unit) eff" where
  "preparePHP uid number dbType =
     bind_eff (update_environ (fold (\<lambda>(name, v) env. SetDefaultNonEmpty env name v) phpDefaults)) (\<lambda>_.
     bind_eff (on_environ (configureWebHistoryProviders number)) (\<lambda>_.
     bind_eff (\<lambda>s. on_environ (configureWebTelemetryProviders number (files s)) s) (\<lambda>_.
     bind_eff (update_environ phpSwitches) (\<lambda>_.
     bind_eff (if uid = 0 then (\<lambda>s. on_process_files (configurePHPUser (environ s)) s) else ret ()) (\<lambda>_.
     update_environ (\<lambda>env.
       (let env = env_set env ''DB_SERVER_TYPE'' (DBType_string dbType) in
        if dbType = MySQLType then SetDefault env ''DB_SERVER_SOCKET'' [] else env)))))))"

section \<open>nginx\<close>

text \<open>A virtual host is a link to its configuration; it is left out with a warning when the image has
  none, and whether it was added decides about IPv6.\<close>

definition enableHost :: "string \<Rightarrow> string \<Rightarrow> string \<Rightarrow> (filesystem, bool) eff" where
  "enableHost fmt source link fs =
     (case ReplaceSymlink source link fs of
        (Inl e, fs') \<Rightarrow>
          if \<not> errors_Is e ErrMissingSymlinkSource then (Inl (Wrapf fmt [] e), fs') else (Inr False, fs')
      | (Inr _, fs') \<Rightarrow> (Inr True, fs'))"

definition nginxHost :: "bool \<Rightarrow> string \<Rightarrow> string \<Rightarrow> string \<Rightarrow> string \<Rightarrow> string \<Rightarrow> (filesystem, unit) eff" where
  "nginxHost ipv6 fmt source link listenFile listen =
     bind_eff (enableHost fmt source link) (\<lambda>added.
       if added \<and> ipv6 then os_WriteFile listenFile listen 420 else ret ())"

text \<open>The 64-bit integer that follows.\<close>

definition int64_succ :: "int \<Rightarrow> int" where
  "int64_succ i = (if i = 2 ^ 63 - 1 then - (2 ^ 63) else i + 1)"

definition nginxIncludes :: "int \<Rightarrow> environment \<Rightarrow> string \<Rightarrow> (filesystem, unit) eff" where
  "nginxIncludes uid env includes =
     bind_eff (for_eff [''access-log.conf'', ''user.conf'', ''real-ip.conf'', ''listen-ipv6.conf'', ''listen-ipv6-ssl.conf'']
                 (\<lambda>name. os_WriteFile (path_Join [includes, name]) [] 420)) (\<lambda>_.
     if uid = 0
     then os_WriteFile (path_Join [includes, ''user.conf''])
            (''user '' @ env_get env ''DAEMON_USER'' @ '';'' @ [CHR 0x0A]) 420
     else ret ())"

definition nginxTLS :: "bool \<Rightarrow> environment \<Rightarrow> string \<Rightarrow> string \<Rightarrow> string \<Rightarrow> (filesystem, unit) eff" where
  "nginxTLS ipv6 env includes configDir confDirectory fs =
     (let sslDirectory = ValueOrDefaultNonEmpty env ''NGINX_SSL_CONFIG_DIR'' ''/etc/ssl/nginx'';
          source = path_Join [configDir, ''nginx_ssl.conf'']; link = path_Join [confDirectory, ''nginx_ssl.conf''] in
      if list_all (\<lambda>name. bootstrap_RegularFile fs (path_Join [sslDirectory, name])) [''ssl.crt'', ''ssl.key'', ''dhparam.pem'']
      then nginxHost ipv6 ''enable Nginx HTTPS virtual host: %w'' source link (path_Join [includes, ''listen-ipv6-ssl.conf''])
             (''listen [::]:8443 ssl;'' @ [CHR 0x0A] @ ''allow ::1;'' @ [CHR 0x0A]) fs
      else wrap_eff ''disable Nginx HTTPS virtual host: %w'' [] (RemoveMatchingSymlink source link) fs)"

definition nginxSettings :: "environment \<Rightarrow> string \<Rightarrow> (filesystem, unit) eff" where
  "nginxSettings env includes fs =
     (case Atoi (env_get env ''ZBX_MAXEXECUTIONTIME'') of
        None \<Rightarrow> (Inl (Wrapf ''invalid ZBX_MAXEXECUTIONTIME: %w'' [] (SysError ''strconv.Atoi'')), fs)
      | Some maxExecutionTime \<Rightarrow>
          bind_eff (ReplaceInFile (path_Join [includes, ''server-common.conf''])
              [(''{FCGI_READ_TIMEOUT}'', Itoa (int64_succ maxExecutionTime)),
               (''{HTTP_INDEX_FILE}'', ValueOrDefaultNonEmpty env ''HTTP_INDEX_FILE'' ''index.php'')]) (\<lambda>_.
          bind_eff (ReplaceInFile (ValueOrDefaultNonEmpty env ''NGINX_CONF_FILE'' ''/etc/nginx/nginx.conf'')
              [(''{EXPOSE_WEB_SERVER_INFO}'', env_get env ''EXPOSE_WEB_SERVER_INFO'')]) (\<lambda>_.
          bind_eff (os_WriteFile (path_Join [includes, ''access-log.conf''])
              ((if EqualFold (env_get env ''ENABLE_WEB_ACCESS_LOG'') ''false'' then ''access_log off;''
                else ''access_log /var/log/nginx/access.log main;'') @ [CHR 0x0A]) 420) (\<lambda>_.
          if env_get env ''WEB_REAL_IP_FROM'' \<noteq> []
          then os_WriteFile (path_Join [includes, ''real-ip.conf''])
            (''set_real_ip_from '' @ env_get env ''WEB_REAL_IP_FROM'' @ '';'' @ [CHR 0x0A] @
             (if env_get env ''WEB_REAL_IP_HEADER'' \<noteq> []
              then ''real_ip_header '' @ env_get env ''WEB_REAL_IP_HEADER'' @ '';'' @ [CHR 0x0A] else [])) 420
          else ret ()))) fs)"

definition prepareNginx :: "int \<Rightarrow> bool \<Rightarrow> environment \<Rightarrow> (filesystem, unit) eff" where
  "prepareNginx uid ipv6 env =
     (let includes = ValueOrDefaultNonEmpty env ''NGINX_INCLUDES_DIR'' ''/etc/nginx/includes'';
          configDir = ValueOrDefaultNonEmpty env ''ZABBIX_CONF_DIR'' ''/etc/zabbix'';
          confDirectory = ValueOrDefaultNonEmpty env ''NGINX_CONFD_DIR'' ''/etc/nginx/http.d'' in
      bind_eff (nginxIncludes uid env includes) (\<lambda>_.
      bind_eff (nginxHost ipv6 ''enable Nginx HTTP virtual host: %w'' (path_Join [configDir, ''nginx.conf''])
          (path_Join [confDirectory, ''nginx.conf'']) (path_Join [includes, ''listen-ipv6.conf''])
          (''listen [::]:8080;'' @ [CHR 0x0A] @ ''allow ::1;'' @ [CHR 0x0A])) (\<lambda>_.
      bind_eff (nginxTLS ipv6 env includes configDir confDirectory) (\<lambda>_.
      nginxSettings env includes))))"

section \<open>Apache\<close>

definition apacheRunUser :: "int \<Rightarrow> string \<Rightarrow> (string \<Rightarrow> string result) \<Rightarrow> string" where
  "apacheRunUser uid daemonUser lookup =
     (if uid = 0 then daemonUser
      else (case lookup (Itoa uid) of Inl _ \<Rightarrow> ''#'' @ Itoa uid | Inr username \<Rightarrow> username))"

definition apacheHosts :: "environment \<Rightarrow> string \<Rightarrow> (filesystem, unit) eff" where
  "apacheHosts env sitesDirectory =
     (let configDir = ValueOrDefaultNonEmpty env ''ZABBIX_CONF_DIR'' ''/etc/zabbix'';
          sslDirectory = ValueOrDefaultNonEmpty env ''APACHE_SSL_CONFIG_DIR'' ''/etc/ssl/apache2'';
          source = path_Join [configDir, ''apache_ssl.conf'']; link = path_Join [sitesDirectory, ''zabbix_ssl.conf''] in
      bind_eff (enableHost ''enable Apache HTTP virtual host: %w'' (path_Join [configDir, ''apache.conf''])
          (path_Join [sitesDirectory, ''zabbix.conf''])) (\<lambda>_ fs.
      if list_all (\<lambda>name. bootstrap_RegularFile fs (path_Join [sslDirectory, name])) [''ssl.crt'', ''ssl.key'']
      then bind_eff (enableHost ''enable Apache HTTPS virtual host: %w'' source link) (\<lambda>_. ret ()) fs
      else wrap_eff ''disable Apache HTTPS virtual host: %w'' [] (RemoveMatchingSymlink source link) fs))"

definition apacheVariables :: "environment \<Rightarrow> environment" where
  "apacheVariables env =
     (let env = SetDefaultNonEmpty env ''HTTP_INDEX_FILE'' ''index.php'';
          env = env_set env ''APACHE_CUSTOM_LOG''
            (if EqualFold (env_get env ''ENABLE_WEB_ACCESS_LOG'') ''false'' then ''/dev/null'' else ''/proc/self/fd/1'');
          hidden = env_get env ''EXPOSE_WEB_SERVER_INFO'' = ''off'';
          env = env_set env ''APACHE_SERVER_TOKENS'' (if hidden then ''Prod'' else ''OS'')
      in env_set env ''APACHE_SERVER_SIGNATURE'' (if hidden then ''Off'' else ''On''))"

definition apacheRealIP :: "environment \<Rightarrow> string \<Rightarrow> (filesystem, unit) eff" where
  "apacheRealIP env commonConfig =
     for_eff [''WEB_REAL_IP_FROM'', ''WEB_REAL_IP_HEADER'']
       (\<lambda>name. if env_get env name = [] then RemoveLinesContaining commonConfig name else ret ())"

definition prepareApache :: "int \<Rightarrow> (string \<Rightarrow> string result) \<Rightarrow> ('w process_scheme, unit) eff" where
  "prepareApache uid lookup =
     bind_eff (update_environ (\<lambda>env.
        (let env = env_set env ''APACHE_RUN_USER'' (apacheRunUser uid (env_get env ''DAEMON_USER'') lookup)
         in env_set env ''APACHE_RUN_GROUP'' (env_get env ''DAEMON_GROUP'')))) (\<lambda>_ s.
     (let sitesDirectory = ValueOrDefaultNonEmpty (environ s) ''APACHE_SITES_DIR'' ''/etc/apache2/conf.d'' in
      bind_eff (on_process_files (apacheHosts (environ s) sitesDirectory)) (\<lambda>_.
      bind_eff (update_environ apacheVariables) (\<lambda>_ t.
      bind_eff (on_process_files (apacheRealIP (environ t) (path_Join [sitesDirectory, ''server-common.inc'']))) (\<lambda>_.
      on_process_files (os_MkdirAll (ValueOrDefaultNonEmpty (environ t) ''APACHE_RUN_DIR'' ''/tmp/apache2'') 493)) t)) s))"

section \<open>The processes of the frontend\<close>

definition serverSecret :: "string \<Rightarrow> bool" where
  "serverSecret name \<longleftrightarrow>
     name = ''VAULT_TOKEN'' \<or>
     name = ''ZBX_HISTORYPROVIDERS'' \<or> HasPrefix name ''ZBX_HISTORYPROVIDERS_'' \<or> HasPrefix name ''ZBX_HISTORYPROVIDER_'' \<or>
     name = ''ZBX_TELEMETRYPROVIDERS'' \<or> HasPrefix name ''ZBX_TELEMETRYPROVIDER_'' \<or>
     list_ex (HasPrefix name) [''DB_'', ''MYSQL_'', ''POSTGRES_'', ''ZBX_DB_'', ''ZBX_DBTLS'', ''ZBX_VAULT'']"

definition webServerEnv :: "environment \<Rightarrow> environment" where
  "webServerEnv env = filter (\<lambda>(name, _). \<not> serverSecret name) env"

text \<open>The arguments and the environment of each child, PHP first.\<close>

definition stackCommands :: "environment \<Rightarrow> ServerType \<Rightarrow> (string list \<times> string list) list" where
  "stackCommands env server =
     (let php = [ValueOrDefaultNonEmpty env ''PHP_FPM_BIN'' ''/usr/sbin/php-fpm'', ''--nodaemonize'', ''--fpm-config'',
                 ValueOrDefaultNonEmpty env ''PHP_FPM_CONFIG'' ''/etc/php-fpm.conf''];
          web = (if server = Apache
                 then [ValueOrDefaultNonEmpty env ''APACHE_BIN'' ''/usr/sbin/httpd'', ''-D'', ''FOREGROUND'']
                 else [ValueOrDefaultNonEmpty env ''NGINX_BIN'' ''/usr/sbin/nginx'', ''-e'', ''stderr'', ''-g'', ''daemon off;'', ''-c'',
                       ValueOrDefaultNonEmpty env ''NGINX_CONF_FILE'' ''/etc/nginx/nginx.conf'']) in
      [(php, env_List env), (web, env_List (webServerEnv env))])"

text \<open>What the children do to the file system is not modelled.\<close>

definition startStack :: "host \<Rightarrow> ServerType \<Rightarrow> 'w process_scheme \<Rightarrow> (outcome \<times> 'w process_scheme) option" where
  "startStack h server s =
     (let children = stackCommands (environ s) server in
      map_option (\<lambda>r. (returned r, s)) (supervise (length children) (hs_schedule h children)))"

section \<open>The entrypoint\<close>

record ('s, 'db) frontend_database =
  fd_Configure :: "string \<Rightarrow> 'db \<Rightarrow> ('s, 'db) run"
  fd_Wait :: "'db \<Rightarrow> ('s, unit) run"
  fd_Name :: "'db \<Rightarrow> string"
  fd_Schema :: "'db \<Rightarrow> string"
  fd_User :: "'db \<Rightarrow> string"
  fd_Password :: "'db \<Rightarrow> string"

definition frontend_dbName :: string where "frontend_dbName = ''zabbix''"

definition setDBEnv :: "('s, 'db) frontend_database \<Rightarrow> 'db \<Rightarrow> environment \<Rightarrow> environment" where
  "setDBEnv i db env =
     (let env = env_set env ''DB_SERVER_DBNAME'' (fd_Name i db);
          env = env_set env ''DB_SERVER_SCHEMA'' (fd_Schema i db);
          env = env_set env ''DB_SERVER_USER'' (fd_User i db)
      in env_set env ''DB_SERVER_PASS'' (fd_Password i db))"

definition clearWebEnv :: "environment \<Rightarrow> environment" where
  "clearWebEnv env =
     ClearPrivateEnv env
       ([''MYSQL_'', ''POSTGRES_''] @
        (if env_get env ''ZBX_VAULTDBPATH'' \<noteq> [] then [''DB_SERVER_USER'', ''DB_SERVER_PASS''] else []))"

definition serverDefaults :: "ServerType \<Rightarrow> environment \<Rightarrow> environment" where
  "serverDefaults server env =
     (let name = (case server of Apache \<Rightarrow> ''apache'' | Nginx \<Rightarrow> ''nginx'');
          env = SetDefaultNonEmpty env ''ZBX_SERVER_NAME'' ''Zabbix docker'';
          env = SetDefaultNonEmpty env ''DAEMON_USER'' name
      in SetDefaultNonEmpty env ''DAEMON_GROUP'' name)"

definition prepareWebServer :: "host \<Rightarrow> ServerType \<Rightarrow> ('w process_scheme, unit) eff" where
  "prepareWebServer h server =
     (case server of
        Apache \<Rightarrow> prepareApache (hs_uid h) (hs_LookupId h)
      | Nginx \<Rightarrow> (\<lambda>s. on_process_files (prepareNginx (hs_uid h) (hs_ipv6 h) (environ s)) s))"

definition web_Prepare ::
  "host \<Rightarrow> (string \<Rightarrow> string) \<Rightarrow> ('w process_scheme, 'db) frontend_database \<Rightarrow> 'db \<Rightarrow> DBType \<Rightarrow> ServerType \<Rightarrow>
   ('w process_scheme, unit) run" where
  "web_Prepare h number i db dbType server =
     bind_run (once (update_environ (serverDefaults server))) (\<lambda>_.
     bind_run (once (\<lambda>s. ChownGeneratedSecrets (hs_uid h) (hs_Lookup h) (env_get (environ s) ''DAEMON_USER'') s)) (\<lambda>_.
     bind_run (once (update_environ prepareFrontendAliases)) (\<lambda>_.
     bind_run (fd_Configure i frontend_dbName db) (\<lambda>db.
     bind_run (fd_Wait i db) (\<lambda>_.
     bind_run (once (preparePHP (hs_uid h) number dbType)) (\<lambda>_.
     bind_run (once (prepareWebServer h server)) (\<lambda>_.
     bind_run (once (update_environ (setDBEnv i db))) (\<lambda>_.
     bind_run (hooks_Run (hs_hook h)) (\<lambda>_.
     once (update_environ clearWebEnv))))))))))"

definition web_Run ::
  "host \<Rightarrow> (string \<Rightarrow> string) \<Rightarrow> ('w process_scheme, 'db) frontend_database \<Rightarrow> 'db \<Rightarrow> DBType \<Rightarrow> ServerType \<Rightarrow>
   'w entrypoint" where
  "web_Run h number i db dbType server args =
     (if args \<noteq> [] then Execute (hs_kernel h) args
      else prepared (web_Prepare h number i db dbType server) (\<lambda>_. startStack h server))"

definition web_Entrypoint ::
  "host \<Rightarrow> (string \<Rightarrow> string) \<Rightarrow> ('w process_scheme, 'db) frontend_database \<Rightarrow> (environment \<Rightarrow> 'db) \<Rightarrow> DBType \<Rightarrow>
   ServerType \<Rightarrow> 'w entrypoint" where
  "web_Entrypoint h number i newDB dbType server args s =
     web_Run h number i (newDB (environ s)) dbType server args s"

end
