(* ===== verification/Frontend.thy ===== *)
theory Frontend
  imports Web
begin

text \<open>
  What the frontend promises about the environments and the settings it hands on.  The database of a
  frontend is an interface with a contract, which the MySQL and the PostgreSQL backend are shown to
  meet; what follows about the entrypoint is proved once from the contract.
\<close>

section \<open>The two backends\<close>

definition mysql_frontend ::
  "('p, 'c, 'k, 'd) platform \<Rightarrow> (('p, 'c, 'k, 'o) mysql_config, 'h, 'd) sql_package \<Rightarrow>
   ('d machine, MySQL_DB) frontend_database" where
  "mysql_frontend pf sql =
     \<lparr>fd_Configure = mysql_Configure pf, fd_Wait = mysql_Wait pf sql, fd_Name = my_name, fd_Schema = (\<lambda>_. []),
      fd_User = my_user, fd_Password = my_password\<rparr>"

definition pg_frontend ::
  "('p, 'c, 'k, 'd) platform \<Rightarrow> ('o pgx_config, 'h, 'd) pgx_package \<Rightarrow> ('d machine, PostgreSQL_DB) frontend_database" where
  "pg_frontend pf pgx =
     \<lparr>fd_Configure = pg_Configure pf, fd_Wait = pg_Wait pf pgx, fd_Name = pg_name, fd_Schema = pg_schema,
      fd_User = pg_user, fd_Password = pg_password\<rparr>"

section \<open>Variables that stay\<close>

text \<open>A run keeps a variable when it has the same value afterwards, whatever the result.\<close>

definition keeps :: "string \<Rightarrow> ('w process_scheme, 'a) run \<Rightarrow> bool" where
  "keeps v m \<longleftrightarrow> (\<forall>s r s'. m s = Some (r, s') \<longrightarrow> env_get (environ s') v = env_get (environ s) v)"

named_theorems keeping \<open>runs that keep a variable\<close>

lemma keepsI: "(\<And>s r s'. m s = Some (r, s') \<Longrightarrow> env_get (environ s') v = env_get (environ s) v) \<Longrightarrow> keeps v m"
  by (auto simp: keeps_def)

lemma keepsD: "keeps v m \<Longrightarrow> m s = Some (r, s') \<Longrightarrow> env_get (environ s') v = env_get (environ s) v"
  by (auto simp: keeps_def)

lemma keeps_bind [keeping]: "keeps v m \<Longrightarrow> (\<And>x. keeps v (f x)) \<Longrightarrow> keeps v (bind_run m f)"
  by (fastforce simp: keeps_def bind_run_def split: option.splits prod.splits sum.splits)

lemma keeps_bind_eff [keeping]:
  assumes "keeps v (once m)" "\<And>x. keeps v (once (f x))"
  shows "keeps v (once (bind_eff m f))"
proof -
  have "once (bind_eff m f) = bind_run (once m) (\<lambda>x. once (f x))"
    by (auto simp: fun_eq_iff bind_eff_def bind_run_def split: prod.split sum.split)
  then show ?thesis using keeps_bind assms by metis
qed

lemma keeps_update [keeping]: "(\<And>env. env_get (f env) v = env_get env v) \<Longrightarrow> keeps v (once (update_environ f))"
  by (auto simp: keeps_def update_environ_def)

lemma keeps_files [keeping]: "keeps v (once (on_process_files m))" "keeps v (once (\<lambda>s. on_process_files (g s) s))"
  by (auto simp: keeps_def on_process_files_def split: prod.splits)

lemma keeps_ret [keeping]: "keeps v (once (ret x))"
  by (auto simp: keeps_def)

lemma keeps_environ [keeping]:
  "(\<And>env r env'. m env = (r, env') \<Longrightarrow> env_get env' v = env_get env v) \<Longrightarrow> keeps v (once (on_environ m))"
  by (auto simp: keeps_def on_environ_def split: prod.splits)

lemma keeps_environ_of [keeping]:
  "(\<And>fs env r env'. m fs env = (r, env') \<Longrightarrow> env_get env' v = env_get env v) \<Longrightarrow>
     keeps v (once (\<lambda>s. on_environ (m (files s)) s))"
  by (auto simp: keeps_def on_environ_def split: prod.splits)

lemma keeps_remote [keeping]: "keeps v (on_remote_run m)" "keeps v (\<lambda>s. on_remote_run (g s) s)"
    "keeps v (once (on_remote n))"
  by (auto simp: keeps_def on_remote_run_def on_remote_def split: prod.splits)

lemma hooks_Run_environ: "hooks_Run runner s = Some (r, s') \<Longrightarrow> environ s' = environ s"
  by (auto simp: hooks_Run_def on_files_run_def Let_def split: sum.splits if_splits)

lemma keeps_hooks [keeping]: "keeps v (hooks_Run runner)"
  by (auto simp: keeps_def dest: hooks_Run_environ)

lemma ChownGeneratedSecrets_same: "ChownGeneratedSecrets uid lookup name s = (r, s') \<Longrightarrow> s' = s"
  by (auto simp: ChownGeneratedSecrets_def split: if_splits)

section \<open>The contract of a frontend database\<close>

locale frontend =
  fixes i :: "('w process_scheme, 'db) frontend_database"
  assumes configure_keeps: "\<not> prefix ''DB_SERVER_'' v \<Longrightarrow> keeps v (fd_Configure i name db)"
    and wait_keeps: "keeps v (fd_Wait i db)"

lemma mysql_Configure_keeps:
  assumes "\<not> prefix ''DB_SERVER_'' v"
  shows "keeps v (mysql_Configure pf name db)"
proof -
  have v: "v \<noteq> ''DB_SERVER_PORT''" "v \<noteq> ''DB_SERVER_HOST''" using assms by auto
  have t: "keeps v (bind_run (once (on_environ (mysql_target d))) (\<lambda>db.
          bind_run (\<lambda>s. on_remote_run (ResolveDBCredentials (pf_x509 pf) (pf_clock pf) (pf_http pf) (files s) (environ s)) s) (\<lambda>creds.
          once (\<lambda>s. (mysql_credentials (environ s) name creds db, s)))))" for d
    by (intro keeping) (auto simp: mysql_target_get [OF _ v] keeps_def)
  show ?thesis
    by (rule keepsI) (auto simp: mysql_Configure_def split: sum.splits dest: keepsD [OF t])
qed

lemma pg_Configure_keeps:
  assumes "\<not> prefix ''DB_SERVER_'' v"
  shows "keeps v (pg_Configure pf name db)"
proof -
  have v: "v \<notin> {''DB_SERVER_PORT'', ''DB_SERVER_HOST'', ''DB_SERVER_SCHEMA''}" using assms by auto
  have t: "keeps v (bind_run (once (on_environ (pg_target d))) (\<lambda>db.
          bind_run (\<lambda>s. on_remote_run (ResolveDBCredentials (pf_x509 pf) (pf_clock pf) (pf_http pf) (files s) (environ s)) s) (\<lambda>creds.
          once (\<lambda>s. (Inr (pg_credentials (environ s) name creds db), s)))))" for d
    by (intro keeping) (auto simp: pg_target_get [OF _ v] keeps_def)
  show ?thesis
    by (rule keepsI) (auto simp: pg_Configure_def split: sum.splits dest: keepsD [OF t])
qed

interpretation mysql_web: frontend "mysql_frontend pf sql" for pf sql
proof unfold_locales
  show "keeps v (fd_Configure (mysql_frontend pf sql) name db)" if "\<not> prefix ''DB_SERVER_'' v" for v name db
    using mysql_Configure_keeps [OF that] by (simp add: mysql_frontend_def)
  have "keeps v (mysql_waitForConnection pf sql db u p)" for v db u p
    by (rule keepsI) (auto simp: mysql_waitForConnection_def split: sum.splits dest: keepsD [OF keeps_remote(1)])
  then show "keeps v (fd_Wait (mysql_frontend pf sql) db)" for v db
    unfolding mysql_frontend_def mysql_Wait_def by (simp add: keeping)
qed

interpretation pg_web: frontend "pg_frontend pf pgx" for pf pgx
proof unfold_locales
  show "keeps v (fd_Configure (pg_frontend pf pgx) name db)" if "\<not> prefix ''DB_SERVER_'' v" for v name db
    using pg_Configure_keeps [OF that] by (simp add: pg_frontend_def)
  show "keeps v (fd_Wait (pg_frontend pf pgx) db)" for v db
    unfolding pg_frontend_def pg_Wait_def pg_waitForConnection_def by (simp add: keeping)
qed

section \<open>What the preparation leaves alone\<close>

text \<open>The two variables that decide how much of the environment is cleared in the end.\<close>

definition settled :: "string \<Rightarrow> bool" where
  "settled v \<longleftrightarrow> v = ''ZBX_CLEAR_ENV'' \<or> v = ''ZBX_VAULTDBPATH''"

lemma credential_names_other: "v \<in> set (credential_names name) \<Longrightarrow> \<not> settled v"
  by (auto simp: credential_names_def providerSecretDefinitions_def secret_variables_def Let_def settled_def
      dest!: arg_cong [of _ "_ :: string" last])

lemma schema_name_other: "v = name @ schemaSuffix \<Longrightarrow> \<not> settled v"
  by (auto simp: schemaSuffix_def settled_def dest!: arg_cong [of _ "_ :: string" last])

lemma indexed_name_other:
  assumes "par_indexedNames p env = Inr names" "v \<in> set names"
  shows "\<not> settled v"
proof -
  have "is_digit (last v)" using indexedNames_digit [of env p names v] assms by (simp add: NewConfiguration_def)
  then show ?thesis by (auto simp: settled_def is_digit_def)
qed

lemma WebProviders_keeps:
  assumes "WebProviders p env = (r, env')" "settled v"
  shows "env_get env' v = env_get env v"
proof -
  have one: "env_get (env_delete (deleteSecrets name (env_delete e name)) (name @ schemaSuffix)) v = env_get e v"
    if "\<not> settled name" for name e
    using that assms(2) schema_name_other [of v name] credential_names_other [of v name]
    by (auto simp: env_simps deleteSecrets_env)
  have del: "env_get (fold (\<lambda>name e. env_delete (deleteSecrets name (env_delete e name)) (name @ schemaSuffix)) names e) v = env_get e v"
    if "\<forall>name \<in> set names. \<not> settled name" for names e
    using that by (induction names arbitrary: e) (simp_all add: one)
  have last: "env_get (deleteSecrets name e) v = env_get e v" for name e
    using assms(2) credential_names_other [of v] by (auto simp: deleteSecrets_env)
  have "\<not> settled name" if "par_indexedNames p env = Inr names" "name \<in> set names" for names name
    using indexed_name_other [OF that] .
  then show ?thesis
    using assms(1) by (auto simp: WebProviders_def last del split: sum.splits prod.splits)
qed

lemma keeps_history [keeping]: "settled v \<Longrightarrow> keeps v (once (on_environ (configureWebHistoryProviders number)))"
  by (rule keeps_environ)
    (auto simp: configureWebHistoryProviders_def bind_eff_def setWebProviders_def env_simps History_def settled_def
      dest: WebProviders_keeps split: prod.splits sum.splits)

lemma keeps_telemetry [keeping]:
  "settled v \<Longrightarrow> keeps v (once (\<lambda>s. on_environ (configureWebTelemetryProviders number (files s)) s))"
  by (rule keeps_environ_of)
    (auto simp: configureWebTelemetryProviders_def bind_eff_def setWebProviders_def env_simps Telemetry_def settled_def
      dest: WebProviders_keeps split: prod.splits sum.splits)

lemma keeps_defaults:
  "v \<notin> fst ` set ds \<Longrightarrow> env_get (fold (\<lambda>(name, d) env. SetDefaultNonEmpty env name d) ds env) v = env_get env v"
  by (induction ds arbitrary: env) (auto simp: env_simps)

lemma keeps_switches: "settled v \<Longrightarrow> env_get (phpSwitches env) v = env_get env v"
  by (auto simp: phpSwitches_def lowerVariable_def SetDefault_def Let_def env_simps settled_def)

lemma keeps_preparePHP [keeping]: "settled v \<Longrightarrow> keeps v (once (preparePHP uid number t))"
proof -
  assume v: "settled v"
  have "v \<notin> fst ` set phpDefaults" using v by (auto simp: settled_def phpDefaults_def)
  from keeps_defaults [OF this] v show ?thesis
    unfolding preparePHP_def
    by (intro keeping) (auto simp: keeps_switches settled_def SetDefault_def Let_def env_simps keeping)
qed

lemma keeps_webServer [keeping]: "settled v \<Longrightarrow> keeps v (once (prepareWebServer h server))"
proof (cases server)
  case Nginx
  then show ?thesis by (simp add: prepareWebServer_def keeping)
next
  case Apache
  assume v: "settled v"
  have "keeps v (once (prepareApache uid lookup))" for uid lookup
  proof (rule keepsI)
    fix s r s' assume "once (prepareApache uid lookup) s = Some (r, s')"
    with v show "env_get (environ s') v = env_get (environ s) v"
      by (auto simp: prepareApache_def update_environ_def on_process_files_def bind_eff_def Let_def settled_def
          apacheVariables_def env_simps split: prod.splits sum.splits)
  qed
  with Apache show ?thesis by (simp add: prepareWebServer_def)
qed

section \<open>The environment of the frontend\<close>

lemma ClearPrivateEnv_names:
  assumes "env_has (ClearPrivateEnv env ps) name" "ps \<noteq> []" "env_get env ''ZBX_CLEAR_ENV'' \<noteq> ''false''"
  shows "\<not> hasAnyPrefix name ps"
proof -
  have "env_has (fold (\<lambda>name e. if hasAnyPrefix name ps then env_delete e name else e) (env_names env) env) name"
    using assms by (simp add: ClearPrivateEnv_def Let_def)
  then show ?thesis by (simp add: env.has_fold_del_if) (simp add: env_has_iff)
qed

text \<open>The environment before the clearing, from the contract of the database.\<close>

context frontend
begin

lemma prepared_environment:
  assumes "web_Prepare h number i db t server s = Some (Inr (), s')"
  obtains env db' where "environ s' = clearWebEnv env"
    "env_get env ''DB_SERVER_USER'' = fd_User i db'" "env_get env ''DB_SERVER_PASS'' = fd_Password i db'"
    "\<And>v. settled v \<Longrightarrow> env_get env v = env_get (environ s) v"
proof -
  define start where "start = bind_run (once (update_environ (serverDefaults server))) (\<lambda>_.
     bind_run (once (\<lambda>s. ChownGeneratedSecrets (hs_uid h) (hs_Lookup h) (env_get (environ s) ''DAEMON_USER'') s)) (\<lambda>_.
     bind_run (once (update_environ prepareFrontendAliases)) (\<lambda>_.
     bind_run (fd_Configure i frontend_dbName db) (\<lambda>db.
     bind_run (fd_Wait i db) (\<lambda>_.
     bind_run (once (preparePHP (hs_uid h) number t)) (\<lambda>_.
     bind_run (once (prepareWebServer h server)) (\<lambda>_.
     once (ret db))))))))"
  have start: "keeps v start" if v: "settled v" for v
    unfolding start_def using v
    by (intro keeping configure_keeps wait_keeps keeps_preparePHP keeps_webServer)
      (auto simp: serverDefaults_def prepareFrontendAliases_def Let_def env_simps settled_def keeps_def
        dest: ChownGeneratedSecrets_same split: ServerType.splits)
  from assms obtain db' s1 s2 where 1: "start s = Some (Inr db', s1)"
    and 2: "hooks_Run (hs_hook h) (s1\<lparr>environ := setDBEnv i db' (environ s1)\<rparr>) = Some (Inr (), s2)"
    and 3: "environ s' = clearWebEnv (environ s2)"
    by (auto simp: web_Prepare_def start_def bind_run_Some update_environ_def)
  have e: "environ s2 = setDBEnv i db' (environ s1)" using hooks_Run_environ [OF 2] by simp
  show ?thesis
  proof (rule that [OF 3])
    show "env_get (environ s2) ''DB_SERVER_USER'' = fd_User i db'" "env_get (environ s2) ''DB_SERVER_PASS'' = fd_Password i db'"
      by (simp_all add: e setDBEnv_def Let_def env_simps)
    show "env_get (environ s2) v = env_get (environ s) v" if "settled v" for v
      using keepsD [OF start [OF that] 1] that by (auto simp: e setDBEnv_def Let_def env_simps settled_def)
  qed
qed

lemma cleared_environment:
  assumes "web_Prepare h number i db t server s = Some (Inr (), s')"
    and "env_get (environ s) ''ZBX_CLEAR_ENV'' \<noteq> ''false''" "env_has (environ s') name"
  shows "\<not> prefix ''MYSQL_'' name \<and> \<not> prefix ''POSTGRES_'' name \<and>
    (env_get (environ s) ''ZBX_VAULTDBPATH'' \<noteq> [] \<longrightarrow> \<not> prefix ''DB_SERVER_USER'' name \<and> \<not> prefix ''DB_SERVER_PASS'' name)"
proof -
  from prepared_environment [OF assms(1)] obtain env where
    env: "environ s' = clearWebEnv env" "\<And>v. settled v \<Longrightarrow> env_get env v = env_get (environ s) v" by metis
  have "env_get env ''ZBX_CLEAR_ENV'' \<noteq> ''false''" "env_get env ''ZBX_VAULTDBPATH'' = env_get (environ s) ''ZBX_VAULTDBPATH''"
    using env(2) [of "''ZBX_CLEAR_ENV''"] env(2) [of "''ZBX_VAULTDBPATH''"] assms(2) by (simp_all add: settled_def)
  then show ?thesis
    using ClearPrivateEnv_names [of env _ name] assms(3)
    by (auto simp: env(1) clearWebEnv_def hasAnyPrefix_iff)
qed

end


text \<open>The variables that hold secrets, by the beginning of their names.\<close>

definition secretPrefixes :: "string list" where
  "secretPrefixes = [''DB_'', ''MYSQL_'', ''POSTGRES_'', ''ZBX_DB_'', ''ZBX_DBTLS'', ''ZBX_VAULT'', ''VAULT_TOKEN='',
     ''ZBX_HISTORYPROVIDERS='', ''ZBX_HISTORYPROVIDERS_'', ''ZBX_HISTORYPROVIDER_'', ''ZBX_TELEMETRYPROVIDERS='',
     ''ZBX_TELEMETRYPROVIDER_'']"

lemma entry_prefix: "prefix p (name @ CHR ''='' # v) \<Longrightarrow> CHR ''='' \<notin> set p \<Longrightarrow> prefix p name"
  by (auto simp: prefix_def append_eq_append_conv2 Cons_eq_append_conv)

lemma entry_name: "prefix (p @ ''='') (name @ CHR ''='' # v) \<Longrightarrow> CHR ''='' \<notin> set p \<Longrightarrow> CHR ''='' \<notin> set name \<Longrightarrow> name = p"
proof -
  assume a: "prefix (p @ ''='') (name @ CHR ''='' # v)" "CHR ''='' \<notin> set p" "CHR ''='' \<notin> set name"
  then have "prefix p name" using entry_prefix [of p name v] by (meson append_prefixD)
  then obtain us where us: "name = p @ us" by (auto simp: prefix_def)
  with a show ?thesis by (cases us) (auto simp: prefix_def)
qed

lemma webServerEnv_has:
  "env_has (webServerEnv env) name \<Longrightarrow> env_has env name \<and> \<not> serverSecret name"
  by (force simp: env_has_iff env_names_def webServerEnv_def)

lemma webServerEnv_get: "\<not> serverSecret name \<Longrightarrow> env_get (webServerEnv env) name = env_get env name"
proof -
  assume s: "\<not> serverSecret name"
  have "map_of (webServerEnv env) name = map_of env name"
    unfolding webServerEnv_def by (induction env) (use s in auto)
  then show ?thesis by (simp add: env_get_def)
qed



section \<open>The providers for PHP\<close>

text \<open>C17: the providers that PHP reads are the configured ones: the text parses back to the list of
  their fields, in key order, and it contains no apostrophe, so that it stays one value inside single
  quotes.  The numbers are written as JSON numbers.\<close>

theorem setWebProviders_roundtrip:
  assumes "\<forall>fds \<in> set providers. literal_numbers (go_map number fds) \<and> json_depth (go_map number fds) < max_depth"
  shows "json_document (env_get (setWebProviders number name providers env) name) =
      Some (JArray (map (\<lambda>fds. valid_json (go_map number fds)) providers)) \<and>
    CHR 0x27 \<notin> set (env_get (setWebProviders number name providers env) name) \<and>
    (\<forall>v. v \<noteq> name \<longrightarrow> env_get (setWebProviders number name providers env) v = env_get env v)"
proof -
  let ?v = "JArray (map (go_map number) providers)"
  have lit: "literal_numbers ?v" using assms by (simp add: list_all_iff)
  have "foldr (\<lambda>v d. max (json_depth v) d) (map (go_map number) ps) 0 < max_depth"
    if "\<forall>fds \<in> set ps. json_depth (go_map number fds) < max_depth" for ps
    using that by (induction ps) (auto simp: max_depth_def)
  with assms have depth: "json_depth ?v \<le> max_depth" by (simp add: Suc_le_eq)
  have text_is: "env_get (setWebProviders number name providers env) name = escape_apostrophes (marshal_json ?v)"
    by (simp add: setWebProviders_def env_simps)
  have written: "env_get (setWebProviders number name providers env) name = marshal_with escaped_string ?v"
    by (rule text_is [THEN trans]) (rule escape_apostrophes_json [OF lit])
  have quoted: "CHR 0x27 \<notin> set (env_get (setWebProviders number name providers env) name)"
    unfolding text_is ReplaceAll_char by (auto split: if_splits)
  have "json_document (env_get (setWebProviders number name providers env) name) = Some (valid_json ?v)"
    unfolding written by (rule apostrophe.written_roundtrip [OF lit depth])
  moreover have "valid_json ?v = JArray (map (\<lambda>fds. valid_json (go_map number fds)) providers)" by (simp add: o_def)
  ultimately show ?thesis using quoted by (simp add: setWebProviders_def env_simps)
qed

lemma setWebProviders_roundtrip_witness:
  "json_document (env_get (setWebProviders id ''P'' [[(''url'', Plain (JString (''a'' @ [CHR 0x27] @ ''b'')))]] []) ''P'') =
     Some (JArray [JObject [(''url'', JString (''a'' @ [CHR 0x27] @ ''b''))]])"
proof -
  let ?ps = "[[(''url'', Plain (JString (''a'' @ [CHR 0x27] @ ''b'')))]]"
  have "\<forall>fds \<in> set ?ps. literal_numbers (go_map id fds) \<and> json_depth (go_map id fds) < max_depth" by code_simp
  from setWebProviders_roundtrip [OF this, of "''P''" "[]"]
  have "json_document (env_get (setWebProviders id ''P'' ?ps []) ''P'') = Some (JArray (map (\<lambda>fds. valid_json (go_map id fds)) ?ps))"
    by blast
  moreover have "map (\<lambda>fds. valid_json (go_map id fds)) ?ps = [JObject [(''url'', JString (''a'' @ [CHR 0x27] @ ''b''))]]"
    by code_simp
  ultimately show ?thesis by simp
qed

section \<open>A sample frontend\<close>

definition sample_host :: host where
  "sample_host =
     \<lparr>hs_kernel = sample_kernel, hs_uid = 1000, hs_LookupId = (\<lambda>_. Inr ''zabbix''),
      hs_Lookup = (\<lambda>_. Inr \<lparr>Uid = ''1000'', Gid = ''1000''\<rparr>),
      hs_resolver = \<lparr>os_Hostname = Inr ''host'', LookupCNAME = (\<lambda>_. Inr ''host.''), LookupHost = (\<lambda>_. Inr []),
        LookupAddr = (\<lambda>_. Inr [])\<rparr>,
      hs_hook = (\<lambda>_ _ fs. Some (Inr (), fs)), hs_rehash = (\<lambda>_ fs. (Inr (), fs)), hs_ipv6 = False,
      hs_schedule = (\<lambda>_. sample_schedule)\<rparr>"

definition sample_web :: "nat machine" where
  "sample_web =
     \<lparr>environ = sample_settings @ [(''MYSQL_DATABASE'', ''zabbix''), (''ZABBIX_CONF_DIR'', ''/c''), (''PATH'', ''/bin''),
        (''APACHE_SITES_DIR'', ''/c''), (''APACHE_RUN_DIR'', ''/c''), (''WEB_REAL_IP_FROM'', ''all''), (''WEB_REAL_IP_HEADER'', ''X'')],
      files = \<lparr>nodes = [([''c''], Directory 493)],
        workdir = [], denied = (\<lambda>_ _. None), tokens = []\<rparr>,
      remote = 0\<rparr>"

text \<open>The machine after each part of the preparation.\<close>

definition sample_frontend :: "(nat machine, MySQL_DB) frontend_database" where
  "sample_frontend = mysql_frontend (sample_platform (sample_answer ''alice'')) sample_sql"

definition sample_web1 :: "nat machine" where
  "sample_web1 = sample_web\<lparr>environ := prepareFrontendAliases (serverDefaults Apache (environ sample_web))\<rparr>"

definition sample_database :: MySQL_DB where
  "sample_database = mysql_newDB sample_settings ResolveFrontendDBTLS"

definition sample_web2 :: "MySQL_DB \<times> nat machine" where
  "sample_web2 =
     (case fd_Configure sample_frontend ''zabbix'' sample_database sample_web1 of
        Some (Inr db, s) \<Rightarrow> (db, s) | _ \<Rightarrow> (sample_database, sample_web1))"

definition sample_web3 :: "nat machine" where
  "sample_web3 =
     (case fd_Wait sample_frontend (fst sample_web2) (snd sample_web2) of Some (_, s) \<Rightarrow> s | None \<Rightarrow> sample_web)"

definition sample_env0 :: environment where
  "sample_env0 =
     environ sample_web @
     [(''ZBX_SERVER_NAME'', ''Zabbix docker''), (''DAEMON_USER'', ''apache''), (''DAEMON_GROUP'', ''apache''),
      (''ZBX_DB_VERIFY_HOST'', ''true''), (''ZBX_DBTLSCIPHER'', []), (''DB_SERVER_PORT'', ''3306''),
      (''DB_SERVER_HOST'', ''mysql-server'')]"

definition sample_env1 :: environment where
  "sample_env1 = fold (\<lambda>(name, v) env. SetDefaultNonEmpty env name v) phpDefaults sample_env0"

definition sample_env2 :: environment where
  "sample_env2 = snd (configureWebHistoryProviders id sample_env1)"

definition sample_env3 :: environment where
  "sample_env3 = snd (configureWebTelemetryProviders id (files sample_web) sample_env2)"

definition sample_web4 :: "nat machine" where
  "sample_web4 = sample_web3\<lparr>environ := SetDefault (env_set (phpSwitches sample_env3) ''DB_SERVER_TYPE'' ''MYSQL'') ''DB_SERVER_SOCKET'' []\<rparr>"

definition sample_env4 :: environment where
  "sample_env4 = env_set (env_set (environ sample_web4) ''APACHE_RUN_USER''
     (apacheRunUser 1000 (env_get (environ sample_web4) ''DAEMON_USER'') (hs_LookupId sample_host)))
     ''APACHE_RUN_GROUP'' (env_get (environ sample_web4) ''DAEMON_GROUP'')"

definition sample_web5 :: "nat machine" where
  "sample_web5 = sample_web4\<lparr>environ := apacheVariables sample_env4,
     files := snd (os_MkdirAll ''/c'' 493 (snd (apacheHosts sample_env4 ''/c'' (files sample_web4))))\<rparr>"

definition sample_web6 :: "nat machine" where
  "sample_web6 = sample_web5\<lparr>environ := setDBEnv sample_frontend (fst sample_web2) (environ sample_web5)\<rparr>"

definition sample_web7 :: "nat machine" where
  "sample_web7 = sample_web6\<lparr>environ := clearWebEnv (environ sample_web6)\<rparr>"

lemma succeeded_cases:
  "map_option (\<lambda>(r, _). case r of Inl _ \<Rightarrow> False | Inr _ \<Rightarrow> True) m = Some True \<Longrightarrow> \<exists>x s. m = Some (Inr x, s)"
  by (force split: sum.split_asm prod.split_asm)

lemma sample_Configure:
  "fd_Configure sample_frontend ''zabbix'' sample_database sample_web1 = Some (Inr (fst sample_web2), snd sample_web2)"
proof -
  have "map_option (\<lambda>(r, _). case r of Inl _ \<Rightarrow> False | Inr _ \<Rightarrow> True)
      (fd_Configure sample_frontend ''zabbix'' sample_database sample_web1) = Some True" by code_simp
  from succeeded_cases [OF this] show ?thesis by (auto simp: sample_web2_def)
qed

lemma sample_Wait: "fd_Wait sample_frontend (fst sample_web2) (snd sample_web2) = Some (Inr (), sample_web3)"
proof -
  have "map_option fst (fd_Wait sample_frontend (fst sample_web2) (snd sample_web2)) = Some (Inr ())" by code_simp
  then show ?thesis by (auto simp: sample_web3_def)
qed

lemma mysql_Configure_files: "mysql_Configure pf n db s = Some (r, s') \<Longrightarrow> files s' = files s"
  by (auto simp: mysql_Configure_def bind_run_def on_environ_def on_remote_run_def once_def
      split: sum.splits option.splits prod.splits)

lemma mysql_Wait_files: "mysql_Wait pf sql db s = Some (r, s') \<Longrightarrow> files s' = files s"
  by (auto simp: mysql_Wait_def mysql_waitForConnection_def bind_run_def on_remote_def on_remote_run_def once_def
      split: sum.splits option.splits prod.splits)

lemma sample_connected: "environ sample_web3 = sample_env0" "files sample_web3 = files sample_web"
proof -
  show "environ sample_web3 = sample_env0" by code_simp
  have "files (snd sample_web2) = files sample_web1"
    using mysql_Configure_files sample_Configure by (fastforce simp: sample_frontend_def mysql_frontend_def)
  moreover have "files sample_web3 = files (snd sample_web2)"
    using mysql_Wait_files sample_Wait by (fastforce simp: sample_frontend_def mysql_frontend_def)
  ultimately show "files sample_web3 = files sample_web" by (simp add: sample_web1_def)
qed

lemma sample_PHP: "preparePHP 1000 id MySQLType sample_web3 = (Inr (), sample_web4)"
proof -
  have "fst (configureWebHistoryProviders id sample_env1) = Inr ()" by code_simp
  then have 1: "configureWebHistoryProviders id sample_env1 = (Inr (), sample_env2)"
    unfolding sample_env2_def by (metis prod.collapse)
  have "fst (configureWebTelemetryProviders id (files sample_web) sample_env2) = Inr ()" by code_simp
  then have 2: "configureWebTelemetryProviders id (files sample_web) sample_env2 = (Inr (), sample_env3)"
    unfolding sample_env3_def by (metis prod.collapse)
  show ?thesis
    by (simp add: preparePHP_def bind_eff_def update_environ_def on_environ_def sample_connected 1 2 sample_env1_def [symmetric]
        sample_web4_def DBType_string_def)
qed

definition sample_names :: "string list" where
  "sample_names = [''ZABBIX_CONF_DIR'', ''APACHE_SSL_CONFIG_DIR'', ''APACHE_SITES_DIR'', ''APACHE_RUN_DIR'',
     ''WEB_REAL_IP_FROM'', ''WEB_REAL_IP_HEADER'']"

definition switched_names :: "string list" where
  "switched_names = [''ZBX_SERVER_PORT'', ''EXPOSE_WEB_SERVER_INFO'', ''ZBX_DENY_GUI_ACCESS'', ''ZBX_DB_ENCRYPTION'',
     ''ZBX_DB_VERIFY_HOST'', ''ZBX_DB_DOUBLE_IEEE754'', ''DB_SERVER_TYPE'', ''DB_SERVER_SOCKET'', ''APACHE_RUN_USER'',
     ''APACHE_RUN_GROUP'']"

lemma sample_reads_from:
  assumes "v \<notin> set switched_names"
  shows "env_get sample_env4 v = env_get sample_env3 v"
proof -
  have "env_get (phpSwitches env) v = env_get env v" for env
    using assms by (auto simp: phpSwitches_def lowerVariable_def SetDefault_def Let_def env_simps switched_names_def)
  moreover have "env_get sample_env4 v = env_get (phpSwitches sample_env3) v"
    using assms by (auto simp: sample_env4_def sample_web4_def SetDefault_def env_simps switched_names_def)
  ultimately show ?thesis by simp
qed

lemma sample_reads_all: "map (env_get sample_env4) sample_names = [''/c'', [], ''/c'', ''/c'', ''all'', ''X'']"
proof -
  have "map (env_get sample_env4) sample_names = map (env_get sample_env3) sample_names"
    using sample_reads_from by (simp add: sample_names_def switched_names_def)
  also have "\<dots> = [''/c'', [], ''/c'', ''/c'', ''all'', ''X'']" by code_simp
  finally show ?thesis .
qed

lemma sample_reads:
  "env_get sample_env4 ''ZABBIX_CONF_DIR'' = ''/c''" "env_get sample_env4 ''APACHE_SSL_CONFIG_DIR'' = []"
  "env_get sample_env4 ''APACHE_SITES_DIR'' = ''/c''" "env_get sample_env4 ''APACHE_RUN_DIR'' = ''/c''"
  "env_get sample_env4 ''WEB_REAL_IP_FROM'' = ''all''" "env_get sample_env4 ''WEB_REAL_IP_HEADER'' = ''X''"
  using sample_reads_all by (simp_all only: sample_names_def list.map list.inject)

lemma sample_variables: "env_get (apacheVariables sample_env4) v = env_get sample_env4 v"
  if "v \<in> {''ZABBIX_CONF_DIR'', ''APACHE_RUN_DIR'', ''WEB_REAL_IP_FROM'', ''WEB_REAL_IP_HEADER''}"
  using that by (auto simp: apacheVariables_def Let_def env_simps)

lemma sample_hosts: "apacheHosts sample_env4 = apacheHosts [(''ZABBIX_CONF_DIR'', ''/c'')]"
proof (intro ext)
  have "env_get [(''ZABBIX_CONF_DIR'', ''/c'')] ''ZABBIX_CONF_DIR'' = ''/c''"
    "env_get [(''ZABBIX_CONF_DIR'', ''/c'')] ''APACHE_SSL_CONFIG_DIR'' = []" by code_simp+
  then show "apacheHosts sample_env4 dir fs = apacheHosts [(''ZABBIX_CONF_DIR'', ''/c'')] dir fs" for dir fs
    by (simp add: apacheHosts_def ValueOrDefaultNonEmpty_def sample_reads Let_def)
qed

lemma sample_Apache: "prepareWebServer sample_host Apache sample_web4 = (Inr (), sample_web5)"
proof -
  define fs where "fs = snd (apacheHosts [(''ZABBIX_CONF_DIR'', ''/c'')] ''/c'' (files sample_web))"
  have same: "files sample_web4 = files sample_web" by (simp add: sample_web4_def sample_connected)
  have "fst (apacheHosts [(''ZABBIX_CONF_DIR'', ''/c'')] ''/c'' (files sample_web)) = Inr ()" by code_simp
  then have 1: "apacheHosts sample_env4 ''/c'' (files sample_web4) = (Inr (), fs)"
    unfolding fs_def sample_hosts same by (metis prod.collapse)
  have "fst (os_MkdirAll ''/c'' 493 fs) = Inr ()" unfolding fs_def by code_simp
  then have 2: "os_MkdirAll ''/c'' 493 fs = (Inr (), files sample_web5)"
    by (simp add: sample_web5_def 1) (metis prod.collapse)
  have 4: "hs_uid sample_host = 1000" by (simp add: sample_host_def)
  have 5: "sample_web4\<lparr>environ := apacheVariables sample_env4, files := files sample_web5\<rparr> = sample_web5"
    by (simp add: sample_web5_def)
  have 6: "env_set (env_set (environ sample_web4) ''APACHE_RUN_USER''
     (apacheRunUser 1000 (env_get (environ sample_web4) ''DAEMON_USER'') (hs_LookupId sample_host)))
     ''APACHE_RUN_GROUP'' (env_get (env_set (environ sample_web4) ''APACHE_RUN_USER''
     (apacheRunUser 1000 (env_get (environ sample_web4) ''DAEMON_USER'') (hs_LookupId sample_host))) ''DAEMON_GROUP'') = sample_env4"
    by (simp add: sample_env4_def env_simps)
  show ?thesis
    unfolding prepareWebServer_def prepareApache_def bind_eff_def update_environ_def on_process_files_def Let_def 4
    by (simp add: 6 apacheRealIP_def ValueOrDefaultNonEmpty_def sample_variables sample_reads 1 2 5)
qed

lemma sample_hooks: "hooks_Run (hs_hook sample_host) sample_web6 = Some (Inr (), sample_web6)"
proof -
  define fs where "fs = snd (os_MkdirAll ''/c'' 493 (snd (apacheHosts [(''ZABBIX_CONF_DIR'', ''/c'')] ''/c'' (files sample_web))))"
  have fs: "files sample_web6 = fs"
    by (simp add: sample_web6_def sample_web5_def sample_web4_def sample_hosts sample_connected fs_def)
  have c: "env_get (environ sample_web6) ''ZABBIX_CONF_DIR'' = ''/c''"
    by (simp add: sample_web6_def sample_web5_def setDBEnv_def Let_def env_simps sample_variables sample_reads)
  have d: "env_get [(''ZABBIX_CONF_DIR'', ''/c'')] ''ZABBIX_CONF_DIR'' = ''/c''" by code_simp
  have 0: "RequiredConfigDir fs' (environ sample_web6) = RequiredConfigDir fs' [(''ZABBIX_CONF_DIR'', ''/c'')]" for fs'
    unfolding RequiredConfigDir_def requiredDir_def c d ..
  have 1: "RequiredConfigDir fs [(''ZABBIX_CONF_DIR'', ''/c'')] = Inr ''/c''" unfolding fs_def by code_simp
  have 2: "os_ReadDir fs (path_Join [''/c'', hookDirectory]) = Inl ErrNotExist" unfolding fs_def by code_simp
  show ?thesis by (simp add: hooks_Run_def 0 1 2 fs Let_def)
qed


end
