(* ===== verification/Services.thy ===== *)
theory Services
  imports Web Sqlite Parameters Secrets
begin

text \<open>
  The preparation of the services: Zabbix server (\<open>internal/server\<close>), proxy (\<open>internal/proxy\<close>), agent,
  agent 2, MCP server, web service and bridge adapter (\<open>cmd/*/main.go\<close>), Java gateway
  (\<open>internal/javagateway\<close>) and SNMP traps (\<open>internal/snmptraps\<close>).  Logging is not modelled.
\<close>

section \<open>Steps of a preparation\<close>

definition files_env :: "(environment \<Rightarrow> (filesystem, 'a) eff) \<Rightarrow> ('w process_scheme, 'a) run" where
  "files_env m s = once (on_process_files (m (environ s))) s"

definition change_env :: "(environment \<Rightarrow> environment) \<Rightarrow> ('w process_scheme, unit) run" where
  "change_env f = once (update_environ f)"

definition query_process :: "(filesystem \<Rightarrow> environment \<Rightarrow> 'a result) \<Rightarrow> ('w process_scheme, 'a) run" where
  "query_process q = once (query_eff (\<lambda>s. q (files s) (environ s)))"

definition ConfigureRunUser :: "host \<Rightarrow> environment \<Rightarrow> environment" where
  "ConfigureRunUser h = configureRunUser (hs_uid h) (hs_LookupId h)"

section \<open>Server\<close>

definition snmpTraps :: "environment \<Rightarrow> environment" where
  "snmpTraps env =
     env_delete
       (if EqualFold (env_get env ''ZBX_ENABLE_SNMP_TRAPS'') ''true'' then env_set env ''ZBX_STARTSNMPTRAPPER'' ''1'' else env)
       ''ZBX_ENABLE_SNMP_TRAPS''"

definition configureJSONHistoryProviders ::
  "('p, 'c, 'k, 'd, 'z) storage_platform \<Rightarrow> ('d machine, unit) run" where
  "configureJSONHistoryProviders pf s =
     (if TrimSpace (env_get (environ s) (par_Plural History)) \<noteq> []
      then Some (Inl (Errorf ''%s is not supported by the server; use %s''
                  [par_Plural History, IndexedName (par_Prefix History) 0]), s)
      else ConfigureHistory pf s)"

definition autoHostname :: "resolver \<Rightarrow> string \<Rightarrow> string result" where
  "autoHostname net mode =
     (if mode \<noteq> ''fqdn'' \<and> mode \<noteq> ''hostname'' then Inr [] else Hostname net (mode = ''fqdn''))"

definition fillNode ::
  "resolver \<Rightarrow> string \<Rightarrow> string \<Rightarrow> (environment \<Rightarrow> string \<Rightarrow> string) \<Rightarrow> (environment, unit) eff" where
  "fillNode net name auto address env =
     (if env_get env name \<noteq> [] then (Inr (), env_delete env auto)
      else
        (case autoHostname net (env_get env auto) of
           Inl e \<Rightarrow> (Inl e, env)
         | Inr hostname \<Rightarrow>
             (Inr (), env_delete (if hostname \<noteq> [] then env_set env name (address env hostname) else env) auto)))"

definition configureHANode :: "resolver \<Rightarrow> (environment, unit) eff" where
  "configureHANode net =
     bind_eff (fillNode net ''ZBX_HANODENAME'' ''ZBX_AUTOHANODENAME'' (\<lambda>_ hostname. hostname)) (\<lambda>_.
     fillNode net ''ZBX_NODEADDRESS'' ''ZBX_AUTONODEADDRESS''
       (\<lambda>env hostname. hostname @ '':'' @ ValueOrDefaultNonEmpty env ''ZBX_NODEADDRESSPORT'' ''10051''))"

text \<open>The last steps of server and proxy.\<close>

definition finishService :: "host \<Rightarrow> ('w process_scheme, unit) run" where
  "finishService h =
     bind_run (change_env (ConfigureRunUser h)) (\<lambda>_.
     bind_run (hooks_Run (hs_hook h)) (\<lambda>_.
     bind_run (once (on_environ SetVaultTLSFileNames)) (\<lambda>_.
     change_env (\<lambda>env. ClearPrivateEnv env []))))"

definition server_Prepare ::
  "host \<Rightarrow> ('p, 'c, 'k, 'd, 'z) storage_platform \<Rightarrow> ('d machine, unit) run" where
  "server_Prepare h pf =
     bind_run (change_env (\<lambda>env. snmpTraps
         (if env_get env ''ZBX_EXPORTFILESIZE'' = [] then env_delete env ''ZBX_EXPORTDIR'' else env))) (\<lambda>_.
     bind_run (query_process CommonDirs) (\<lambda>(_, configDir).
     bind_run (files_env (\<lambda>env. MergeParameterValues (path_Join [configDir, ''zabbix_server_modules.conf'']) ''LoadModule''
         (env_get env ''ZBX_LOADMODULE''))) (\<lambda>_.
     bind_run (configureJSONHistoryProviders pf) (\<lambda>_.
     bind_run (ConfigureTelemetry pf) (\<lambda>_.
     bind_run (files_env (\<lambda>env. UpdateIndexedParameter env (path_Join [configDir, ''zabbix_server_history_storage.conf''])
         ''HistoryProvider'' ''ZBX_HISTORYPROVIDER'')) (\<lambda>_.
     bind_run (files_env (\<lambda>env. UpdateIndexedParameter env (path_Join [configDir, ''zabbix_server_telemetry.conf''])
         ''TelemetryProvider'' ''ZBX_TELEMETRYPROVIDER'')) (\<lambda>_.
     bind_run (once (on_environ (configureHANode (hs_resolver h)))) (\<lambda>_.
     finishService h))))))))"

section \<open>Proxy\<close>

definition proxyHostname :: "string \<Rightarrow> environment \<Rightarrow> environment" where
  "proxyHostname defaultHostname env =
     env_set env ''ZBX_HOSTNAME''
       (if env_get env ''ZBX_HOSTNAME'' \<noteq> [] \<or> env_get env ''ZBX_HOSTNAMEITEM'' = []
        then ValueOrDefaultNonEmpty env ''ZBX_HOSTNAME'' defaultHostname else [])"

definition proxy_Prepare ::
  "host \<Rightarrow> ('p, 'c, 'k, 'd, 'z) storage_platform \<Rightarrow> string \<Rightarrow> ('d machine, unit) run" where
  "proxy_Prepare h pf defaultHostname =
     bind_run (change_env (\<lambda>env. snmpTraps (proxyHostname defaultHostname
         (SetDefaultNonEmpty env ''ZBX_SERVER_HOST'' ''zabbix-server'')))) (\<lambda>_.
     bind_run (query_process CommonDirs) (\<lambda>(_, configDir).
     bind_run (files_env (\<lambda>env. MergeParameterValues (path_Join [configDir, ''zabbix_proxy_modules.conf'']) ''LoadModule''
         (env_get env ''ZBX_LOADMODULE''))) (\<lambda>_.
     bind_run (ConfigureTelemetry pf) (\<lambda>_.
     bind_run (files_env (\<lambda>env. UpdateIndexedParameter env (path_Join [configDir, ''zabbix_proxy_telemetry.conf''])
         ''TelemetryProvider'' ''ZBX_TELEMETRYPROVIDER'')) (\<lambda>_.
     finishService h)))))"

section \<open>Agents\<close>

definition agentBinary :: string where "agentBinary = ''/usr/sbin/zabbix_agentd''"

definition agent_configurePerformanceCounters :: "environment \<Rightarrow> string \<Rightarrow> (filesystem, unit) eff" where
  "agent_configurePerformanceCounters env configDir = ret ()"

definition configureLoadModules :: "string \<Rightarrow> environment \<Rightarrow> (filesystem, unit) eff" where
  "configureLoadModules configDir env =
     MergeParameterValues (path_Join [configDir, ''zabbix_agentd_modules.conf'']) ''LoadModule'' (env_get env ''ZBX_LOADMODULE'')"

definition agent_prepareService :: "host \<Rightarrow> ('w process_scheme, unit) run" where
  "agent_prepareService h =
     bind_run (query_process CommonDirs) (\<lambda>(_, configDir).
     bind_run (change_env ConfigureServers) (\<lambda>_.
     bind_run (files_env (\<lambda>env. ConfigureItemKeyRules env configDir ''zabbix_agentd_item_keys.conf'')) (\<lambda>_.
     bind_run (files_env (\<lambda>env. UpdateIndexedParameter env (path_Join [configDir, ''zabbix_agentd_aliases.conf'']) ''Alias'' ''ZBX_ALIAS'')) (\<lambda>_.
     bind_run (files_env (\<lambda>env. UpdateIndexedParameter env (path_Join [configDir, ''zabbix_agentd_user_parameters.conf''])
         ''UserParameter'' ''ZBX_USERPARAMETER'')) (\<lambda>_.
     bind_run (files_env (\<lambda>env. agent_configurePerformanceCounters env configDir)) (\<lambda>_.
     bind_run (files_env (configureLoadModules configDir)) (\<lambda>_.
     bind_run (change_env (ConfigureRunUser h)) (\<lambda>_.
     bind_run (hooks_Run (hs_hook h)) (\<lambda>_.
     change_env config_ClearPrivateEnv)))))))))"

definition agent2Binary :: string where "agent2Binary = ''/usr/sbin/zabbix_agent2''"
definition nvidiaCommand :: string where "nvidiaCommand = ''nvidia-smi''"
definition pluginExecSuffix :: string where "pluginExecSuffix = []"

definition pluginBinDir :: "string \<Rightarrow> string" where
  "pluginBinDir homeDir = ''/usr/sbin/zabbix-agent2-plugin''"

definition agent2_configurePerformanceCounters :: "environment \<Rightarrow> string \<Rightarrow> (filesystem, unit) eff" where
  "agent2_configurePerformanceCounters env configDir = ret ()"

definition configureFeatureSwitches :: "environment \<Rightarrow> environment" where
  "configureFeatureSwitches env =
     (let env = (if env_get env ''ZBX_ENABLEPERSISTENTBUFFER'' = ''true''
                 then env_set env ''ZBX_ENABLEPERSISTENTBUFFER'' ''1''
                 else env_delete (env_delete env ''ZBX_ENABLEPERSISTENTBUFFER'') ''ZBX_PERSISTENTBUFFERFILE'') in
      if env_get env ''ZBX_ENABLESTATUSPORT'' = ''true'' then SetDefaultNonEmpty env ''ZBX_STATUSPORT'' ''31999''
      else env_delete env ''ZBX_STATUSPORT'')"

text \<open>A plugin: its configuration file, the parameter in it and the name of the program.\<close>

definition pluginConfigs :: "kernel \<Rightarrow> (string \<times> string \<times> string) list" where
  "pluginConfigs k =
     [(''mongodb.conf'', ''Plugins.MongoDB.System.Path'', ''mongodb''),
      (''postgresql.conf'', ''Plugins.PostgreSQL.System.Path'', ''postgresql''),
      (''mssql.conf'', ''Plugins.MSSQL.System.Path'', ''mssql''),
      (''ember.conf'', ''Plugins.EmberPlus.System.Path'', ''ember-plus'')] @
     (case LookPath k nvidiaCommand of
        Inl _ \<Rightarrow> [] | Inr _ \<Rightarrow> [(''nvidia.conf'', ''Plugins.NVIDIA.System.Path'', ''nvidia-gpu'')])"

definition updatePluginConfig :: "kernel \<Rightarrow> string \<Rightarrow> string \<Rightarrow> (filesystem, unit) eff" where
  "updatePluginConfig k homeDir configDir =
     for_eff (pluginConfigs k) (\<lambda>(plugin, param, program).
       SetParameter (path_Join [path_Join [configDir, ''zabbix_agent2.d'', ''plugins.d''], plugin]) param
         (path_Join [pluginBinDir homeDir, program @ pluginExecSuffix]))"

definition agent2_prepareService :: "host \<Rightarrow> ('w process_scheme, unit) run" where
  "agent2_prepareService h =
     bind_run (query_process CommonDirs) (\<lambda>(homeDir, configDir).
     bind_run (change_env (\<lambda>env. configureFeatureSwitches (ConfigureServers env))) (\<lambda>_.
     bind_run (files_env (\<lambda>env. ConfigureItemKeyRules env configDir ''zabbix_agent2_item_keys.conf'')) (\<lambda>_.
     bind_run (files_env (\<lambda>env. UpdateIndexedParameter env (path_Join [configDir, ''zabbix_agent2_aliases.conf'']) ''Alias'' ''ZBX_ALIAS'')) (\<lambda>_.
     bind_run (files_env (\<lambda>env. UpdateIndexedParameter env (path_Join [configDir, ''zabbix_agent2_user_parameters.conf''])
         ''UserParameter'' ''ZBX_USERPARAMETER'')) (\<lambda>_.
     bind_run (files_env (\<lambda>env. agent2_configurePerformanceCounters env configDir)) (\<lambda>_.
     bind_run (files_env (\<lambda>_. updatePluginConfig (hs_kernel h) homeDir configDir)) (\<lambda>_.
     bind_run (hooks_Run (hs_hook h)) (\<lambda>_.
     change_env config_ClearPrivateEnv))))))))"

end
