(* ===== verification/Programs.thy ===== *)
theory Programs
  imports Services HttpApi
begin

text \<open>
  The programs with an entrypoint of their own: MCP server, web service and bridge adapter
  (\<open>cmd/*/main.go\<close>), Java gateway (\<open>internal/javagateway\<close>), SNMP traps (\<open>internal/snmptraps\<close>), and the
  health check that the images of HTTP services run (\<open>cmd/http-healthcheck/main.go\<close>).  Logging is not
  modelled.
\<close>

section \<open>MCP server and web service\<close>

definition mcpServerBinary :: string where "mcpServerBinary = ''/usr/sbin/zabbix_mcp_server''"

definition mcp_prepareService :: "string \<Rightarrow> ('w process_scheme, unit) run" where
  "mcp_prepareService runtimeRulePath =
     bind_run (query_process CommonDirs) (\<lambda>(_, configDir).
     bind_run (change_env (\<lambda>env. SetDefaultNonEmpty env ''ZBX_ALLOWEDIP'' ''127.0.0.1,::1'')) (\<lambda>_.
     bind_run (files_env (\<lambda>env. ConfigureToolAccessRules env
         (path_Join [configDir, ''zabbix_mcp_server_tool_access.conf'']) runtimeRulePath)) (\<lambda>_.
     change_env (\<lambda>env. ClearPrivateEnv env []))))"

definition webServiceBinary :: string where "webServiceBinary = ''/usr/sbin/zabbix_web_service''"

definition webservice_prepareService :: "('w process_scheme, unit) run" where
  "webservice_prepareService =
     change_env (\<lambda>env. ClearPrivateEnv (SetDefaultNonEmpty env ''ZBX_ALLOWEDIP'' ''zabbix-server'') [])"

section \<open>Bridge adapter\<close>

definition bridgeAdapterBinary :: string where "bridgeAdapterBinary = ''/usr/sbin/zabbix_bridge_adapter''"
definition allowedMethodsConfigFile :: string where
  "allowedMethodsConfigFile = ''zabbix_bridge_adapter_allowed_methods.conf''"
definition acceptLicenseCommand :: string where "acceptLicenseCommand = ''accept-license''"
definition runtimeAllowedMethodsConfigPath :: string where
  "runtimeAllowedMethodsConfigPath = ''/tmp/'' @ allowedMethodsConfigFile"

definition prepareLicenseAcceptance :: "environment \<Rightarrow> string list result" where
  "prepareLicenseAcceptance env =
     (let version = TrimSpace (env_get env ''ZBX_EULAVERSION'') in
      if version = []
      then Inl (Errorf ''accept-license: set ZBX_EULAVERSION to the reviewed bundled EULA version; no license has been accepted'' [])
      else Inr [bridgeAdapterBinary, ''-c'',
             path_Join [ValueOrDefaultNonEmpty env ''ZABBIX_CONF_DIR'' ''/etc/zabbix'', ''zabbix_bridge_adapter.conf''],
             ''license'', ''accept'', ''--non-interactive'', ''--version'', version])"

definition copyAllowedMethods :: "string \<Rightarrow> (filesystem, unit) eff" where
  "copyAllowedMethods configDir fs =
     (let templatePath = path_Join [configDir, allowedMethodsConfigFile] in
      case os_ReadFile fs templatePath of
        Inl e \<Rightarrow> (Inl (Wrapf ''read security configuration template %s: %w'' [templatePath] e), fs)
      | Inr data \<Rightarrow>
          wrap_eff ''write runtime allowed methods configuration %s: %w'' [runtimeAllowedMethodsConfigPath]
            (os_WriteFile runtimeAllowedMethodsConfigPath data 384) fs)"

definition bridge_prepareService :: "('w process_scheme, unit) run" where
  "bridge_prepareService =
     bind_run (query_process (\<lambda>_ env. CollectIndexed env [''ZBX_ALLOWEDAPIMETHODS''] False)) (\<lambda>variables.
     bind_run
       (if variables = [] then once (ret ())
        else
          bind_run (query_process RequiredConfigDir) (\<lambda>configDir.
          bind_run (once (on_process_files (copyAllowedMethods configDir))) (\<lambda>_.
          files_env (\<lambda>env. UpdateIndexedParameter env runtimeAllowedMethodsConfigPath ''AllowedAPIMethods''
            ''ZBX_ALLOWEDAPIMETHODS'')))) (\<lambda>_.
     change_env (\<lambda>env. ClearPrivateEnv env [])))"

definition bridge_prepareCommand :: "string list \<Rightarrow> ('w process_scheme, string list) run" where
  "bridge_prepareCommand args =
     (if args \<noteq> [] \<and> hd args = acceptLicenseCommand
      then (if tl args \<noteq> []
            then once (raise (Errorf ''usage: accept-license (set ZBX_EULAVERSION in the environment)'' []))
            else
              bind_run (query_process (\<lambda>_. prepareLicenseAcceptance)) (\<lambda>command.
              bind_run (change_env (\<lambda>env. ClearPrivateEnv env [])) (\<lambda>_.
              once (ret command))))
      else
        (case ServiceArgs args bridgeAdapterBinary of
           (serviceArgs, starts) \<Rightarrow>
             if \<not> starts then once (ret args)
             else bind_run bridge_prepareService (\<lambda>_. once (ret (bridgeAdapterBinary # serviceArgs)))))"

definition bridge_entrypoint :: "kernel \<Rightarrow> 'w entrypoint" where
  "bridge_entrypoint k args = prepared (bridge_prepareCommand args) (Execute k)"

section \<open>Java gateway\<close>

definition os_Chdir :: "string \<Rightarrow> (filesystem, unit) eff" where
  "os_Chdir path fs =
     (case must_exist fs OpChdir (resolve fs path True) of
        Inl e \<Rightarrow> (Inl e, fs)
      | Inr (p, n) \<Rightarrow> if IsDir n then (Inr (), fs\<lparr>workdir := p\<rparr>) else (Inl ENOTDIR, fs))"

definition serviceCommand :: string where "serviceCommand = ''java-gateway''"
definition javaDir :: string where "javaDir = ''/usr/sbin/zabbix_java''"
definition javaClasspath :: string where "javaClasspath = ''lib/*:bin/*:ext_lib/*''"
definition javaMainClass :: string where "javaMainClass = ''com.zabbix.gateway.JavaGateway''"
definition logConfigName :: string where "logConfigName = ''zabbix_java_gateway_logback.xml''"

definition javaOptions :: "environment \<Rightarrow> environment" where
  "javaOptions env =
     (let extraOpts = env_get env ''ZBX_JAVA_OPTS''; opts = env_get env ''JDK_JAVA_OPTIONS'' in
      if extraOpts = [] then env
      else env_set env ''JDK_JAVA_OPTIONS'' (if opts \<noteq> [] then opts @ '' '' @ extraOpts else extraOpts))"

definition java_setting :: "environment \<Rightarrow> string \<times> string \<Rightarrow> string list" where
  "java_setting env = (\<lambda>(name, property).
     if env_get env name \<noteq> [] then [''-Dzabbix.'' @ property @ ''='' @ env_get env name] else [])"

definition java_command :: "environment \<Rightarrow> string \<Rightarrow> string list \<Rightarrow> string list" where
  "java_command env logConfig extraArgs =
     [ValueOrDefaultNonEmpty env ''JAVA'' ''/usr/bin/java'', ''-server'', ''-Dlogback.configurationFile='' @ logConfig] @
     extraArgs @ [''-classpath'', javaClasspath] @
     [''-Dsun.rmi.transport.tcp.responseTimeout='' @ env_get env ''ZBX_TIMEOUT'' @ ''000'',
      ''-Dzabbix.listenPort='' @ ValueOrDefaultNonEmpty env ''ZBX_LISTEN_PORT'' ''10052'',
      ''-Dzabbix.timeout='' @ env_get env ''ZBX_TIMEOUT''] @
     concat (map (java_setting env)
       [(''ZBX_LISTEN_IP'', ''listenIP''), (''ZBX_SERVER'', ''server''), (''ZBX_START_POLLERS'', ''startPollers''),
        (''ZBX_PROPERTIES_FILE'', ''propertiesFile'')]) @
     [javaMainClass]"

definition java_buildCommand :: "string \<Rightarrow> string list \<Rightarrow> (environment, string list) eff" where
  "java_buildCommand logConfig extraArgs env =
     (let env = javaOptions env in (Inr (java_command env logConfig extraArgs), env))"

definition java_prepare :: "string list \<Rightarrow> ('w process_scheme, string list) run" where
  "java_prepare extraArgs =
     bind_run (query_process RequiredConfigDir) (\<lambda>configDir.
     bind_run (change_env (\<lambda>env.
         SetDefaultNonEmpty (SetDefaultNonEmpty env ''ZBX_TIMEOUT'' ''3'') ''ZBX_DEBUGLEVEL'' ''info'')) (\<lambda>_.
     bind_run (query_process (\<lambda>fs _.
         if bootstrap_RegularFile fs (path_Join [configDir, logConfigName]) then Inr ()
         else Inl (Errorf ''missing configuration file %s'' [path_Join [configDir, logConfigName]]))) (\<lambda>_.
     bind_run (once (on_environ (ResolveFileEnv ''ZBX_PROPERTIES_FILE'' javaDir))) (\<lambda>_.
     bind_run (once (on_process_files (wrap_eff ''change Java Gateway directory to %s: %w'' [javaDir] (os_Chdir javaDir)))) (\<lambda>_.
     bind_run (once (on_environ (java_buildCommand (path_Join [configDir, logConfigName]) extraArgs))) (\<lambda>command.
     bind_run (change_env (\<lambda>env. ClearPrivateEnv env [])) (\<lambda>_.
     once (ret command))))))))"

definition java_Run :: "kernel \<Rightarrow> 'w entrypoint" where
  "java_Run k args =
     (case ServiceArgs args serviceCommand of
        (extraArgs, starts) \<Rightarrow>
          if \<not> starts then Execute k args else prepared (java_prepare extraArgs) (Execute k))"

section \<open>SNMP traps\<close>

definition snmptrapdBinary :: string where "snmptrapdBinary = ''/usr/sbin/snmptrapd''"
definition mainConfigFile :: string where "mainConfigFile = ''/etc/snmp/snmptrapd.conf''"
definition defaultOutputOptions :: string where "defaultOutputOptions = ''STte''"

definition snmp_configFiles :: "filesystem \<Rightarrow> environment \<Rightarrow> string list" where
  "snmp_configFiles fs env =
     (let persistentDir = env_get env ''SNMP_PERSISTENT_DIR'' in
      mainConfigFile #
      (if persistentDir = [] then []
       else filter (bootstrap_RegularFile fs)
              (map (\<lambda>name. path_Join [persistentDir, name]) [''snmptrapd.conf'', ''snmptrapd_custom.conf''])))"

definition snmp_buildCommand :: "filesystem \<Rightarrow> environment \<Rightarrow> string list \<Rightarrow> string list" where
  "snmp_buildCommand fs env extraArgs =
     [snmptrapdBinary, ''-f'', ''-a'', ''-C'', ''-c'', Join (snmp_configFiles fs env) '','', ''-t'', ''-X'', ''-Lo'',
      ''--hexOutputLength=0'', ''-O'' @ env_get env ''SNMPTRAP_OUTPUT_OPTIONS''] @
     (if env_get env ''ZBX_SNMP_TRAP_USE_DNS'' \<noteq> ''true'' then [''-n''] else []) @
     (if env_get env ''DEBUG_MODE'' = ''true'' then [''-DALL''] else []) @
     extraArgs @ [''udp:1162'', ''udp6:1162'']"

definition snmp_Run :: "kernel \<Rightarrow> 'w entrypoint" where
  "snmp_Run k args =
     (case ServiceArgs args snmptrapdBinary of
        (extraArgs, starts) \<Rightarrow>
          if \<not> starts then Execute k args
          else
            prepared (change_env (\<lambda>env. SetDefaultNonEmpty env ''SNMPTRAP_OUTPUT_OPTIONS'' defaultOutputOptions))
              (\<lambda>_ s. Execute k (snmp_buildCommand (files s) (environ s) extraArgs) s))"

section \<open>Health check\<close>

text \<open>The answer to a request: its status code and text, its body and the error of closing it.\<close>

record health_response =
  hr_StatusCode :: int
  hr_Status :: string
  hr_body :: "string result"
  hr_closed :: "error option"

text \<open>\<open>url.Parse\<close>, as the path of the URL, and the client.\<close>

record 'd health_client =
  hc_Path :: "string \<Rightarrow> string result"
  hc_Get :: "string \<Rightarrow> ('d, health_response) eff"

definition healthcheckURL :: "string list \<Rightarrow> (string \<Rightarrow> string) \<Rightarrow> string result" where
  "healthcheckURL args getenv =
     (if length args = 1 \<and> hd args \<noteq> ''/ready'' then Inr (hd args)
      else if 1 < length args then Inl (Errorf ''usage: http-healthcheck [/ready|url]'' [])
      else
        (let port = TrimSpace (getenv ''ZBX_LISTENHEALTHPORT''); port = (if port = [] then ''8081'' else port);
             invalid = Inl (Errorf ''invalid ZBX_LISTENHEALTHPORT %q: expected a port between 1 and 65535'' [port]) in
         case Atoi port of
           None \<Rightarrow> invalid
         | Some portNumber \<Rightarrow>
             if portNumber < 1 \<or> 65535 < portNumber then invalid
             else Inr (''http://127.0.0.1:'' @ Itoa portNumber @ (if length args = 1 then hd args else ''/health''))))"

definition decode_bool :: "(bool \<Rightarrow> 'r \<Rightarrow> 'r) \<Rightarrow> json \<Rightarrow> 'r \<Rightarrow> 'r result" where
  "decode_bool upd v r = (case v of JNull \<Rightarrow> Inr r | JBool b \<Rightarrow> Inr (upd b r) | _ \<Rightarrow> Inl TypeMismatch)"

definition readiness :: "string \<Rightarrow> unit result" where
  "readiness body =
     (case unmarshal_into [(''ready'', decode_bool (\<lambda>b _. b))] body False of
        Inl e \<Rightarrow> Inl (Wrapf ''invalid readiness response: %w'' [] e)
      | Inr ready \<Rightarrow> if ready then Inr () else Inl (Errorf ''Bridge Adapter is not ready'' []))"

definition health_answer :: "string \<Rightarrow> health_response \<Rightarrow> unit result" where
  "health_answer path response =
     (case hr_body response of
        Inl e \<Rightarrow> Inl e
      | Inr body \<Rightarrow>
          (case hr_closed response of
             Some e \<Rightarrow> Inl e
           | None \<Rightarrow>
               if hr_StatusCode response < 200 \<or> 300 \<le> hr_StatusCode response
               then Inl (Errorf ''unexpected HTTP status: %s'' [hr_Status response])
               else if path = ''/ready'' then readiness body
               else Inr ()))"

definition checkHealth :: "'d health_client \<Rightarrow> string \<Rightarrow> ('d, unit) eff" where
  "checkHealth client targetURL =
     bind_eff (query_eff (\<lambda>_. hc_Path client targetURL)) (\<lambda>path.
     bind_eff (hc_Get client targetURL) (\<lambda>response.
     query_eff (\<lambda>_. health_answer path response)))"

text \<open>The exit status of the health check.\<close>

definition healthcheck_main :: "'d health_client \<Rightarrow> string list \<Rightarrow> (string \<Rightarrow> string) \<Rightarrow> 'd \<Rightarrow> int \<times> 'd" where
  "healthcheck_main client args getenv d =
     (case healthcheckURL args getenv of
        Inl _ \<Rightarrow> (2, d)
      | Inr url \<Rightarrow> (case checkHealth client url d of (Inl _, d') \<Rightarrow> (1, d') | (Inr _, d') \<Rightarrow> (0, d')))"

end
