(* ===== verification/Images.thy ===== *)
theory Images
  imports Programs Frontend
begin

text \<open>
  The images: what each \<open>cmd/*/main.go\<close> hands to \<open>bootstrap.Main\<close>, composed from the preparation of
  the service, its initialisation commands and the resolution of its secrets, and what holds of all
  of them.  The packages of the databases, of HTTP and of SQLite and the machine are arguments.
\<close>

text \<open>An entrypoint of a container that talks to services.\<close>

type_synonym 'd main = "string list \<Rightarrow> 'd machine \<Rightarrow> (outcome \<times> 'd machine) option"

section \<open>Services without a database\<close>

definition agent_main :: "host \<Rightarrow> 'w entrypoint" where
  "agent_main h =
     WithResolvedSecrets (hs_rehash h) SecretsAgent agentBinary
       (Service (hs_kernel h) agentBinary (agent_prepareService h))"

definition agent2_main :: "host \<Rightarrow> 'w entrypoint" where
  "agent2_main h =
     WithResolvedSecrets (hs_rehash h) SecretsAgent2 agent2Binary
       (Service (hs_kernel h) agent2Binary (agent2_prepareService h))"

definition mcp_main :: "host \<Rightarrow> 'w entrypoint" where
  "mcp_main h =
     WithResolvedSecrets (hs_rehash h) SecretsMCPServer mcpServerBinary
       (Service (hs_kernel h) mcpServerBinary (mcp_prepareService ''/tmp/zabbix_mcp_server_tool_access.conf''))"

definition webservice_main :: "host \<Rightarrow> 'w entrypoint" where
  "webservice_main h =
     WithResolvedSecrets (hs_rehash h) SecretsWebService webServiceBinary
       (Service (hs_kernel h) webServiceBinary webservice_prepareService)"

definition bridge_main :: "host \<Rightarrow> 'w entrypoint" where
  "bridge_main h =
     WithResolvedSecrets (hs_rehash h) SecretsBridge bridgeAdapterBinary (bridge_entrypoint (hs_kernel h))"

definition java_main :: "host \<Rightarrow> 'w entrypoint" where
  "java_main h = java_Run (hs_kernel h)"

definition snmptraps_main :: "host \<Rightarrow> 'w entrypoint" where
  "snmptraps_main h = snmp_Run (hs_kernel h)"

section \<open>Server\<close>

definition serverBinary :: string where "serverBinary = ''/usr/sbin/zabbix_server''"

definition server_mysql_prepareDB ::
  "('p, 'c, 'k, 'd, 'z) storage_platform \<Rightarrow> (('p, 'c, 'k, 'o) mysql_config, 'h, 'd) sql_package \<Rightarrow> MySQL_DB \<Rightarrow>
   ('d machine, MySQL_DB) run" where
  "server_mysql_prepareDB pf sql db =
     bind_run (mysql_Configure (platform.truncate pf) ''zabbix'' db) (\<lambda>db.
     bind_run (mysql_Prepare (platform.truncate pf) sql db ''/usr/share/doc/zabbix-server-mysql/mysql/create.sql.gz'') (\<lambda>_.
     once (ret db)))"

definition server_mysql_prepareService ::
  "host \<Rightarrow> ('p, 'c, 'k, 'd, 'z) storage_platform \<Rightarrow> (('p, 'c, 'k, 'o) mysql_config, 'h, 'd) sql_package \<Rightarrow>
   MySQL_DB \<Rightarrow> ('d machine, unit) run" where
  "server_mysql_prepareService h pf sql db =
     bind_run (server_mysql_prepareDB pf sql db) (\<lambda>db.
     bind_run (change_env (mysql_ExportEnv db)) (\<lambda>_.
     server_Prepare h pf))"

definition server_mysql_main ::
  "host \<Rightarrow> ('p, 'c, 'k, 'd, 'z) storage_platform \<Rightarrow> (('p, 'c, 'k, 'o) mysql_config, 'h, 'd) sql_package \<Rightarrow>
   'd main" where
  "server_mysql_main h pf sql =
     (let entry = DBService (hs_kernel h) serverBinary
            (\<lambda>s. server_mysql_prepareService h pf sql (mysql_NewForBackend (environ s)) s)
            (the (WithInitDBSecrets (hs_rehash h) SecretsServerMySQL (Some
              (\<lambda>s. bind_run (server_mysql_prepareDB pf sql (mysql_NewForBackend (environ s))) (\<lambda>_. once (ret ())) s))));
          entry = StorageInitEntrypoint entry
            (WithHistoryInitSecrets (hs_rehash h) SecretsServerMySQL (Some (PrepareHistory pf)))
            (WithTelemetryInitSecrets (hs_rehash h) SecretsServerMySQL (Some (PrepareTelemetry pf)))
      in WithResolvedSecrets (hs_rehash h) SecretsServerMySQL serverBinary entry)"

definition server_pgsql_prepareDB ::
  "('p, 'c, 'k, 'd, 'z) storage_platform \<Rightarrow> ('o pgx_config, 'h, 'd) pgx_package \<Rightarrow> PostgreSQL_DB \<Rightarrow>
   ('d machine, PostgreSQL_DB) run" where
  "server_pgsql_prepareDB pf pgx db =
     bind_run (pg_Configure (platform.truncate pf) ''zabbix'' db) (\<lambda>db.
     bind_run (pg_Prepare (platform.truncate pf) pgx db
         ''/usr/share/doc/zabbix-server-postgresql/postgresql/create.sql.gz''
         ''/usr/share/doc/zabbix-server-postgresql/postgresql/timescaledb.sql'') (\<lambda>_.
     once (ret db)))"

definition server_pgsql_prepareService ::
  "host \<Rightarrow> ('p, 'c, 'k, 'd, 'z) storage_platform \<Rightarrow> ('o pgx_config, 'h, 'd) pgx_package \<Rightarrow> PostgreSQL_DB \<Rightarrow>
   ('d machine, unit) run" where
  "server_pgsql_prepareService h pf pgx db =
     bind_run (server_pgsql_prepareDB pf pgx db) (\<lambda>db.
     bind_run (change_env (pg_ExportEnv db)) (\<lambda>_.
     server_Prepare h pf))"

definition server_pgsql_main ::
  "host \<Rightarrow> ('p, 'c, 'k, 'd, 'z) storage_platform \<Rightarrow> ('o pgx_config, 'h, 'd) pgx_package \<Rightarrow> 'd main" where
  "server_pgsql_main h pf pgx =
     (let entry = DBService (hs_kernel h) serverBinary
            (server_pgsql_prepareService h pf pgx pg_NewForBackend)
            (the (WithInitDBSecrets (hs_rehash h) SecretsServerPgSQL (Some
              (bind_run (server_pgsql_prepareDB pf pgx pg_NewForBackend) (\<lambda>_. once (ret ()))))));
          entry = StorageInitEntrypoint entry
            (WithHistoryInitSecrets (hs_rehash h) SecretsServerPgSQL (Some (PrepareHistory pf)))
            (WithTelemetryInitSecrets (hs_rehash h) SecretsServerPgSQL (Some (PrepareTelemetry pf)))
      in WithResolvedSecrets (hs_rehash h) SecretsServerPgSQL serverBinary entry)"

section \<open>Proxy\<close>

definition proxyBinary :: string where "proxyBinary = ''/usr/sbin/zabbix_proxy''"

definition proxy_mysql_prepareDB ::
  "('p, 'c, 'k, 'd, 'z) storage_platform \<Rightarrow> (('p, 'c, 'k, 'o) mysql_config, 'h, 'd) sql_package \<Rightarrow> MySQL_DB \<Rightarrow>
   ('d machine, MySQL_DB) run" where
  "proxy_mysql_prepareDB pf sql db =
     bind_run (mysql_Configure (platform.truncate pf) ''zabbix_proxy'' db) (\<lambda>db.
     bind_run (mysql_Prepare (platform.truncate pf) sql db ''/usr/share/doc/zabbix-proxy-mysql/create.sql.gz'') (\<lambda>_.
     once (ret db)))"

definition proxy_mysql_prepareService ::
  "host \<Rightarrow> ('p, 'c, 'k, 'd, 'z) storage_platform \<Rightarrow> (('p, 'c, 'k, 'o) mysql_config, 'h, 'd) sql_package \<Rightarrow>
   MySQL_DB \<Rightarrow> ('d machine, unit) run" where
  "proxy_mysql_prepareService h pf sql db =
     bind_run (proxy_mysql_prepareDB pf sql db) (\<lambda>db.
     bind_run (change_env (mysql_ExportEnv db)) (\<lambda>_.
     proxy_Prepare h pf ''zabbix-proxy-mysql''))"

definition proxy_mysql_main ::
  "host \<Rightarrow> ('p, 'c, 'k, 'd, 'z) storage_platform \<Rightarrow> (('p, 'c, 'k, 'o) mysql_config, 'h, 'd) sql_package \<Rightarrow>
   'd main" where
  "proxy_mysql_main h pf sql =
     (let entry = DBService (hs_kernel h) proxyBinary
            (\<lambda>s. proxy_mysql_prepareService h pf sql (mysql_NewForBackend (environ s)) s)
            (the (WithInitDBSecrets (hs_rehash h) SecretsProxyMySQL (Some
              (\<lambda>s. bind_run (proxy_mysql_prepareDB pf sql (mysql_NewForBackend (environ s))) (\<lambda>_. once (ret ())) s))));
          entry = StorageInitEntrypoint entry None
            (WithTelemetryInitSecrets (hs_rehash h) SecretsProxyMySQL (Some (PrepareTelemetry pf)))
      in WithResolvedSecrets (hs_rehash h) SecretsProxyMySQL proxyBinary entry)"

definition sqlite_schemaPath :: string where
  "sqlite_schemaPath = ''/usr/share/doc/zabbix-proxy-sqlite3/create.sql.gz''"

definition sqlite_proxyName :: "resolver \<Rightarrow> environment \<Rightarrow> string result" where
  "sqlite_proxyName net env =
     (if EqualFold (env_get env ''ZBX_USE_NODE_NAME_AS_DB_NAME'') ''true'' then os_Hostname net
      else Inr (ValueOrDefaultNonEmpty env ''ZBX_HOSTNAME'' ''zabbix-proxy-sqlite3''))"

definition proxy_sqlite3_prepareService ::
  "host \<Rightarrow> ('p, 'c, 'k, 'd, 'z) storage_platform \<Rightarrow> ('h, 't, 'd) sqlite_package \<Rightarrow> ('d machine, unit) run" where
  "proxy_sqlite3_prepareService h pf sq =
     bind_run (query_process RequiredHomeDir) (\<lambda>homeDir.
     bind_run (query_process (\<lambda>_. sqlite_proxyName (hs_resolver h))) (\<lambda>proxyName.
     bind_run (change_env (\<lambda>env. env_set (env_delete env ''ZBX_USE_NODE_NAME_AS_DB_NAME'') ''ZBX_DB_NAME''
         (path_Join [homeDir, ''db_data'', proxyName @ ''.sqlite'']))) (\<lambda>_.
     bind_run (once (\<lambda>s. sqlite_Prepare (pf_gunzip pf) sq (env_get (environ s) ''ZBX_DB_NAME'') sqlite_schemaPath s)) (\<lambda>_.
     proxy_Prepare h pf ''zabbix-proxy-sqlite3''))))"

definition proxy_sqlite3_main ::
  "host \<Rightarrow> ('p, 'c, 'k, 'd, 'z) storage_platform \<Rightarrow> ('h, 't, 'd) sqlite_package \<Rightarrow> 'd main" where
  "proxy_sqlite3_main h pf sq =
     (let entry = Service (hs_kernel h) proxyBinary (proxy_sqlite3_prepareService h pf sq);
          entry = StorageInitEntrypoint entry None
            (WithTelemetryInitSecrets (hs_rehash h) SecretsProxySQLite (Some (PrepareTelemetry pf)))
      in WithResolvedSecrets (hs_rehash h) SecretsProxySQLite proxyBinary entry)"

section \<open>Frontends\<close>

definition web_mysql_main ::
  "host \<Rightarrow> ServerType \<Rightarrow> ('p, 'c, 'k, 'd, 'z) storage_platform \<Rightarrow>
   (('p, 'c, 'k, 'o) mysql_config, 'h, 'd) sql_package \<Rightarrow> 'd main" where
  "web_mysql_main h server pf sql =
     WithResolvedSecrets (hs_rehash h) SecretsWebMySQL []
       (web_Entrypoint h (st_json_float pf) (mysql_frontend (platform.truncate pf) sql) mysql_NewForFrontend MySQLType server)"

definition web_pgsql_main ::
  "host \<Rightarrow> ServerType \<Rightarrow> ('p, 'c, 'k, 'd, 'z) storage_platform \<Rightarrow> ('o pgx_config, 'h, 'd) pgx_package \<Rightarrow>
   'd main" where
  "web_pgsql_main h server pf pgx =
     WithResolvedSecrets (hs_rehash h) SecretsWebPgSQL []
       (web_Entrypoint h (st_json_float pf) (pg_frontend (platform.truncate pf) pgx) (\<lambda>_. pg_NewForFrontend)
          PostgreSQLType server)"

definition web_apache_mysql_main where "web_apache_mysql_main h = web_mysql_main h Apache"
definition web_nginx_mysql_main where "web_nginx_mysql_main h = web_mysql_main h Nginx"
definition web_apache_pgsql_main where "web_apache_pgsql_main h = web_pgsql_main h Apache"
definition web_nginx_pgsql_main where "web_nginx_pgsql_main h = web_pgsql_main h Nginx"

section \<open>All images\<close>

text \<open>An image: when its command line means the service, its own commands, the prefixes of the variables
  that are hidden from the service, and its entrypoint.  The agents clear only the variables that
  begin with \<open>ZABBIX_\<close>, and the SNMP trap image clears nothing.\<close>

record 'd image =
  im_starts :: "string list \<Rightarrow> bool"
  im_commands :: "string list"
  im_private :: "string list"
  im_main :: "'d main"

definition default_prefixes :: "string list" where
  "default_prefixes = [''ZABBIX_'', ''DB_'', ''MYSQL_'', ''POSTGRES_'']"

definition service_image :: "string \<Rightarrow> string list \<Rightarrow> string list \<Rightarrow> 'd main \<Rightarrow> 'd image" where
  "service_image binary commands ps main =
     \<lparr>im_starts = (\<lambda>args. startsService args binary), im_commands = commands, im_private = ps, im_main = main\<rparr>"

definition web_image :: "'d main \<Rightarrow> 'd image" where
  "web_image main = \<lparr>im_starts = (\<lambda>args. args = []), im_commands = [], im_private = default_prefixes, im_main = main\<rparr>"

definition images ::
  "host \<Rightarrow> ('p, 'c, 'k, 'd, 'z) storage_platform \<Rightarrow> (('p, 'c, 'k, 'o) mysql_config, 'h, 'd) sql_package \<Rightarrow>
   ('o2 pgx_config, 'h2, 'd) pgx_package \<Rightarrow> ('h3, 't, 'd) sqlite_package \<Rightarrow> 'd image list" where
  "images h pf sql pgx sq =
     (let hist = initHistoryProvidersCommand; tel = initTelemetryCommand; db = initDBCommand in
      [service_image agentBinary [] [''ZABBIX_''] (agent_main h),
       service_image agent2Binary [] [''ZABBIX_''] (agent2_main h),
       service_image mcpServerBinary [] default_prefixes (mcp_main h),
       service_image webServiceBinary [] default_prefixes (webservice_main h),
       service_image bridgeAdapterBinary [acceptLicenseCommand] default_prefixes (bridge_main h),
       service_image serviceCommand [] default_prefixes (java_main h),
       service_image snmptrapdBinary [] [] (snmptraps_main h),
       service_image serverBinary [db, hist, tel] default_prefixes (server_mysql_main h pf sql),
       service_image serverBinary [db, hist, tel] default_prefixes (server_pgsql_main h pf pgx),
       service_image proxyBinary [db, hist, tel] default_prefixes (proxy_mysql_main h pf sql),
       service_image proxyBinary [hist, tel] default_prefixes (proxy_sqlite3_main h pf sq),
       web_image (web_apache_mysql_main h pf sql), web_image (web_nginx_mysql_main h pf sql),
       web_image (web_apache_pgsql_main h pf pgx), web_image (web_nginx_pgsql_main h pf pgx)])"

lemmas image_defs = images_def service_image_def web_image_def agent_main_def agent2_main_def mcp_main_def
  webservice_main_def bridge_main_def java_main_def snmptraps_main_def server_mysql_main_def server_pgsql_main_def
  proxy_mysql_main_def proxy_sqlite3_main_def web_apache_mysql_main_def web_nginx_mysql_main_def
  web_apache_pgsql_main_def web_nginx_pgsql_main_def web_mysql_main_def web_pgsql_main_def

lemma starts_iff: "snd (ServiceArgs args binary) \<longleftrightarrow> startsService args binary"
  by (auto simp: ServiceArgs_def startsService_def split: list.split)

named_theorems custom \<open>commands that are not the service's\<close>

lemma WithResolvedSecrets_custom [custom]:
  "binary \<noteq> [] \<Longrightarrow> \<not> startsService args binary \<Longrightarrow> WithResolvedSecrets rehash c binary entry args s = entry args s"
  by (simp add: WithResolvedSecrets_def starts_iff)

lemma Service_custom [custom]: "\<not> startsService args binary \<Longrightarrow> Service k binary m args s = Execute k args s"
  using resolveCommand_custom [of args binary] by (simp add: Service_def)

lemma DBService_custom [custom]:
  "\<not> startsService args binary \<Longrightarrow> hd args \<noteq> initDBCommand \<Longrightarrow> DBService k binary m i args s = Execute k args s"
  using resolveCommand_custom [of args binary] by (simp add: DBService_def)

lemma StorageInitEntrypoint_custom [custom]:
  "args \<noteq> [] \<Longrightarrow> hd args \<noteq> initHistoryProvidersCommand \<Longrightarrow> hd args \<noteq> initTelemetryCommand \<Longrightarrow>
     StorageInitEntrypoint entry i t args s = entry args s"
  by (cases args) (simp_all add: StorageInitEntrypoint_def)

lemma bridge_custom [custom]:
  "\<not> startsService args bridgeAdapterBinary \<Longrightarrow> hd args \<noteq> acceptLicenseCommand \<Longrightarrow>
     bridge_entrypoint k args s = Execute k args s"
  using starts_iff [of args bridgeAdapterBinary]
  by (auto simp: bridge_entrypoint_def bridge_prepareCommand_def prepared_def once_def ret_def split: prod.split)

lemma java_custom [custom]: "\<not> startsService args serviceCommand \<Longrightarrow> java_Run k args s = Execute k args s"
  using starts_iff [of args serviceCommand] by (auto simp: java_Run_def split: prod.split)

lemma snmp_custom [custom]: "\<not> startsService args snmptrapdBinary \<Longrightarrow> snmp_Run k args s = Execute k args s"
  using starts_iff [of args snmptrapdBinary] by (auto simp: snmp_Run_def split: prod.split)

lemma web_custom [custom]:
  "args \<noteq> [] \<Longrightarrow> WithResolvedSecrets rehash c [] (web_Entrypoint h number i new t server) args s = Execute (hs_kernel h) args s"
  by (simp add: WithResolvedSecrets_def web_Entrypoint_def web_Run_def)

lemma starts_nonempty: "\<not> startsService args binary \<Longrightarrow> args \<noteq> []"
  by (auto simp: startsService_def)

lemmas binary_defs = agentBinary_def agent2Binary_def mcpServerBinary_def webServiceBinary_def bridgeAdapterBinary_def
  serverBinary_def proxyBinary_def

lemma binaries_nonempty [simp]: "agentBinary \<noteq> []" "agent2Binary \<noteq> []" "mcpServerBinary \<noteq> []" "webServiceBinary \<noteq> []"
  "bridgeAdapterBinary \<noteq> []" "serverBinary \<noteq> []" "proxyBinary \<noteq> []"
  by (simp_all add: binary_defs)

text \<open>C3: no image prepares anything for a command that is not its own: unless the command line means the
  service or one of the initialisation commands of the image, the command is executed as it was given,
  in the environment and on the files that the container was started with; no secret is resolved, no
  database is reached and no hook is run.\<close>

theorem image_custom:
  assumes "im \<in> set (images h pf sql pgx sq)" "\<not> im_starts im args" "hd args \<notin> set (im_commands im)"
  shows "im_main im args s = Execute (hs_kernel h) args s"
  using assms by (auto simp: image_defs Let_def custom starts_nonempty)

text \<open>The images on a machine without a network and without SQLite.\<close>

definition sample_offline :: "((unit, unit, unit) api_client, nat) api" where
  "sample_offline = \<lparr>api_request_error = (\<lambda>_ _. None), api_send = (\<lambda>_ _. raise (SysError ''offline''))\<rparr>"

definition sample_no_sqlite :: "(unit, unit, nat) sqlite_package" where
  "sample_no_sqlite =
     (let e = SysError ''no driver'' in
      \<lparr>sq_Open = (\<lambda>_. raise e), sq_Close = (\<lambda>_. raise e), sq_Ping = (\<lambda>_. raise e), sq_Exec = (\<lambda>_ _. raise e),
       sq_QueryInt = (\<lambda>_ _. raise e), sq_Begin = (\<lambda>_. raise e), tx_Exec = (\<lambda>_ _. raise e),
       tx_QueryInt = (\<lambda>_ _. raise e), tx_Commit = (\<lambda>_. raise e), tx_Rollback = (\<lambda>_. raise e)\<rparr>)"

definition sample_images :: "nat image list" where
  "sample_images = images sample_host (sample_storage sample_offline Inr) sample_sql sample_pgx sample_no_sqlite"

lemma sample_images_service: "service_image webServiceBinary [] default_prefixes (webservice_main sample_host) \<in> set sample_images"
  by (simp add: sample_images_def images_def Let_def)

lemma image_custom_witness:
  "webservice_main sample_host [''sh''] (sample_machine sample_settings) =
     Execute sample_kernel [''sh''] (sample_machine sample_settings)"
  using image_custom [OF sample_images_service [unfolded sample_images_def], of "[''sh'']"]
  by (simp add: service_image_def startsService_def webServiceBinary_def HasPrefix_def sample_host_def)

section \<open>The environment of a service\<close>

definition cleared :: "string list \<Rightarrow> environment \<Rightarrow> bool" where
  "cleared ps env \<longleftrightarrow> env_get env ''ZBX_CLEAR_ENV'' = ''false'' \<or> (\<forall>name. env_has env name \<longrightarrow> \<not> hasAnyPrefix name ps)"

definition clears :: "string list \<Rightarrow> ('w process_scheme, 'a) run \<Rightarrow> bool" where
  "clears ps m \<longleftrightarrow> (\<forall>s x s'. m s = Some (Inr x, s') \<longrightarrow> cleared ps (environ s'))"

named_theorems clearing \<open>runs that end with a cleared environment\<close>

lemma clears_bind [clearing]: "(\<And>x. clears ps (f x)) \<Longrightarrow> clears ps (bind_run m f)"
  by (auto simp: clears_def bind_run_Some)

lemma clears_bind_ret: "clears ps m \<Longrightarrow> clears ps (bind_run m (\<lambda>x. once (ret (g x))))"
  by (auto simp: clears_def bind_run_Some once_def ret_def)

lemma cleared_private:
  "cleared (if given = [] then default_prefixes else given) (ClearPrivateEnv env given)"
proof (cases "env_get env ''ZBX_CLEAR_ENV'' = ''false''")
  case True
  then show ?thesis by (simp add: cleared_def ClearPrivateEnv_def)
next
  case False
  let ?ps = "if given = [] then default_prefixes else given"
  have "ClearPrivateEnv env given = fold (\<lambda>name e. if hasAnyPrefix name ?ps then env_delete e name else e) (env_names env) env"
    using False by (simp add: ClearPrivateEnv_def Let_def default_prefixes_def)
  then have "\<not> hasAnyPrefix name ?ps" if "env_has (ClearPrivateEnv env given) name" for name
    using that by (simp only: env.has_fold_del_if) (auto simp: env_has_iff)
  then show ?thesis by (simp add: cleared_def)
qed

lemma clears_private [clearing]: "clears default_prefixes (change_env (\<lambda>env. ClearPrivateEnv (g env) []))"
  using cleared_private [of "[]"] by (auto simp: clears_def change_env_def once_def update_environ_def)

lemma clears_config [clearing]: "clears [''ZABBIX_''] (change_env config_ClearPrivateEnv)"
  using cleared_private [of "[''ZABBIX_'']"]
  by (auto simp: clears_def change_env_def once_def update_environ_def config_ClearPrivateEnv_def)

lemma clears_nothing: "clears [] m"
  by (simp add: clears_def cleared_def)

lemma clears_case [clearing]: "(\<And>a b. clears ps (f a b)) \<Longrightarrow> clears ps (case p of (a, b) \<Rightarrow> f a b)"
  by (simp split: prod.split)

lemma clears_finish [clearing]: "clears default_prefixes (finishService h)"
  unfolding finishService_def by (intro clearing)

lemma clears_at: "(\<And>t. clears ps (m t)) \<Longrightarrow> clears ps (\<lambda>s. m (g s) s)"
  unfolding clears_def by blast

definition hidden :: "string list \<Rightarrow> string list \<Rightarrow> bool" where
  "hidden ps envp \<longleftrightarrow> ''ZBX_CLEAR_ENV=false'' \<in> set envp \<or> (\<forall>entry \<in> set envp. \<forall>p \<in> set ps. \<not> prefix p entry)"

definition hides :: "string list \<Rightarrow> ('w process_scheme \<Rightarrow> (outcome \<times> 'w process_scheme) option) \<Rightarrow> bool" where
  "hides ps m \<longleftrightarrow> (\<forall>s path argv envp s'. m s = Some (Replaced path argv envp, s') \<longrightarrow> hidden ps envp)"

lemma prepared_clears:
  assumes "clears ps m" "prepared m (\<lambda>x. Execute k (c x)) s = Some (Replaced path argv envp, s')"
    and "\<forall>p \<in> set ps. CHR ''='' \<notin> set p"
  shows "hidden ps envp"
proof -
  from assms(2) obtain x t where 1: "m s = Some (Inr x, t)" "Execute k (c x) t = Some (Replaced path argv envp, s')"
    by (auto simp: prepared_Some)
  from assms(1) 1(1) have "cleared ps (environ t)" by (auto simp: clears_def)
  moreover have envp: "envp = env_List (environ t)"
    using Execute_keeps [OF 1(2)] Execute_Replaced [OF 1(2)] by simp
  ultimately consider "env_get (environ t) ''ZBX_CLEAR_ENV'' = ''false''"
    | "\<forall>name. env_has (environ t) name \<longrightarrow> \<not> hasAnyPrefix name ps" by (auto simp: cleared_def)
  then show ?thesis
  proof cases
    case 1
    then have "env_has (environ t) ''ZBX_CLEAR_ENV''" using env_get_found [of "environ t" "''ZBX_CLEAR_ENV''"] by simp
    then have "''ZBX_CLEAR_ENV'' @ ''='' @ env_get (environ t) ''ZBX_CLEAR_ENV'' \<in> set envp"
      unfolding envp env_List_def env_has_iff set_map set_sort by (rule imageI)
    with 1 show ?thesis by (simp add: hidden_def)
  next
    case 2
    have "\<not> prefix p entry" if entry: "entry \<in> set envp" and p: "p \<in> set ps" for entry p
    proof
      assume "prefix p entry"
      from entry obtain name where name: "env_has (environ t) name" "entry = name @ CHR ''='' # env_get (environ t) name"
        by (auto simp: envp env_List_def env_has_iff)
      have "prefix p name"
        using entry_prefix [OF \<open>prefix p entry\<close> [unfolded name(2)]] assms(3) p by blast
      with 2 name(1) p show False by (auto simp: hasAnyPrefix_iff simp del: prefix_code)
    qed
    then show ?thesis by (auto simp: hidden_def)
  qed
qed

lemma resolved_Replaced:
  "WithResolvedSecrets rehash c b entry args s = Some (Replaced path argv envp, s') \<Longrightarrow>
     \<exists>t. entry args t = Some (Replaced path argv envp, s')"
  by (auto simp: WithResolvedSecrets_def prepared_Some Let_def split: if_splits)

lemma storage_Replaced:
  "StorageInitEntrypoint entry i t args s = Some (Replaced path argv envp, s') \<Longrightarrow>
     entry args s = Some (Replaced path argv envp, s')"
  by (auto simp: StorageInitEntrypoint_def prepared_Some split: list.splits if_splits option.splits)

lemma services_prepared:
  assumes "startsService args binary"
  shows "Service k binary m args s = prepared m (\<lambda>_. Execute k (resolveCommand args binary)) s"
    and "DBService k binary m i args s = prepared m (\<lambda>_. Execute k (resolveCommand args binary)) s"
  using resolveCommand_service [OF assms] by (simp_all add: Service_def DBService_def Let_def)

lemmas preparations = agent_prepareService_def agent2_prepareService_def mcp_prepareService_def
  webservice_prepareService_def server_Prepare_def proxy_Prepare_def server_mysql_prepareService_def
  server_pgsql_prepareService_def proxy_mysql_prepareService_def proxy_sqlite3_prepareService_def

lemma preparations_clear [clearing]:
  "clears [''ZABBIX_''] (agent_prepareService h)" "clears [''ZABBIX_''] (agent2_prepareService h)"
  "clears default_prefixes (mcp_prepareService path)" "clears default_prefixes webservice_prepareService"
  "clears default_prefixes (server_mysql_prepareService h pf sql mydb)"
  "clears default_prefixes (server_pgsql_prepareService h pf pgx pgdb)"
  "clears default_prefixes (proxy_mysql_prepareService h pf sql mydb)"
  "clears default_prefixes (proxy_sqlite3_prepareService h pf sq)"
  by (unfold preparations, (intro clearing)+)

lemma mysql_preparations_clear [clearing]:
  "clears default_prefixes (\<lambda>s. server_mysql_prepareService h pf sql (mysql_NewForBackend (environ s)) s)"
  "clears default_prefixes (\<lambda>s. proxy_mysql_prepareService h pf sql (mysql_NewForBackend (environ s)) s)"
  by (rule clears_at, rule preparations_clear)+

lemma java_clears: "clears default_prefixes (java_prepare args)"
  unfolding java_prepare_def by (rule clears_bind_ret clears_private | rule clears_bind)+

lemma bridge_clears:
  "startsService args bridgeAdapterBinary \<Longrightarrow> clears default_prefixes (bridge_prepareCommand args)"
proof -
  assume starts: "startsService args bridgeAdapterBinary"
  then have "\<not> (args \<noteq> [] \<and> hd args = acceptLicenseCommand)"
    by (auto simp: startsService_def bridgeAdapterBinary_def acceptLicenseCommand_def HasPrefix_def)
  moreover have "clears default_prefixes bridge_prepareService"
    unfolding bridge_prepareService_def by (intro clearing)
  ultimately show ?thesis
    using starts starts_iff [of args bridgeAdapterBinary] clears_bind_ret
    by (auto simp: bridge_prepareCommand_def split: prod.split)
qed

named_theorems hiding \<open>entrypoints that hide private variables from the service\<close>

lemma no_equals: "\<forall>p \<in> set default_prefixes. CHR ''='' \<notin> set p" "\<forall>p \<in> set [''ZABBIX_'']. CHR ''='' \<notin> set p"
  by (simp_all add: default_prefixes_def)

lemma hides_prepared: "clears ps m \<Longrightarrow> \<forall>p \<in> set ps. CHR ''='' \<notin> set p \<Longrightarrow> hides ps (prepared m (\<lambda>x. Execute k (c x)))"
  unfolding hides_def using prepared_clears by blast

lemma hides_resolved [hiding]: "hides ps (entry args) \<Longrightarrow> hides ps (WithResolvedSecrets rehash c b entry args)"
  unfolding hides_def using resolved_Replaced by blast

lemma hides_storage [hiding]: "hides ps (entry args) \<Longrightarrow> hides ps (StorageInitEntrypoint entry i t args)"
  unfolding hides_def using storage_Replaced by blast

lemma hides_service [hiding]:
  assumes "startsService args binary" "clears ps m" "\<forall>p \<in> set ps. CHR ''='' \<notin> set p"
  shows "hides ps (Service k binary m args)" "hides ps (DBService k binary m i args)"
  using hides_prepared [OF assms(2,3)] by (simp_all add: hides_def services_prepared [OF assms(1)])

lemma hides_bridge [hiding]: "startsService args bridgeAdapterBinary \<Longrightarrow> hides default_prefixes (bridge_entrypoint k args)"
  unfolding bridge_entrypoint_def using hides_prepared [OF bridge_clears no_equals(1), where c = "\<lambda>x. x"] by blast

lemma hides_java [hiding]: "startsService args serviceCommand \<Longrightarrow> hides default_prefixes (java_Run k args)"
  unfolding java_Run_def
  using starts_iff [of args serviceCommand] hides_prepared [OF java_clears no_equals(1), where c = "\<lambda>x. x"]
  by (auto split: prod.split)

lemma hides_nothing [hiding]: "hides [] m"
  by (simp add: hides_def hidden_def)

lemma returned_not_replaced [simp]: "returned r \<noteq> Replaced path argv envp"
  by (simp add: returned_def split: sum.split)

lemma hides_web [hiding]: "hides ps (web_Entrypoint h number i new t server [])"
  by (auto simp: hides_def web_Entrypoint_def web_Run_def prepared_Some startStack_def Let_def)

lemma image_hides:
  assumes "im \<in> set (images h pf sql pgx sq)" "im_starts im args"
  shows "hides (im_private im) (im_main im args)"
  using assms
  by (auto simp: image_defs Let_def no_equals intro!: hiding preparations_clear mysql_preparations_clear)


definition sample_container :: "nat machine" where
  "sample_container =
     \<lparr>environ = [(''DB_SERVER_PASS'', ''p''), (''PATH'', ''/bin'')], files = quiet_fs [], remote = 0\<rparr>"


section \<open>Accepting the license\<close>

text \<open>Accepting the license of the bridge adapter always ends, without changing a file and without
  starting the service: with an argument or without the version that was reviewed nothing is executed,
  otherwise only the license command of the adapter, for exactly that version.\<close>

theorem bridge_license:
  fixes s :: "'w process_scheme"
  defines "version \<equiv> TrimSpace (env_get (environ s) ''ZBX_EULAVERSION'')"
  shows "\<exists>out env. bridge_main h (acceptLicenseCommand # rest) s = Some (out, s\<lparr>environ := env\<rparr>) \<and>
    (if rest \<noteq> [] \<or> version = [] then (\<exists>e. out = Returned (Some e)) \<and> env = environ s
     else env = ClearPrivateEnv (environ s) [] \<and>
       (\<exists>config. bridge_main h (acceptLicenseCommand # rest) s =
          Execute (hs_kernel h) [bridgeAdapterBinary, ''-c'', config, ''license'', ''accept'', ''--non-interactive'',
            ''--version'', version] (s\<lparr>environ := env\<rparr>)))"
proof -
  have other: "\<not> startsService (acceptLicenseCommand # rest) bridgeAdapterBinary"
    by (simp add: startsService_def acceptLicenseCommand_def bridgeAdapterBinary_def HasPrefix_def)
  have main: "bridge_main h (acceptLicenseCommand # rest) s = bridge_entrypoint (hs_kernel h) (acceptLicenseCommand # rest) s"
    unfolding bridge_main_def by (rule WithResolvedSecrets_custom [OF _ other]) simp
  have keep: "\<exists>out. Execute k c t = Some (out, t)" for k c and t :: "'w process_scheme"
    by (auto simp: Execute_def split: outcome.split option.split)
  show ?thesis
  proof (cases "rest \<noteq> [] \<or> version = []")
    case True
    have "\<exists>e. bridge_entrypoint (hs_kernel h) (acceptLicenseCommand # rest) s = Some (Returned (Some e), s)"
      using True
      by (auto simp: bridge_entrypoint_def bridge_prepareCommand_def prepared_def once_def raise_def bind_run_def
          query_process_def query_eff_def prepareLicenseAcceptance_def version_def)
    then obtain e where "bridge_entrypoint (hs_kernel h) (acceptLicenseCommand # rest) s = Some (Returned (Some e), s)" ..
    with True show ?thesis by (intro exI [of _ "Returned (Some e)"] exI [of _ "environ s"]) (simp add: main)
  next
    case False
    let ?env = "ClearPrivateEnv (environ s) []"
    define config where "config = path_Join [ValueOrDefaultNonEmpty (environ s) ''ZABBIX_CONF_DIR'' ''/etc/zabbix'', ''zabbix_bridge_adapter.conf'']"
    have run: "bridge_main h (acceptLicenseCommand # rest) s =
        Execute (hs_kernel h) [bridgeAdapterBinary, ''-c'', config, ''license'', ''accept'', ''--non-interactive'',
          ''--version'', version] (s\<lparr>environ := ?env\<rparr>)"
      unfolding main using False
      by (simp add: bridge_entrypoint_def bridge_prepareCommand_def prepared_def once_def bind_run_def ret_def
          query_process_def query_eff_def prepareLicenseAcceptance_def change_env_def update_environ_def version_def config_def)
    from keep obtain out where "bridge_main h (acceptLicenseCommand # rest) s = Some (out, s\<lparr>environ := ?env\<rparr>)"
      unfolding run by blast
    moreover from run have "\<exists>config. bridge_main h (acceptLicenseCommand # rest) s =
        Execute (hs_kernel h) [bridgeAdapterBinary, ''-c'', config, ''license'', ''accept'', ''--non-interactive'',
          ''--version'', version] (s\<lparr>environ := ?env\<rparr>)" by blast
    ultimately show ?thesis using False by (intro exI [of _ out] exI [of _ ?env]) (simp only: if_False simp_thms)
  qed
qed

section \<open>Health check\<close>


definition sample_health :: "unit health_client" where
  "sample_health =
     \<lparr>hc_Path = (\<lambda>_. Inr ''/ready''),
      hc_Get = (\<lambda>_. ret \<lparr>hr_StatusCode = 200, hr_Status = ''200 OK'',
        hr_body = Inr (''{'' @ marshal_string ''ready'' @ '':true}''), hr_closed = None\<rparr>)\<rparr>"


end
