(* ===== verification/Spec2Isabelle.thy ===== *)
theory Spec2Isabelle
  imports
    Environment Indexed Retry Files Parameters Command Json SecretRegistry SecretFiles Secrets SqlScript
    Database Vault MySQL Endpoints PostgreSQL Marshal HttpApi ClickHouse Elasticsearch StorageProvider StorageInit
    Sqlite Hooks SecretOwner WebStack Web Frontend Services Programs Images
begin

text \<open>
  \<^bold>\<open>Container entrypoints of the Zabbix images.\<close>  Every image of the repository starts one of the Go
  programs under \<open>src/templates/entrypoints/cmd\<close>.  It reads the environment of the container, resolves
  secrets, provisions databases and storage back ends, writes configuration files, runs the hooks of
  the user, removes its own settings from the environment and becomes the service, or supervises it.
  The development models these programs and the packages under \<open>internal/\<close> that they are made of.

  \<^bold>\<open>How the code is modelled.\<close>  A Go string is a byte string.  A Go map is an association list,
  errors are values of the type \<open>error\<close>, and a function that may fail returns a sum.  Code that changes
  something takes and returns its state, also with an error, since Go keeps what was changed before
  (\<open>eff\<close>); code that may not end returns an option (\<open>run\<close>).  The state of a program is a \<open>process\<close>,
  its environment and file system; the file system of \<open>OS\<close> has places, nodes, permissions, links and a
  working directory, and every system call on it may be refused by the parameter \<open>denied\<close>.  A program that
  talks to services has a \<open>machine\<close>, a process with a remote state.  What is not under \<open>src/\<close> is an
  argument: the kernel's \<open>execve\<close> and \<open>PATH\<close> look-up, the user database and the resolver, certificates
  and key pairs, the HTTP transport, the drivers of MySQL, PostgreSQL and SQLite, URLs of any shape,
  gzip, \<open>openssl rehash\<close>, the scripts of the user, the schema files embedded in the binaries.

  \<^bold>\<open>Foundations.\<close>
  \<^item> \<open>Prelude\<close>: errors, results, \<open>eff\<close> and \<open>run\<close>, the predicate \<open>preserves\<close> and its rules.
  \<^item> \<open>Strings\<close>, \<open>Paths\<close>, \<open>Urls\<close>, \<open>Quoting\<close>: what the code uses of \<open>strings\<close>, \<open>strconv\<close>, \<open>path/filepath\<close>
    and \<open>net/url\<close>, and the contract of a quoting function (locale \<open>quoting\<close>).
  \<^item> \<open>OS\<close>: the file system.  The resolution of a path follows at most 40 links, as Linux does, and that of
    \<open>filepath.EvalSymlinks\<close> 255, as Go does; a longer chain is an error in the model as it is there.
  \<^item> \<open>Json\<close>, \<open>Marshal\<close>: \<open>encoding/json\<close>.  The scanner is a step function over tokens with the depth limit of
    10000; writing and reading round-trip (locale \<open>string_writer\<close>, for plain strings and for strings with
    escaped apostrophes).

  \<^bold>\<open>Package bootstrap.\<close>
  \<^item> \<open>Environment\<close> (\<open>environment.go\<close>; locale \<open>string_map\<close>), \<open>Indexed\<close> (\<open>indexed.go\<close>), \<open>Retry\<close> (\<open>retry.go\<close>; the loop
    may not end, its bound is proved when attempts are limited), \<open>Files\<close> (\<open>files.go\<close>, with the atomicity of
    \<open>WriteFilePreservingMode\<close> for every refused call), \<open>Command\<close> (\<open>command.go\<close>, \<open>exec_unix.go\<close>,
    \<open>identity_unix.go\<close>, \<open>system.go\<close>).
  \<^item> \<open>SecretRegistry\<close> (\<open>secret_registry.go\<close>, \<open>provider_secrets.go\<close>), \<open>SecretFiles\<close> (\<open>secret_files.go\<close>; locales
    \<open>confined_root\<close> and \<open>managed_invariant\<close>), \<open>Secrets\<close> (\<open>secrets.go\<close>, \<open>secret_ca.go\<close>; locale \<open>secret_invariant\<close>),
    \<open>SecretOwner\<close> (\<open>secret_owner_unix.go\<close>).  The lemmas carry an invariant through every step of the
    resolution: nothing outside the generated tree is written, only variables of certain names appear,
    an inline secret disappears.  A temporary name is tried 10 times, as in the code.
  \<^item> \<open>Database\<close> (\<open>database.go\<close>, \<open>tls.go\<close>).

  \<^bold>\<open>Configuration files.\<close>  \<open>Parameters\<close>: the package \<open>config\<close>, the rewriting of single parameters, of
  indexed ones and of access rules, stated over the lines of the file.

  \<^bold>\<open>Databases.\<close>
  \<^item> \<open>Vault\<close> (\<open>vault.go\<close>): three attempts per request; what is verified of the server.
  \<^item> \<open>Backend\<close>: what the two servers share (locale \<open>vault_backend\<close>); \<open>SqlScript\<close>, \<open>MySQL\<close>; \<open>Endpoints\<close>,
    \<open>PostgreSQL\<close>; \<open>Sqlite\<close>, with the transactions of the driver as the hypothesis \<open>transactional\<close>.

  \<^bold>\<open>Storage back ends.\<close>  \<open>HttpApi\<close>, \<open>ClickHouse\<close>, \<open>Elasticsearch\<close>: the clients and the schemas, with the
  hypotheses \<open>ch_keeps\<close> and \<open>es_keeps\<close> that a server keeps what was created; \<open>StorageProvider\<close>: the provider
  parameters, native and for PHP; \<open>StorageInit\<close>: their preparation, three attempts each, which always
  returns.

  \<^bold>\<open>Frontend.\<close>  \<open>Web\<close> has the preparation of PHP, nginx and Apache and the whole entrypoint; \<open>WebStack\<close>
  the supervisor of the two processes, as a step function whose events are the moves of the supervisor,
  of its children, of the operator and of the timer, so that a schedule is a list of events: the
  invariant of the reachable states gives what holds when it returns, a potential bounds the moves
  (at most \<open>4 n + 2\<close> for \<open>n\<close> children), and a simulation shows that it refines the abstract machine \<open>spec_step\<close>;
  \<open>Frontend\<close> has the contract of a database (locale \<open>frontend\<close>, interpreted for both servers) and what is
  left in the environment.

  \<^bold>\<open>Services and images.\<close>  \<open>Hooks\<close> (\<open>internal/hooks\<close>), \<open>Services\<close> (server, proxy, agents), \<open>Programs\<close> (MCP
  server, web service, bridge adapter, Java gateway, SNMP traps, health check), \<open>Images\<close>: the function
  that each \<open>main.go\<close> passes to \<open>bootstrap.Main\<close>, the list of all images, and what holds of every one.

  \<^bold>\<open>Interaction.\<close>  \<open>bootstrap_Main\<close> runs an entrypoint: \<open>WithResolvedSecrets\<close> around
  \<open>StorageInitEntrypoint\<close> around \<open>DBService\<close> or \<open>Service\<close>, each of which takes the command line and
  either answers it or passes it on.  The preparations are chained by \<open>bind_run\<close> in the order of the code;
  the collections \<open>preserving\<close>, \<open>keeping\<close>, \<open>clearing\<close> and \<open>hiding\<close> hold one rule per operation, so that a
  property of a whole entrypoint follows by introduction.

  \<^bold>\<open>Hypotheses.\<close>  \<open>mounted\<close> and \<open>rehash_confined\<close>: the generated tree is no link and \<open>openssl rehash\<close> writes
  only there; \<open>plain_number\<close>: the decimal text of a number is one; \<open>ch_keeps\<close>, \<open>es_keeps\<close>, \<open>transactional\<close>
  as above.  Each theorem that uses one has a witness with concrete arguments.

  \<^bold>\<open>Not modelled.\<close>  Logging; the Windows variants; deadlines of single requests (the context that
  a termination signal ends is an argument); the inside of certificates; the owner of files; patterns
  in the names given to \<open>filepath.Glob\<close>; what child processes and hooks do beyond the file system; the
  test helpers.
\<close>

end
